theory Spec2Isabelle
  imports Complex_Main "HOL-Library.Log_Nat"
begin

section \<open>JavaScript values used by the two Lambda handlers\<close>

text \<open>
  A \<open>string\<close> stands for a JavaScript string whose code units lie in the Latin-1 range,
  one \<open>char\<close> per code unit. A JavaScript Number is an IEEE double: \<open>NaN\<close>, one of
  the two infinities, or a finite value, kept as the rational number it stands for
  (\<open>Fin\<close>); \<open>Fin 0\<close> stands for both zeros. The numbers the handlers compute are
  the results of \<open>parseFloat\<close> and \<open>parseInt\<close>, which round the value they read to
  the nearest double (\<open>to_double\<close> below).
\<close>

datatype jsnum = NaN | PosInf | NegInf | Fin rat

datatype js_error = TypeError | SyntaxError | URIError | ServiceError string

datatype jsval =
    JUndefined
  | JNull
  | JBool bool
  | JNum jsnum
  | JStr string
  | JArr "jsval list"
  | JObj "(string \<times> jsval) list"

text \<open>Truthiness (the abstract operation ToBoolean).\<close>

fun num_truthy :: "jsnum \<Rightarrow> bool" where
  "num_truthy NaN = False"
| "num_truthy (Fin r) = (r \<noteq> 0)"
| "num_truthy PosInf = True"
| "num_truthy NegInf = True"

fun truthy :: "jsval \<Rightarrow> bool" where
  "truthy JUndefined = False"
| "truthy JNull = False"
| "truthy (JBool b) = b"
| "truthy (JNum n) = num_truthy n"
| "truthy (JStr s) = (s \<noteq> [])"
| "truthy (JArr xs) = True"
| "truthy (JObj kvs) = True"

text \<open>\<open>x || y\<close>: the left operand when it is truthy, else the right one.\<close>

definition js_or :: "jsval \<Rightarrow> jsval \<Rightarrow> jsval" where
  "js_or x y = (if truthy x then x else y)"

definition num_or :: "jsnum \<Rightarrow> jsnum \<Rightarrow> jsnum" where
  "num_or x y = (if num_truthy x then x else y)"

subsection \<open>String.prototype.trim and String.prototype.split\<close>

definition is_ws :: "char \<Rightarrow> bool" where
  "is_ws c = (c \<in> set [CHR 0x09, CHR 0x0A, CHR 0x0B, CHR 0x0C, CHR 0x0D, CHR 0x20, CHR 0xA0])"

definition trimStart :: "string \<Rightarrow> string" where
  "trimStart s = dropWhile is_ws s"

definition trimEnd :: "string \<Rightarrow> string" where
  "trimEnd s = rev (dropWhile is_ws (rev s))"

definition trim :: "string \<Rightarrow> string" where
  "trim s = rev (dropWhile is_ws (rev (dropWhile is_ws s)))"

text \<open>\<open>s.split(sep)\<close> for a one-character separator: never empty, \<open>[""]\<close> on \<open>""\<close>.\<close>

fun split_str :: "char \<Rightarrow> string \<Rightarrow> string list" where
  "split_str sep [] = [[]]"
| "split_str sep (c # cs) =
     (if c = sep then [] # split_str sep cs
      else (case split_str sep cs of
              [] \<Rightarrow> [[c]]
            | x # xs \<Rightarrow> (c # x) # xs))"

subsection \<open>parseFloat and parseInt\<close>

definition is_digit :: "char \<Rightarrow> bool" where
  "is_digit c = (c \<in> set ''0123456789'')"

definition digit_val :: "char \<Rightarrow> nat" where
  "digit_val c = of_char c - 48"

definition digits_val :: "string \<Rightarrow> nat" where
  "digits_val ds = foldl (\<lambda>a c. 10 * a + digit_val c) 0 ds"

definition is_hex_digit :: "char \<Rightarrow> bool" where
  "is_hex_digit c = (c \<in> set ''0123456789abcdefABCDEF'')"

definition hex_digit_val :: "char \<Rightarrow> nat" where
  "hex_digit_val c =
     (if is_digit c then of_char c - 48
      else if c \<in> set ''abcdef'' then of_char c - 87
      else of_char c - 55)"

definition hex_val :: "string \<Rightarrow> nat" where
  "hex_val ds = foldl (\<lambda>a c. 16 * a + hex_digit_val c) 0 ds"

text \<open>An optional sign: whether it is \<open>-\<close>, and the rest.\<close>

fun strip_sign :: "string \<Rightarrow> bool \<times> string" where
  "strip_sign [] = (False, [])"
| "strip_sign (c # cs) =
     (if c = CHR ''-'' then (True, cs)
      else if c = CHR ''+'' then (False, cs)
      else (False, c # cs))"

definition pow10 :: "int \<Rightarrow> rat" where
  "pow10 e = (if 0 \<le> e then 10 ^ nat e else 1 / 10 ^ nat (- e))"

text \<open>
  The Number value of a rational: the nearest double, a tie going to the one with an even
  significand. The doubles around a positive \<open>a\<close> with \<open>2 ^ e \<le> a < 2 ^ (e + 1)\<close>
  are the multiples of \<open>2 ^ (e - 52)\<close>, and of \<open>2 ^ - 1074\<close> below the normal range;
  a result of \<open>2 ^ 1024\<close> or more is an infinity, and a result of 0 is the underflow to
  zero. (The language lets an implementation drop the digits of a literal after the
  twentieth; this is the exact rounding, which V8 does.)
\<close>

definition pow2 :: "int \<Rightarrow> rat" where
  "pow2 e = (if 0 \<le> e then 2 ^ nat e else 1 / 2 ^ nat (- e))"

definition floor_log2 :: "rat \<Rightarrow> int" where
  "floor_log2 r = (if 1 \<le> r then bitlen \<lfloor>r\<rfloor> - 1 else - bitlen (\<lceil>1 / r\<rceil> - 1))"

definition round_half_even :: "rat \<Rightarrow> int" where
  "round_half_even x =
     (let f = \<lfloor>x\<rfloor>; d = x - of_int f
      in if d < 1 / 2 then f else if 1 / 2 < d then f + 1 else if even f then f else f + 1)"

definition nearest :: "rat \<Rightarrow> rat" where
  "nearest a =
     (let q = max (floor_log2 a) (- 1022) - 52
      in of_int (round_half_even (a / pow2 q)) * pow2 q)"

definition to_double :: "rat \<Rightarrow> jsnum" where
  "to_double r =
     (if r = 0 then Fin 0
      else
        (let v = nearest \<bar>r\<bar>
         in if pow2 1024 \<le> v then (if r < 0 then NegInf else PosInf)
            else Fin (if r < 0 then - v else v)))"

text \<open>
  The exponent part of a decimal literal, when the text goes on with one: \<open>e\<close> or
  \<open>E\<close>, an optional sign, and at least one digit. Anything else is not an exponent and
  the literal ends before it.
\<close>

fun exponent_part :: "string \<Rightarrow> int" where
  "exponent_part [] = 0"
| "exponent_part (c # cs) =
     (if c = CHR ''e'' \<or> c = CHR ''E'' then
        (let (neg, r) = strip_sign cs; ds = takeWhile is_digit r
         in if ds = [] then 0
            else if neg then - int (digits_val ds) else int (digits_val ds))
      else 0)"

text \<open>
  \<open>parseFloat\<close> on a string: leading white space is dropped, then the longest prefix
  that is a StrDecimalLiteral is read and its value rounded to a double; \<open>NaN\<close> when
  there is none.
\<close>

definition parseFloat_str :: "string \<Rightarrow> jsnum" where
  "parseFloat_str s =
     (let (neg, u) = strip_sign (trimStart s) in
      if take 8 u = ''Infinity'' then (if neg then NegInf else PosInf)
      else
        (let ip = takeWhile is_digit u;
             r1 = dropWhile is_digit u;
             (fp, r2) = (case r1 of
                           [] \<Rightarrow> ([], r1)
                         | c # r \<Rightarrow>
                             if c = CHR ''.'' then (takeWhile is_digit r, dropWhile is_digit r)
                             else ([], r1))
         in if ip = [] \<and> fp = [] then NaN
            else
              (let m = of_nat (digits_val ip) + of_nat (digits_val fp) / 10 ^ length fp;
                   v = m * pow10 (exponent_part r2)
               in to_double (if neg then - v else v))))"

text \<open>
  \<open>parseInt\<close> on a string, no radix given: leading white space is dropped, a sign is
  read, a \<open>0x\<close> or \<open>0X\<close> prefix selects radix 16, else radix 10; the longest run of
  digits of the radix is the value, rounded to a double (a run too long for the range of
  a double gives an infinity), and \<open>NaN\<close> when the run is empty.
\<close>

definition parseInt_str :: "string \<Rightarrow> jsnum" where
  "parseInt_str s =
     (let (neg, u) = strip_sign (trimStart s) in
      if take 2 u = ''0x'' \<or> take 2 u = ''0X'' then
        (let z = takeWhile is_hex_digit (drop 2 u)
         in if z = [] then NaN
            else to_double (if neg then - of_nat (hex_val z) else of_nat (hex_val z)))
      else
        (let z = takeWhile is_digit u
         in if z = [] then NaN
            else to_double (if neg then - of_nat (digits_val z) else of_nat (digits_val z))))"

text \<open>
  A field of a CSV row object is a string, or \<open>undefined\<close> (\<open>None\<close>) when the row has
  fewer values than there are headers. Both parsers first turn their argument into a
  string, and \<open>undefined\<close> becomes the text \<open>undefined\<close>.
\<close>

definition field_to_string :: "string option \<Rightarrow> string" where
  "field_to_string v = (case v of None \<Rightarrow> ''undefined'' | Some s \<Rightarrow> s)"

definition parseFloat :: "string option \<Rightarrow> jsnum" where
  "parseFloat v = parseFloat_str (field_to_string v)"

definition parseInt :: "string option \<Rightarrow> jsnum" where
  "parseInt v = parseInt_str (field_to_string v)"

definition field_truthy :: "string option \<Rightarrow> bool" where
  "field_truthy v = (case v of None \<Rightarrow> False | Some s \<Rightarrow> s \<noteq> [])"



section \<open>External collaborators\<close>

text \<open>
  The canonical record built by the batch path (\<open>enrichedRecord\<close>) and the one built by
  the API path (\<open>item\<close>); \<open>item_id\<close> and \<open>api_id\<close> are the field \<open>id\<close> of the
  two. In the API path the identity, the name and the category come straight from the
  parsed body, so they are arbitrary JavaScript values.
\<close>

record enriched =
  item_id :: string
  timestamp :: int
  nome :: string
  categoria :: string
  preco :: jsnum
  estoque :: jsnum
  source_file :: string
  processed_at :: string
  processor_version :: string

record api_item =
  api_id :: jsval
  api_timestamp :: int
  api_nome :: jsval
  api_categoria :: jsval
  api_preco :: jsnum
  api_estoque :: jsnum
  api_source :: string
  created_at :: string
  created_by :: jsval
  request_id :: jsval

datatype stored = FileItem enriched | ApiItem api_item

datatype notification =
    ProcessingCompleted
      (n_file: string) (n_bucket: string) (n_records_processed: nat) (n_records_failed: nat)
      (n_total_records: nat) (n_processed_at: string) (n_lambda_request_id: jsval)
  | ProcessingFailed (n_error: js_error) (n_failed_at: string)
  | RecordCreated (n_record_id: jsval) (n_record_name: jsval) (n_created_at: string)

record publish_params =
  TopicArn :: string
  Message :: notification
  Subject :: string
  MessageAttributes :: "(string \<times> string) list"

text \<open>
  What the handlers do not define themselves: the clock, the three AWS clients, the uuid
  library and the built-ins \<open>decodeURIComponent\<close>, \<open>JSON.parse\<close> and the conversion of a
  value that is not a string to a string. Each call may depend on and change a hidden
  state \<open>'w\<close> of the outside world, and each fallible one either returns or throws
  (\<open>Inl\<close>).
\<close>

record 'w services =
  date_now :: "'w \<Rightarrow> int \<times> 'w"
  date_iso :: "'w \<Rightarrow> string \<times> 'w"
  s3_getObject :: "string \<Rightarrow> string \<Rightarrow> 'w \<Rightarrow> (js_error + string) \<times> 'w"
  dynamodb_put :: "stored \<Rightarrow> 'w \<Rightarrow> (js_error + unit) \<times> 'w"
  sns_publish :: "publish_params \<Rightarrow> 'w \<Rightarrow> (js_error + unit) \<times> 'w"
  uuidv4 :: "'w \<Rightarrow> string \<times> 'w"
  decodeURIComponent :: "string \<Rightarrow> js_error + string"
  JSON_parse :: "string \<Rightarrow> js_error + jsval"
  ToString :: "jsval \<Rightarrow> js_error + string"

text \<open>
  \<open>String(v)\<close>, the string a value is converted to: written out for strings,
  \<open>undefined\<close>, \<open>null\<close>, booleans and the non-finite numbers; left to \<open>ToString\<close>
  for finite numbers, arrays and objects (where it can throw).
\<close>

fun value_to_string :: "'w services \<Rightarrow> jsval \<Rightarrow> js_error + string" where
  "value_to_string svc (JStr s) = Inr s"
| "value_to_string svc JUndefined = Inr ''undefined''"
| "value_to_string svc JNull = Inr ''null''"
| "value_to_string svc (JBool b) = Inr (if b then ''true'' else ''false'')"
| "value_to_string svc (JNum NaN) = Inr ''NaN''"
| "value_to_string svc (JNum PosInf) = Inr ''Infinity''"
| "value_to_string svc (JNum NegInf) = Inr ''-Infinity''"
| "value_to_string svc v = ToString svc v"

text \<open>
  The loop of \<open>publishMessage\<close> over the custom attributes, each value through
  \<open>String\<close>; the first conversion that throws ends it.
\<close>

fun message_attributes ::
  "'w services \<Rightarrow> (string \<times> jsval) list \<Rightarrow> js_error + (string \<times> string) list" where
  "message_attributes svc [] = Inr []"
| "message_attributes svc ((k, v) # rest) =
     (case value_to_string svc v of
        Inl e \<Rightarrow> Inl e
      | Inr s \<Rightarrow>
          (case message_attributes svc rest of
             Inl e \<Rightarrow> Inl e
           | Inr xs \<Rightarrow> Inr ((k, s) # xs)))"

text \<open>
  The state a handler runs in: the hidden state of the outside world, and the calls made
  so far to the Store Gateway and to the Notifier, in order, with what the Store Gateway
  answered to each put. The three lists are written only by \<open>putItem\<close> and
  \<open>publishMessage\<close> below; the services never see them.
\<close>

record 'w world =
  ext :: 'w
  put_calls :: "stored list"
  put_results :: "(js_error + unit) list"
  publish_calls :: "publish_params list"

text \<open>The partition key of a stored item, its \<open>id\<close>.\<close>

definition stored_id :: "stored \<Rightarrow> jsval" where
  "stored_id item = (case item of FileItem e \<Rightarrow> JStr (item_id e) | ApiItem a \<Rightarrow> api_id a)"

text \<open>\<open>getObject\<close> (utils/s3.js): read the object, rethrow a failure.\<close>

definition getObject ::
  "'w services \<Rightarrow> string \<Rightarrow> string \<Rightarrow> 'w world \<Rightarrow> (js_error + string) \<times> 'w world" where
  "getObject svc bucket key wd =
     (let (r, e) = s3_getObject svc bucket key (ext wd)
      in (r, wd\<lparr>ext := e\<rparr>))"

text \<open>\<open>putItem\<close> (utils/dynamodb.js): one put on the table, rethrow a failure.\<close>

definition putItem ::
  "'w services \<Rightarrow> stored \<Rightarrow> 'w world \<Rightarrow> (js_error + unit) \<times> 'w world" where
  "putItem svc item wd =
     (let (r, e) = dynamodb_put svc item (ext wd)
      in (r, wd\<lparr>ext := e, put_calls := put_calls wd @ [item],
                put_results := put_results wd @ [r]\<rparr>))"

text \<open>
  \<open>publishMessage\<close> (utils/sns.js): build the parameters, publish, rethrow a failure.
  The message is kept as the object it is built from, not as its JSON text.
\<close>

definition publishMessage ::
  "'w services \<Rightarrow> string \<Rightarrow> notification \<Rightarrow> string \<Rightarrow> (string \<times> jsval) list \<Rightarrow> 'w world
     \<Rightarrow> (js_error + unit) \<times> 'w world" where
  "publishMessage svc topicArn message subject attributes wd =
     (case message_attributes svc attributes of
        Inl e \<Rightarrow> (Inl e, wd)
      | Inr attrs \<Rightarrow>
          (let params = \<lparr>TopicArn = topicArn, Message = message, Subject = subject,
                          MessageAttributes = attrs\<rparr>;
               (r, e) = sns_publish svc params (ext wd)
           in (r, wd\<lparr>ext := e, publish_calls := publish_calls wd @ [params]\<rparr>)))"

definition now :: "'w services \<Rightarrow> 'w world \<Rightarrow> int \<times> 'w world" where
  "now svc wd = (let (t, e) = date_now svc (ext wd) in (t, wd\<lparr>ext := e\<rparr>))"

definition toISOString :: "'w services \<Rightarrow> 'w world \<Rightarrow> string \<times> 'w world" where
  "toISOString svc wd = (let (t, e) = date_iso svc (ext wd) in (t, wd\<lparr>ext := e\<rparr>))"

text \<open>\<open>process.env.TOPIC_ARN\<close>: unset, or a string; it is used when truthy.\<close>

definition env_truthy :: "string option \<Rightarrow> bool" where
  "env_truthy v = (case v of None \<Rightarrow> False | Some s \<Rightarrow> s \<noteq> [])"

text \<open>\<open>String(n)\<close> for a count: its decimal digits.\<close>

fun String_nat :: "nat \<Rightarrow> string" where
  "String_nat n =
     (if n < 10 then [''0123456789'' ! n]
      else String_nat (n div 10) @ [''0123456789'' ! (n mod 10)])"

declare String_nat.simps [simp del]

section \<open>The batch handler (dataProcessor)\<close>

text \<open>
  What is logged on the console is left out of both handlers, and so is the
  \<open>JSON.stringify\<close> of the event that is only logged. The Lambda context is an
  object, as the runtime passes it.
\<close>

record s3_record =
  bucket_name :: string
  object_key :: string

record s3_event =
  Records :: "s3_record list"

record lambda_context =
  requestId :: jsval

datatype batch_body =
    Completed
      (b_file: string) (b_records_processed: nat) (b_records_failed: nat)
      (b_total_records: nat) (b_success_rate: "rat option")
  | Fatal (b_error: js_error)

record 'b response =
  statusCode :: nat
  body :: 'b

type_synonym batch_result = "batch_body response"

text \<open>The counters and the \<open>records\<close> array of the row loop, with the state it runs in.\<close>

record 'w loop_state =
  records :: "enriched list"
  processedCount :: nat
  errorCount :: nat
  world :: "'w world"

definition nth_opt :: "'a list \<Rightarrow> nat \<Rightarrow> 'a option" where
  "nth_opt xs i = (if i < length xs then Some (xs ! i) else None)"

text \<open>
  The row object: \<open>headers.forEach((header, index) => record[header] = values[index])\<close>
  on an empty object. A later header of the same name overwrites an earlier one, and a
  header beyond the row's values is set to \<open>undefined\<close>.
\<close>

definition row_object :: "string list \<Rightarrow> string list \<Rightarrow> string \<Rightarrow> string option" where
  "row_object headers vals =
     foldl (\<lambda>r (header, index). r(header := nth_opt vals index))
           (\<lambda>_. None) (zip headers [0..<length headers])"

text \<open>
  Steps 3a and 3b of the loop body: the trimmed line is split at the commas, each value
  is trimmed, and the row object is built from the headers.
\<close>

definition row_of_line :: "string list \<Rightarrow> string \<Rightarrow> string \<Rightarrow> string option" where
  "row_of_line headers line = row_object headers (map trim (split_str (CHR '','') line))"

text \<open>
  Step 4 of the loop body: the enriched record of an accepted row, its fields in the
  order the source evaluates them (the clock is read for \<open>timestamp\<close>, then again for
  \<open>processed_at\<close>).
\<close>

definition enrich ::
  "'w services \<Rightarrow> string \<Rightarrow> (string \<Rightarrow> string option) \<Rightarrow> 'w world \<Rightarrow> enriched \<times> 'w world" where
  "enrich svc key row wd =
     (let (ts, w1) = now svc wd;
          (iso, w2) = toISOString svc w1
      in (\<lparr>item_id = field_to_string (row ''id''),
           timestamp = ts,
           nome = field_to_string (row ''nome''),
           categoria = (if field_truthy (row ''categoria'')
                        then field_to_string (row ''categoria'')
                        else ''Sem categoria''),
           preco = num_or (parseFloat (row ''preco'')) (Fin 0),
           estoque = num_or (parseInt (row ''estoque'')) (Fin 0),
           source_file = key,
           processed_at = iso,
           processor_version = ''1.0.0''\<rparr>, w2))"

text \<open>
  One turn of the row loop on the raw line \<open>lines[i]\<close>: a blank line is skipped, a row
  without a usable \<open>id\<close> or \<open>nome\<close> is counted as failed, any other row is enriched
  and put. Inside the row's \<open>try\<close> only \<open>putItem\<close> can throw; its \<open>catch\<close> counts the
  row as failed.
\<close>

definition process_line ::
  "'w services \<Rightarrow> string list \<Rightarrow> string \<Rightarrow> 'w loop_state \<Rightarrow> string \<Rightarrow> 'w loop_state" where
  "process_line svc headers key st raw =
     (let line = trim raw in
      if line = [] then st
      else
        (let row = row_of_line headers line
         in if \<not> field_truthy (row ''id'') \<or> \<not> field_truthy (row ''nome'') then
              st\<lparr>errorCount := errorCount st + 1\<rparr>
            else
              (let (enrichedRecord, w2) = enrich svc key row (world st);
                   (r, w3) = putItem svc (FileItem enrichedRecord) w2
               in case r of
                    Inl e \<Rightarrow> st\<lparr>errorCount := errorCount st + 1, world := w3\<rparr>
                  | Inr u \<Rightarrow>
                      st\<lparr>records := records st @ [enrichedRecord],
                         processedCount := processedCount st + 1,
                         world := w3\<rparr>)))"

text \<open>The loop \<open>for (let i = 1; i < lines.length; i++)\<close> over the lines after the header.\<close>

definition process_lines ::
  "'w services \<Rightarrow> string list \<Rightarrow> string \<Rightarrow> 'w loop_state \<Rightarrow> string list \<Rightarrow> 'w loop_state" where
  "process_lines svc headers key st ls = foldl (process_line svc headers key) st ls"

text \<open>
  The validation of the loop body on a trimmed line, as a predicate: the row passes when
  its \<open>id\<close> and its \<open>nome\<close> are both truthy.
\<close>

definition usable_identity :: "string list \<Rightarrow> string \<Rightarrow> bool" where
  "usable_identity headers line =
     (field_truthy (row_of_line headers line ''id'') \<and>
      field_truthy (row_of_line headers line ''nome''))"

text \<open>
  What the loop hands to the Store Gateway, for stating its properties: for each line
  that is not blank and passes the validation, in order, the record built from it and
  the answer of the put.
\<close>

fun row_attempts ::
  "'w services \<Rightarrow> string list \<Rightarrow> string \<Rightarrow> 'w loop_state \<Rightarrow> string list
     \<Rightarrow> (enriched \<times> (js_error + unit)) list" where
  "row_attempts svc headers key st [] = []"
| "row_attempts svc headers key st (raw # rest) =
     (if trim raw \<noteq> [] \<and> usable_identity headers (trim raw) then
        [(fst (enrich svc key (row_of_line headers (trim raw)) (world st)),
          fst (putItem svc
                 (FileItem (fst (enrich svc key (row_of_line headers (trim raw)) (world st))))
                 (snd (enrich svc key (row_of_line headers (trim raw)) (world st)))))]
      else [])
     @ row_attempts svc headers key (process_line svc headers key st raw) rest"

definition plus_to_space :: "string \<Rightarrow> string" where
  "plus_to_space s = map (\<lambda>c. if c = CHR ''+'' then CHR '' '' else c) s"

text \<open>
  The rate before \<open>toFixed(2)\<close>, as an exact fraction; \<open>None\<close> is the \<open>NaN\<close> of \<open>0 / 0\<close>
  (a positive count over zero cannot occur: no row is processed when there is none).
\<close>

definition success_rate :: "nat \<Rightarrow> nat \<Rightarrow> rat option" where
  "success_rate processed total_records =
     (if total_records = 0 then None else Some (of_nat processed / of_nat total_records * 100))"

text \<open>
  The start of the handler's outer \<open>try\<close>: the bucket and the key of the first
  record of the event, the object read from the bucket, and its trimmed text split into
  lines. \<open>Inl\<close> is an exception: no first record, a key that does not decode, or an
  object that cannot be read.
\<close>

definition read_lines ::
  "'w services \<Rightarrow> s3_event \<Rightarrow> 'w world
     \<Rightarrow> (js_error + string \<times> string \<times> string list) \<times> 'w world" where
  "read_lines svc event wd =
     (case Records event of
        [] \<Rightarrow> (Inl TypeError, wd)
      | record0 # _ \<Rightarrow>
          (let bucket = bucket_name record0 in
           case decodeURIComponent svc (plus_to_space (object_key record0)) of
             Inl e \<Rightarrow> (Inl e, wd)
           | Inr key \<Rightarrow>
               (case getObject svc bucket key wd of
                  (Inl e, w1) \<Rightarrow> (Inl e, w1)
                | (Inr csvContent, w1) \<Rightarrow>
                    (Inr (bucket, key, split_str (CHR 0x0A) (trim csvContent)), w1))))"

text \<open>
  Steps 6 and 7 of the handler, after the row loop has ended in the state \<open>st\<close>: the
  notification is built and, when a topic is configured, published; then the success
  result is returned. \<open>Inl\<close> is an exception that reaches the outer \<open>catch\<close>, with
  the state at the moment it was thrown: a publish that throws is one.
\<close>

definition notify_and_return ::
  "'w services \<Rightarrow> string option \<Rightarrow> lambda_context \<Rightarrow> string \<Rightarrow> string \<Rightarrow> nat \<Rightarrow> 'w loop_state
     \<Rightarrow> (js_error + batch_result) \<times> 'w world" where
  "notify_and_return svc topicArn ctx bucket key total_records st =
     (let (iso, w2) = toISOString svc (world st);
          notification =
            ProcessingCompleted key bucket (processedCount st) (errorCount st)
              total_records iso (requestId ctx);
          (p, w3) =
            (if env_truthy topicArn then
               publishMessage svc (field_to_string topicArn) notification
                 ''Data Processing Completed''
                 [(''event_type'', JStr ''processing_completed''),
                  (''file_name'', JStr key),
                  (''records_count'', JStr (String_nat (processedCount st)))]
                 w2
             else (Inr (), w2))
      in case p of
           Inl e \<Rightarrow> (Inl e, w3)
         | Inr u \<Rightarrow>
             (Inr \<lparr>statusCode = 200,
                   body = Completed key (processedCount st) (errorCount st) total_records
                            (success_rate (processedCount st) total_records)\<rparr>,
              w3))"

text \<open>
  The body of the handler's outer \<open>try\<close>: the lines are read, the first is the header,
  the others go through the row loop from zeroed counters, and \<open>lines.length - 1\<close> is
  reported as the total.
\<close>

definition dataProcessor_try ::
  "'w services \<Rightarrow> string option \<Rightarrow> s3_event \<Rightarrow> lambda_context \<Rightarrow> 'w world
     \<Rightarrow> (js_error + batch_result) \<times> 'w world" where
  "dataProcessor_try svc topicArn event ctx wd =
     (case read_lines svc event wd of
        (Inl e, w1) \<Rightarrow> (Inl e, w1)
      | (Inr (bucket, key, lines), w1) \<Rightarrow>
          (case lines of
             [] \<Rightarrow> (Inl TypeError, w1)
           | header_line # data_lines \<Rightarrow>
               notify_and_return svc topicArn ctx bucket key (length lines - 1)
                 (process_lines svc (map trim (split_str (CHR '','') header_line)) key
                    \<lparr>records = [], processedCount = 0, errorCount = 0, world = w1\<rparr>
                    data_lines)))"

text \<open>
  The handler: the outer \<open>catch\<close> tries to publish a failure notification, swallows a
  failure of that, and returns the 500 result.
\<close>

definition dataProcessor_handler ::
  "'w services \<Rightarrow> string option \<Rightarrow> s3_event \<Rightarrow> lambda_context \<Rightarrow> 'w world
     \<Rightarrow> batch_result \<times> 'w world" where
  "dataProcessor_handler svc topicArn event ctx wd =
     (case dataProcessor_try svc topicArn event ctx wd of
        (Inr result, w1) \<Rightarrow> (result, w1)
      | (Inl error, w1) \<Rightarrow>
          (let (p, w3) =
                 (if env_truthy topicArn then
                    (let (iso, w2) = toISOString svc w1
                     in publishMessage svc (field_to_string topicArn)
                          (ProcessingFailed error iso) ''Data Processing Failed'' [] w2)
                  else (Inr (), w1))
           in (\<lparr>statusCode = 500, body = Fatal error\<rparr>, w3)))"

section \<open>The API handler (createRecord)\<close>

text \<open>
  The request: \<open>event.httpMethod\<close>, \<open>event.body\<close> and the value of
  \<open>event.requestContext?.identity?.sourceIp\<close>, each any JavaScript value
  (\<open>JUndefined\<close> when missing).
\<close>

record api_event =
  httpMethod :: jsval
  event_body :: jsval
  sourceIp :: jsval

datatype err_message = Text string | MessageOf js_error

datatype api_body =
    Info (i_message: string)
  | Failure (f_error: string) (f_message: err_message)
  | Created (c_message: string) (c_id: jsval) (c_timestamp: int) (c_data: api_item)

record 'b http_response = "'b response" +
  headers :: "(string \<times> string) list"

type_synonym api_response = "api_body http_response"

definition cors_headers :: "(string \<times> string) list" where
  "cors_headers =
     [(''Content-Type'', ''application/json''),
      (''Access-Control-Allow-Origin'', ''*''),
      (''Access-Control-Allow-Methods'', ''POST, OPTIONS''),
      (''Access-Control-Allow-Headers'', ''Content-Type'')]"

definition msg_only_post :: string where
  "msg_only_post = ''Apenas POST '' @ [CHR 0xE9] @ '' permitido''"

definition msg_invalid_json :: string where
  "msg_invalid_json =
     ''Body da requisi'' @ [CHR 0xE7, CHR 0xE3] @ ''o n'' @ [CHR 0xE3] @ ''o '' @ [CHR 0xE9]
       @ '' um JSON v'' @ [CHR 0xE1] @ ''lido''"

definition msg_nome_required :: string where
  "msg_nome_required =
     ''Campo '' @ [CHR 0x22] @ ''nome'' @ [CHR 0x22] @ '' '' @ [CHR 0xE9] @ '' obrigat''
       @ [CHR 0xF3] @ ''rio''"

text \<open>
  Reading a property whose name no built-in prototype defines and that is not an array
  index or \<open>length\<close> (here \<open>nome\<close>, \<open>id\<close>, \<open>categoria\<close>, \<open>preco\<close>, \<open>estoque\<close>): a
  \<open>TypeError\<close> on \<open>undefined\<close> and \<open>null\<close>, the own property of an object,
  \<open>undefined\<close> on everything else. An object is the list of its own properties; the
  first entry of a name is the property.
\<close>

fun get_prop :: "jsval \<Rightarrow> string \<Rightarrow> js_error + jsval" where
  "get_prop JUndefined k = Inl TypeError"
| "get_prop JNull k = Inl TypeError"
| "get_prop (JObj kvs) k = Inr (case map_of kvs k of None \<Rightarrow> JUndefined | Some v \<Rightarrow> v)"
| "get_prop v k = Inr JUndefined"

definition parseFloat_val :: "'w services \<Rightarrow> jsval \<Rightarrow> js_error + jsnum" where
  "parseFloat_val svc v =
     (case value_to_string svc v of Inl e \<Rightarrow> Inl e | Inr s \<Rightarrow> Inr (parseFloat_str s))"

definition parseInt_val :: "'w services \<Rightarrow> jsval \<Rightarrow> js_error + jsnum" where
  "parseInt_val svc v =
     (case value_to_string svc v of Inl e \<Rightarrow> Inl e | Inr s \<Rightarrow> Inr (parseInt_str s))"

text \<open>
  Step 2 of the handler: a string body goes through \<open>JSON.parse\<close>, anything else is
  taken as it is. \<open>None\<close> is the inner \<open>catch\<close>, which answers 400.
\<close>

definition parse_body :: "'w services \<Rightarrow> jsval \<Rightarrow> jsval option" where
  "parse_body svc b =
     (case b of
        JStr s \<Rightarrow> (case JSON_parse svc s of Inl e \<Rightarrow> None | Inr v \<Rightarrow> Some v)
      | _ \<Rightarrow> Some b)"

text \<open>
  Step 4 of the handler, on a body that is neither \<open>undefined\<close> nor \<open>null\<close> (its
  \<open>nome\<close> has been read): the identity, the timestamp and the item, in the order the
  source evaluates them. \<open>uuidv4\<close> is called only when \<open>body.id\<close> is falsy.
\<close>

definition build_item ::
  "'w services \<Rightarrow> api_event \<Rightarrow> lambda_context \<Rightarrow> jsval \<Rightarrow> 'w world
     \<Rightarrow> (js_error + api_item) \<times> 'w world" where
  "build_item svc event ctx b wd =
     (case get_prop b ''id'' of
        Inl e \<Rightarrow> (Inl e, wd)
      | Inr idv \<Rightarrow>
          (let (itemId, w1) =
                 (if truthy idv then (idv, wd)
                  else (let (u, e) = uuidv4 svc (ext wd) in (JStr u, wd\<lparr>ext := e\<rparr>)));
               (ts, w2) = now svc w1
           in case get_prop b ''nome'' of
                Inl e \<Rightarrow> (Inl e, w2)
              | Inr nomev \<Rightarrow>
                  (case get_prop b ''categoria'' of
                     Inl e \<Rightarrow> (Inl e, w2)
                   | Inr catv \<Rightarrow>
                       (case get_prop b ''preco'' of
                          Inl e \<Rightarrow> (Inl e, w2)
                        | Inr precov \<Rightarrow>
                            (case parseFloat_val svc precov of
                               Inl e \<Rightarrow> (Inl e, w2)
                             | Inr pf \<Rightarrow>
                                 (case get_prop b ''estoque'' of
                                    Inl e \<Rightarrow> (Inl e, w2)
                                  | Inr estv \<Rightarrow>
                                      (case parseInt_val svc estv of
                                         Inl e \<Rightarrow> (Inl e, w2)
                                       | Inr pint \<Rightarrow>
                                           (let (iso, w3) = toISOString svc w2
                                            in (Inr \<lparr>api_id = itemId,
                                                      api_timestamp = ts,
                                                      api_nome = nomev,
                                                      api_categoria = js_or catv (JStr ''API''),
                                                      api_preco = num_or pf (Fin 0),
                                                      api_estoque = num_or pint (Fin 0),
                                                      api_source = ''API'',
                                                      created_at = iso,
                                                      created_by =
                                                        js_or (sourceIp event) (JStr ''unknown''),
                                                      request_id = requestId ctx\<rparr>,
                                                w3)))))))))"

text \<open>
  The body of the handler's \<open>try\<close>: \<open>Inl\<close> is an exception that reaches the \<open>catch\<close>.
\<close>

definition createRecord_try ::
  "'w services \<Rightarrow> string option \<Rightarrow> api_event \<Rightarrow> lambda_context \<Rightarrow> 'w world
     \<Rightarrow> (js_error + api_response) \<times> 'w world" where
  "createRecord_try svc topicArn event ctx wd =
     (if httpMethod event \<noteq> JStr ''POST'' then
        (Inr \<lparr>statusCode = 405,
              body = Failure ''Method Not Allowed'' (Text msg_only_post),
              headers = cors_headers\<rparr>, wd)
      else
        (case parse_body svc (event_body event) of
           None \<Rightarrow>
             (Inr \<lparr>statusCode = 400,
                   body = Failure ''Invalid JSON'' (Text msg_invalid_json),
                   headers = cors_headers\<rparr>, wd)
         | Some b \<Rightarrow>
             (case get_prop b ''nome'' of
                Inl e \<Rightarrow> (Inl e, wd)
              | Inr nomev \<Rightarrow>
                  if \<not> truthy nomev then
                    (Inr \<lparr>statusCode = 400,
                          body = Failure ''Validation Error'' (Text msg_nome_required),
                          headers = cors_headers\<rparr>, wd)
                  else
                    (case build_item svc event ctx b wd of
                       (Inl e, w1) \<Rightarrow> (Inl e, w1)
                     | (Inr item, w1) \<Rightarrow>
                         (case putItem svc (ApiItem item) w1 of
                            (Inl e, w2) \<Rightarrow> (Inl e, w2)
                          | (Inr u, w2) \<Rightarrow>
                              (let (p, w3) =
                                     (if env_truthy topicArn then
                                        publishMessage svc (field_to_string topicArn)
                                          (RecordCreated (api_id item) nomev (created_at item))
                                          ''New Record Created via API''
                                          [(''event_type'', JStr ''api_creation''),
                                           (''record_id'', api_id item)]
                                          w2
                                      else (Inr (), w2))
                               in case p of
                                    Inl e \<Rightarrow> (Inl e, w3)
                                  | Inr u' \<Rightarrow>
                                      (Inr \<lparr>statusCode = 201,
                                            body = Created ''Registro criado com sucesso''
                                                     (api_id item) (api_timestamp item) item,
                                            headers = cors_headers\<rparr>, w3)))))))"

text \<open>
  The handler: the preflight answer comes before the \<open>try\<close>; the \<open>catch\<close> answers 500
  with the message of the error.
\<close>

definition createRecord_handler ::
  "'w services \<Rightarrow> string option \<Rightarrow> api_event \<Rightarrow> lambda_context \<Rightarrow> 'w world
     \<Rightarrow> api_response \<times> 'w world" where
  "createRecord_handler svc topicArn event ctx wd =
     (if httpMethod event = JStr ''OPTIONS'' then
        (\<lparr>statusCode = 200, body = Info ''CORS preflight successful'',
          headers = cors_headers\<rparr>, wd)
      else
        (case createRecord_try svc topicArn event ctx wd of
           (Inr resp, w1) \<Rightarrow> (resp, w1)
         | (Inl error, w1) \<Rightarrow>
             (\<lparr>statusCode = 500,
               body = Failure ''Internal Server Error'' (MessageOf error),
               headers = cors_headers\<rparr>, w1)))"

section \<open>A simulated outside world\<close>

text \<open>
  Concrete services, for running the handlers on examples. The hidden state is a
  counter that every reading of the clock and every generated identifier advances. The
  object store holds one CSV text under every key; a put succeeds on the items
  \<open>put_ok\<close> accepts and throws on the others; a publish succeeds when \<open>publish_ok\<close>
  holds and throws otherwise. Keys are decoded as they are (right for a key without
  \<open>%\<close>). \<open>JSON.parse\<close> knows the texts of \<open>json_table\<close> and rejects every other.
  \<open>ToString\<close> is the conversion of the language on the values \<open>JSON.parse\<close> can
  return, written out below.
\<close>

text \<open>
  \<open>String(x)\<close> for a Number: with \<open>k\<close> as small as possible, the digits \<open>s\<close>
  (\<open>k\<close> of them) and the position \<open>n\<close> of the point for which \<open>s * 10 ^ (n - k)\<close>
  is read back as \<open>x\<close>, the nearest to \<open>x\<close> when there are several; then plain
  digits, a decimal fraction or the exponent notation, by the size of \<open>n\<close>.
  Seventeen digits tell any two doubles apart.
\<close>

function decimal_digits :: "int \<Rightarrow> string" where
  "decimal_digits n =
     (if n < 10 then [''0123456789'' ! nat n]
      else decimal_digits (n div 10) @ [''0123456789'' ! nat (n mod 10)])"
  by pat_completeness auto

termination decimal_digits
  by (relation "measure nat") auto

declare decimal_digits.simps [simp del]

definition floor_log10 :: "rat \<Rightarrow> int" where
  "floor_log10 r =
     (if 1 \<le> r then int (length (decimal_digits \<lfloor>r\<rfloor>)) - 1
      else - int (length (decimal_digits (\<lceil>1 / r\<rceil> - 1))))"

definition digit_candidates :: "rat \<Rightarrow> nat \<Rightarrow> (int \<times> int) list" where
  "digit_candidates x k =
     [(n, s). n \<leftarrow> [floor_log10 x + 1, floor_log10 x + 2],
              s \<leftarrow> [\<lfloor>x / pow10 (n - int k)\<rfloor>, \<lfloor>x / pow10 (n - int k)\<rfloor> + 1],
              10 ^ (k - 1) \<le> s \<and> s < 10 ^ k \<and> to_double (of_int s * pow10 (n - int k)) = Fin x]"

definition closer :: "rat \<Rightarrow> nat \<Rightarrow> int \<times> int \<Rightarrow> int \<times> int \<Rightarrow> bool" where
  "closer x k c b =
     (let dc = \<bar>of_int (snd c) * pow10 (fst c - int k) - x\<bar>;
          db = \<bar>of_int (snd b) * pow10 (fst b - int k) - x\<bar>
      in dc < db \<or> (dc = db \<and> even (snd c) \<and> odd (snd b)))"

definition format_digits :: "int \<Rightarrow> nat \<Rightarrow> string \<Rightarrow> string" where
  "format_digits n k ds =
     (if int k \<le> n \<and> n \<le> 21 then ds @ replicate (nat (n - int k)) (CHR ''0'')
      else if 0 < n \<and> n \<le> 21 then take (nat n) ds @ CHR ''.'' # drop (nat n) ds
      else if - 6 < n \<and> n \<le> 0 then ''0.'' @ replicate (nat (- n)) (CHR ''0'') @ ds
      else
        (let es = (if n - 1 < 0 then CHR ''-'' else CHR ''+'') # decimal_digits \<bar>n - 1\<bar>
         in if k = 1 then ds @ CHR ''e'' # es
            else hd ds # CHR ''.'' # tl ds @ CHR ''e'' # es))"

definition positive_to_string :: "rat \<Rightarrow> string" where
  "positive_to_string x =
     (case List.find (\<lambda>k. digit_candidates x k \<noteq> []) [1..<18] of
        None \<Rightarrow> []
      | Some k \<Rightarrow>
          (let cs = digit_candidates x k;
               (n, s) = foldl (\<lambda>b c. if closer x k c b then c else b) (hd cs) (tl cs)
           in format_digits n k (decimal_digits s)))"

definition number_to_string :: "jsnum \<Rightarrow> string" where
  "number_to_string v =
     (case v of
        NaN \<Rightarrow> ''NaN''
      | PosInf \<Rightarrow> ''Infinity''
      | NegInf \<Rightarrow> ''-Infinity''
      | Fin r \<Rightarrow>
          (case to_double \<bar>r\<bar> of
             Fin x \<Rightarrow>
               (if x = 0 then ''0''
                else (if r < 0 then ''-'' else []) @ positive_to_string x)
           | _ \<Rightarrow> (if r < 0 then ''-Infinity'' else ''Infinity'')))"

text \<open>
  \<open>Array.prototype.join\<close> on the converted elements, the first conversion that throws
  ending it.
\<close>

fun join_strings :: "(js_error + string) list \<Rightarrow> js_error + string" where
  "join_strings [] = Inr []"
| "join_strings [x] = x"
| "join_strings (x # y # ys) =
     (case x of
        Inl e \<Rightarrow> Inl e
      | Inr s \<Rightarrow>
          (case join_strings (y # ys) of
             Inl e \<Rightarrow> Inl e
           | Inr t \<Rightarrow> Inr (s @ CHR '','' # t)))"

text \<open>
  \<open>String(v)\<close> on a value that \<open>JSON.parse\<close> returns. An array is the join of its
  elements, \<open>undefined\<close> and \<open>null\<close> counting as empty; an object is
  \<open>[object Object]\<close>, unless it has a property \<open>toString\<close> of its own, which is no
  function, so that the conversion throws a \<open>TypeError\<close>.
\<close>

fun sim_ToString :: "jsval \<Rightarrow> js_error + string" where
  "sim_ToString (JStr s) = Inr s"
| "sim_ToString JUndefined = Inr ''undefined''"
| "sim_ToString JNull = Inr ''null''"
| "sim_ToString (JBool b) = Inr (if b then ''true'' else ''false'')"
| "sim_ToString (JNum n) = Inr (number_to_string n)"
| "sim_ToString (JObj kvs) =
     (if map_of kvs ''toString'' = None then Inr ''[object Object]'' else Inl TypeError)"
| "sim_ToString (JArr xs) =
     join_strings
       (map (\<lambda>x. if x = JUndefined \<or> x = JNull then Inr [] else sim_ToString x) xs)"

definition sim_services ::
  "string \<Rightarrow> (stored \<Rightarrow> bool) \<Rightarrow> bool \<Rightarrow> (string \<times> jsval) list \<Rightarrow> nat services" where
  "sim_services csv put_ok publish_ok json_table =
     \<lparr>date_now = (\<lambda>w. (1700000000000 + int w, Suc w)),
      date_iso = (\<lambda>w. (''2023-11-14T22:13:20.'' @ String_nat w @ ''Z'', Suc w)),
      s3_getObject = (\<lambda>bucket key w. (Inr csv, w)),
      dynamodb_put =
        (\<lambda>item w. (if put_ok item then Inr () else Inl (ServiceError ''put failed''), w)),
      sns_publish =
        (\<lambda>params w. (if publish_ok then Inr () else Inl (ServiceError ''publish failed''), w)),
      uuidv4 = (\<lambda>w. (''uuid-'' @ String_nat w, Suc w)),
      decodeURIComponent = Inr,
      JSON_parse =
        (\<lambda>s. case map_of json_table s of None \<Rightarrow> Inl SyntaxError | Some v \<Rightarrow> Inr v),
      ToString = sim_ToString\<rparr>"

definition sim_world :: "nat world" where
  "sim_world = \<lparr>ext = 0, put_calls = [], put_results = [], publish_calls = []\<rparr>"

definition sim_event :: s3_event where
  "sim_event = \<lparr>Records = [\<lparr>bucket_name = ''data-bucket'', object_key = ''produtos.csv''\<rparr>]\<rparr>"

definition sim_context :: lambda_context where
  "sim_context = \<lparr>requestId = JStr ''req-1''\<rparr>"

definition sim_state :: "nat loop_state" where
  "sim_state = \<lparr>records = [], processedCount = 0, errorCount = 0, world = sim_world\<rparr>"

definition post_event :: "jsval \<Rightarrow> api_event" where
  "post_event b = \<lparr>httpMethod = JStr ''POST'', event_body = b, sourceIp = JStr ''10.0.0.7''\<rparr>"

text \<open>Joining lines with a line feed, as the CSV files are written.\<close>

fun unlines :: "string list \<Rightarrow> string" where
  "unlines [] = []"
| "unlines [l] = l"
| "unlines (l # ls) = l @ CHR 0x0A # unlines ls"

text \<open>
  Example inputs: a file of three rows, a file with a blank line before its only row, a
  file whose row has negative numbers, a store that refuses one identity, a topic, a
  second file of three rows, and a file whose row has a price that starts with digits
  and goes on with letters.
\<close>

definition csv_three_rows :: string where
  "csv_three_rows =
     unlines [''id,nome,preco'', ''1,Caneta,2.50'', ''2,Lapis,1.20'', ''3,Borracha,0.80'']"

definition csv_blank_line :: string where
  "csv_blank_line = unlines [''id,nome'', '''', ''1,Caneta'']"

definition csv_negative :: string where
  "csv_negative = unlines [''id,nome,preco,estoque'', ''1,Caneta,-5,-3'']"

definition put_ok_except :: "string \<Rightarrow> stored \<Rightarrow> bool" where
  "put_ok_except bad item =
     (case item of FileItem e \<Rightarrow> item_id e \<noteq> bad | ApiItem a \<Rightarrow> True)"

definition sim_topic :: "string option" where
  "sim_topic = Some ''arn:aws:sns:us-east-1:000000000000:data-processing''"

definition csv_put_failure :: string where
  "csv_put_failure =
     unlines [''id,nome,estoque'', ''1,Caneta,10'', ''2,Lapis,20'', ''3,Borracha,30'']"


text \<open>Example request bodies, and what \<open>JSON.parse\<close> makes of them.\<close>

definition json_widget :: string where
  \<open>json_widget = ''{"nome":"Widget"}''\<close>

definition json_no_nome :: string where
  \<open>json_no_nome = ''{"categoria":"Papelaria"}''\<close>

definition json_caderno :: string where
  \<open>json_caderno = ''{"nome":"Caderno","estoque":"40"}''\<close>

definition json_caderno_table :: "(string \<times> jsval) list" where
  "json_caderno_table =
     [(json_caderno, JObj [(''nome'', JStr ''Caderno''), (''estoque'', JStr ''40'')])]"

definition sim_json_table :: "(string \<times> jsval) list" where
  "sim_json_table =
     [(json_widget, JObj [(''nome'', JStr ''Widget'')]),
      (json_no_nome, JObj [(''categoria'', JStr ''Papelaria'')])]"

section \<open>Rounding to a double\<close>

lemma round_half_even_of_int: "round_half_even (of_int k) = k"
  by (simp add: round_half_even_def)

lemma round_half_even_ge_floor: "\<lfloor>x\<rfloor> \<le> round_half_even x"
  by (simp add: round_half_even_def Let_def)


lemma scaled_exact:
  assumes "q \<le> 0"
  shows "of_int (round_half_even (of_int k / pow2 q)) * pow2 q = (of_int k :: rat)"
proof -
  from assms have p: "pow2 q = 1 / 2 ^ nat (- q)" by (simp add: pow2_def)
  have "(of_int k :: rat) / pow2 q = of_int (k * 2 ^ nat (- q))"
    by (simp add: p)
  then have "round_half_even (of_int k / pow2 q) = k * 2 ^ nat (- q)"
    by (simp only: round_half_even_of_int)
  then show ?thesis by (simp add: p)
qed

lemma nearest_of_int: "\<exists>m::int. nearest (of_int k) = of_int m"
proof -
  define q where "q = max (floor_log2 (of_int k)) (- 1022) - 52"
  have n: "nearest (of_int k) = of_int (round_half_even (of_int k / pow2 q)) * pow2 q"
    by (simp add: nearest_def q_def Let_def)
  show ?thesis
  proof (cases "q \<le> 0")
    case True
    then have "nearest (of_int k) = of_int k" by (simp only: n scaled_exact)
    then show ?thesis ..
  next
    case False
    then have "nearest (of_int k) = of_int (round_half_even (of_int k / pow2 q) * 2 ^ nat q)"
      by (simp add: n pow2_def)
    then show ?thesis ..
  qed
qed

lemma to_double_of_int:
  "to_double (of_int n) = PosInf \<or> to_double (of_int n) = NegInf
     \<or> (\<exists>m::int. to_double (of_int n) = Fin (of_int m))"
proof (cases "n = 0")
  case True
  then have "to_double (of_int n) = Fin (of_int 0)" by (simp add: to_double_def)
  then show ?thesis by blast
next
  case False
  have a: "\<bar>of_int n :: rat\<bar> = of_int \<bar>n\<bar>" by simp
  obtain m :: int where m: "nearest (of_int \<bar>n\<bar>) = of_int m"
    using nearest_of_int by blast
  have td: "to_double (of_int n) =
      (if pow2 1024 \<le> of_int m then (if n < 0 then NegInf else PosInf)
       else Fin (if n < 0 then of_int (- m) else of_int m))"
    unfolding to_double_def Let_def a m using False by simp
  show ?thesis
  proof (cases "pow2 1024 \<le> (of_int m :: rat)")
    case True
    with td show ?thesis by simp
  next
    case nov: False
    show ?thesis
    proof (cases "n < 0")
      case True
      with td nov have "to_double (of_int n) = Fin (of_int (- m))" by simp
      then show ?thesis by blast
    next
      case False
      with td nov have "to_double (of_int n) = Fin (of_int m)" by simp
      then show ?thesis by blast
    qed
  qed
qed

lemma floor_log2_small:
  assumes one: "1 \<le> k" and small: "k < 2 ^ 53"
  shows "floor_log2 (of_int k) \<le> 52"
proof -
  have pos: "0 < k" using one by simp
  from bitlen_bounds [OF pos] have lo: "(2::int) ^ nat (bitlen k - 1) \<le> k" ..
  have lt: "(2::int) ^ nat (bitlen k - 1) < 2 ^ 53"
    by (rule order.strict_trans1 [OF lo small])
  have "nat (bitlen k - 1) < 53"
    by (rule power_less_imp_less_exp [OF _ lt]) simp
  then have "bitlen k - 1 \<le> 52" by simp
  moreover have "floor_log2 (of_int k) = bitlen k - 1"
    using one by (simp add: floor_log2_def)
  ultimately show ?thesis by simp
qed

lemma to_double_exact_int:
  assumes small: "\<bar>n\<bar> < 2 ^ 53"
  shows "to_double (of_int n) = Fin (of_int n)"
proof (cases "n = 0")
  case True
  then show ?thesis by (simp add: to_double_def)
next
  case False
  have a: "\<bar>of_int n :: rat\<bar> = of_int \<bar>n\<bar>" by simp
  have one: "1 \<le> \<bar>n\<bar>" using False by simp
  have "floor_log2 (of_int \<bar>n\<bar>) \<le> 52"
    by (rule floor_log2_small [OF one small])
  then have q0: "max (floor_log2 (of_int \<bar>n\<bar>)) (- 1022) - 52 \<le> 0" by simp
  have v: "nearest (of_int \<bar>n\<bar>) = of_int \<bar>n\<bar>"
    unfolding nearest_def Let_def by (rule scaled_exact [OF q0])
  have "(of_int \<bar>n\<bar> :: rat) < of_int (2 ^ 53)"
    using small by (simp only: of_int_less_iff)
  also have "\<dots> \<le> pow2 1024" by (simp add: pow2_def)
  finally have fits: "\<not> pow2 1024 \<le> (of_int \<bar>n\<bar> :: rat)" by simp
  show ?thesis
    unfolding to_double_def Let_def a v
    using False fits by (cases "n < 0") simp_all
qed

lemma to_double_overflow:
  assumes big: "pow2 1024 \<le> r"
  shows "to_double r = PosInf"
proof -
  have p1024: "pow2 1024 = 2 ^ 1024" unfolding pow2_def by (simp only: nat_numeral) simp
  have big': "(2::rat) ^ 1024 \<le> r" using big by (simp only: p1024)
  have "(0::rat) < 2 ^ 1024" by (rule zero_less_power) simp
  then have rpos: "0 < r" using big' by (rule order.strict_trans2)
  have "(1::rat) \<le> 2 ^ 1024" by (rule one_le_power) simp
  then have r1: "1 \<le> r" using big' by (rule order.trans)
  define k where "k = \<lfloor>r\<rfloor>"
  have "(of_int (2 ^ 1024) :: rat) \<le> r" using big' by (simp only: of_int_power of_int_numeral)
  then have kbig: "2 ^ 1024 \<le> k"
    unfolding k_def by (simp only: le_floor_iff)
  have "(0::int) < 2 ^ 1024" by (rule zero_less_power) simp
  then have kpos: "0 < k" using kbig by (rule order.strict_trans2)
  define e where "e = bitlen k - 1"
  have fl: "floor_log2 r = e"
    using r1 by (simp add: floor_log2_def e_def k_def)
  have e0: "0 \<le> e" using kpos by (simp add: e_def bitlen_alt_def)
  from bitlen_bounds [OF kpos] have lo: "2 ^ nat e \<le> k" and hi: "k < 2 ^ nat (e + 1)"
    by (simp_all add: e_def)
  have "(2::int) ^ 1024 < 2 ^ nat (e + 1)" by (rule order.strict_trans1 [OF kbig hi])
  then have "1024 < nat (e + 1)" by (rule power_less_imp_less_exp [rotated]) simp
  then have e1024: "1024 \<le> e" by simp
  define q where "q = e - 52"
  have qeq: "max (floor_log2 r) (- 1022) - 52 = q"
    using e1024 by (simp add: fl q_def)
  have qpos: "0 \<le> q" using e1024 by (simp add: q_def)
  have p: "pow2 q = 2 ^ nat q" using qpos by (simp add: pow2_def)
  have split: "nat e = 52 + nat q" using e1024 by (simp add: q_def)
  have "(of_int (2 ^ nat e) :: rat) \<le> of_int k"
    using lo by (simp only: of_int_le_iff)
  then have "(2::rat) ^ nat e \<le> of_int k" by (simp only: of_int_power of_int_numeral)
  also have "\<dots> \<le> r" by (simp add: k_def)
  finally have "(2::rat) ^ 52 * 2 ^ nat q \<le> r" by (simp only: split power_add)
  then have "(2::rat) ^ 52 \<le> r / 2 ^ nat q"
    by (simp only: pos_le_divide_eq zero_less_power zero_less_numeral)
  then have "(of_int (2 ^ 52) :: rat) \<le> r / pow2 q" by (simp only: p of_int_power of_int_numeral)
  then have "(2::int) ^ 52 \<le> \<lfloor>r / pow2 q\<rfloor>"
    by (simp only: le_floor_iff)
  also have "\<dots> \<le> round_half_even (r / pow2 q)" by (rule round_half_even_ge_floor)
  finally have "(of_int (2 ^ 52) :: rat) \<le> of_int (round_half_even (r / pow2 q))"
    by (simp only: of_int_le_iff)
  then have "(2::rat) ^ 52 \<le> of_int (round_half_even (r / pow2 q))"
    by (simp only: of_int_power of_int_numeral)
  then have "(2::rat) ^ 52 * 2 ^ nat q \<le> of_int (round_half_even (r / pow2 q)) * 2 ^ nat q"
    by (rule mult_right_mono) simp
  then have ge: "(2::rat) ^ nat e \<le> nearest r"
    by (simp only: split power_add nearest_def Let_def qeq p)
  have "(2::rat) ^ 1024 \<le> 2 ^ nat e"
    by (rule power_increasing) (use e1024 in simp_all)
  then have v: "pow2 1024 \<le> nearest r"
    using ge unfolding p1024 by (rule order.trans)
  have ar: "\<bar>r\<bar> = r" using rpos by simp
  show ?thesis
    unfolding to_double_def Let_def ar using rpos v by simp
qed

lemma to_double_of_nat:
  "to_double (of_nat k) = PosInf \<or> to_double (of_nat k) = NegInf
     \<or> (\<exists>m::int. to_double (of_nat k) = Fin (of_int m))"
  using to_double_of_int [of "int k"] by simp

lemma to_double_neg_of_nat:
  "to_double (- of_nat k) = PosInf \<or> to_double (- of_nat k) = NegInf
     \<or> (\<exists>m::int. to_double (- of_nat k) = Fin (of_int m))"
  using to_double_of_int [of "- int k"] by simp

lemma to_double_exact_nat:
  assumes "k < 2 ^ 53"
  shows "to_double (of_nat k) = Fin (of_nat k)"
    and "to_double (- of_nat k) = Fin (- of_nat k)"
proof -
  have "int k < 2 ^ 53" using assms by (metis of_nat_less_iff of_nat_numeral of_nat_power)
  then have a: "\<bar>int k\<bar> < 2 ^ 53" and b: "\<bar>- int k\<bar> < 2 ^ 53" by simp_all
  show "to_double (of_nat k) = Fin (of_nat k)"
    using to_double_exact_int [OF a] by simp
  show "to_double (- of_nat k) = Fin (- of_nat k)"
    using to_double_exact_int [OF b] by simp
qed

section \<open>Properties of parseFloat and parseInt\<close>

lemma takeWhile_no_digit:
  "\<forall>c \<in> set s. \<not> is_digit c \<Longrightarrow> takeWhile is_digit s = []"
  by (cases s) simp_all

lemma set_strip_sign: "set (snd (strip_sign s)) \<subseteq> set s"
  by (cases s) auto




lemma num_or_zero:
  "num_or x (Fin 0) \<noteq> NaN"
  "x = NaN \<Longrightarrow> num_or x (Fin 0) = Fin 0"
  by (cases x; simp add: num_or_def)+

text \<open>\<open>parseInt\<close> gives \<open>NaN\<close>, an infinity or an integer.\<close>

lemma parseInt_str_integer:
  "parseInt_str s = NaN \<or> parseInt_str s = PosInf \<or> parseInt_str s = NegInf
     \<or> (\<exists>n::int. parseInt_str s = Fin (of_int n))"
proof -
  obtain neg u where su: "strip_sign (trimStart s) = (neg, u)"
    by (cases "strip_sign (trimStart s)")
  show ?thesis
    using to_double_of_nat to_double_neg_of_nat
    by (simp add: parseInt_str_def su Let_def)
qed

lemma stock_integer:
  "num_or (parseInt_str s) (Fin 0) \<noteq> NaN"
  "num_or (parseInt_str s) (Fin 0) = PosInf \<or> num_or (parseInt_str s) (Fin 0) = NegInf
     \<or> (\<exists>n::int. num_or (parseInt_str s) (Fin 0) = Fin (of_int n))"
proof -
  show "num_or (parseInt_str s) (Fin 0) \<noteq> NaN" by (rule num_or_zero(1))
  have zero: "\<exists>n::int. Fin 0 = Fin (of_int n)"
    by (rule exI [of _ 0]) simp
  from parseInt_str_integer [of s]
  consider "parseInt_str s = NaN" | "parseInt_str s = PosInf" | "parseInt_str s = NegInf"
    | n :: int where "parseInt_str s = Fin (of_int n)" by blast
  then show "num_or (parseInt_str s) (Fin 0) = PosInf \<or> num_or (parseInt_str s) (Fin 0) = NegInf
     \<or> (\<exists>n::int. num_or (parseInt_str s) (Fin 0) = Fin (of_int n))"
  proof cases
    case 1
    with zero show ?thesis by (simp add: num_or_def)
  next
    case 2
    then show ?thesis by (simp add: num_or_def)
  next
    case 3
    then show ?thesis by (simp add: num_or_def)
  next
    case (4 n)
    show ?thesis
    proof (cases "n = 0")
      case True
      with 4 zero show ?thesis by (simp add: num_or_def)
    next
      case False
      with 4 have "num_or (parseInt_str s) (Fin 0) = Fin (of_int n)"
        by (simp add: num_or_def)
      then show ?thesis by blast
    qed
  qed
qed

lemma absent_field_NaN:
  "parseFloat None = NaN"
  "parseInt None = NaN"
  by (simp_all add: parseFloat_def parseInt_def field_to_string_def parseFloat_str_def
        parseInt_str_def trimStart_def is_ws_def is_digit_def)

lemma absent_value_NaN:
  "parseFloat_val svc JUndefined = Inr NaN"
  "parseInt_val svc JUndefined = Inr NaN"
  by (simp_all add: parseFloat_val_def parseInt_val_def parseFloat_str_def
        parseInt_str_def trimStart_def is_ws_def is_digit_def)

text \<open>
  A run of 309 digits is beyond the range of a double: \<open>parseInt\<close> reads it as
  \<open>Infinity\<close>, which is truthy, so that \<open>parseInt(x) || 0\<close> is \<open>Infinity\<close>.
\<close>

lemma digits_val_snoc: "digits_val (ds @ [c]) = 10 * digits_val ds + digit_val c"
  by (simp add: digits_val_def)

lemma digits_val_nines: "digits_val (replicate n (CHR ''9'')) + 1 = 10 ^ n"
proof (induction n)
  case 0
  show ?case by (simp add: digits_val_def)
next
  case (Suc n)
  have "replicate (Suc n) (CHR ''9'') = replicate n (CHR ''9'') @ [CHR ''9'']"
    by (simp add: replicate_append_same)
  then have "digits_val (replicate (Suc n) (CHR ''9'')) = 10 * digits_val (replicate n (CHR ''9'')) + 9"
    by (simp only: digits_val_snoc) (simp add: digit_val_def)
  with Suc show ?case by simp
qed

lemma parseInt_str_digit_run:
  assumes ne: "ds \<noteq> []" and dig: "\<forall>c \<in> set ds. is_digit c"
  shows "parseInt_str ds = to_double (of_nat (digits_val ds))"
proof -
  obtain d ds' where ds: "ds = d # ds'" using ne by (cases ds) auto
  with dig have d: "is_digit d" by simp
  then have nws: "\<not> is_ws d" and nsign: "d \<noteq> CHR ''-''" "d \<noteq> CHR ''+''"
    by (auto simp add: is_digit_def is_ws_def)
  have ts: "trimStart ds = ds"
    using nws by (simp add: trimStart_def ds)
  have ss: "strip_sign ds = (False, ds)"
    using nsign by (simp add: ds)
  have nx: "\<not> (take 2 ds = ''0x'' \<or> take 2 ds = ''0X'')"
  proof (cases ds')
    case Nil
    then show ?thesis by (simp add: ds)
  next
    case (Cons e es)
    with dig ds have "is_digit e" by simp
    then have "e \<noteq> CHR ''x''" "e \<noteq> CHR ''X''" by (auto simp add: is_digit_def)
    with Cons show ?thesis by (simp add: ds)
  qed
  have tw: "takeWhile is_digit ds = ds"
    using dig by (simp add: takeWhile_eq_all_conv)
  show ?thesis
    using ne unfolding parseInt_str_def ts ss Let_def prod.case tw
    by (simp only: nx if_False simp_thms)
qed

lemma parseInt_str_overflow: "parseInt_str (replicate 309 (CHR ''9'')) = PosInf"
proof -
  let ?z = "replicate 309 (CHR ''9'')"
  have ne: "?z \<noteq> []" by simp
  have dig: "\<forall>c \<in> set ?z. is_digit c" by (simp add: is_digit_def)
  have "(10::nat) ^ 309 = digits_val ?z + 1" by (rule digits_val_nines [symmetric])
  then have "(of_nat (digits_val ?z) :: rat) + 1 = 10 ^ 309"
    by (metis of_nat_1 of_nat_add of_nat_numeral of_nat_power)
  then have v: "(of_nat (digits_val ?z) :: rat) = 10 ^ 309 - 1" by simp
  have "pow2 1024 \<le> (10::rat) ^ 309 - 1" by (simp add: pow2_def)
  then have "pow2 1024 \<le> (of_nat (digits_val ?z) :: rat)" by (simp only: v)
  then have "to_double (of_nat (digits_val ?z)) = PosInf" by (rule to_double_overflow)
  then show ?thesis by (simp only: parseInt_str_digit_run [OF ne dig])
qed

section \<open>Properties of the row loop\<close>

lemma process_line_blank:
  "trim raw = [] \<Longrightarrow> process_line svc hdrs key st raw = st"
  by (simp add: process_line_def)

lemma process_line_rejected:
  "trim raw \<noteq> [] \<Longrightarrow>
   \<not> (field_truthy (row_of_line hdrs (trim raw) ''id'') \<and>
      field_truthy (row_of_line hdrs (trim raw) ''nome'')) \<Longrightarrow>
   process_line svc hdrs key st raw = st\<lparr>errorCount := errorCount st + 1\<rparr>"
  by (auto simp add: process_line_def Let_def)

lemma process_line_accepted:
  assumes "trim raw \<noteq> []"
    and "field_truthy (row_of_line hdrs (trim raw) ''id'')"
    and "field_truthy (row_of_line hdrs (trim raw) ''nome'')"
    and "enrich svc key (row_of_line hdrs (trim raw)) (world st) = (e, w2)"
    and "putItem svc (FileItem e) w2 = (r, w3)"
  shows "process_line svc hdrs key st raw =
     (case r of
        Inl err \<Rightarrow> st\<lparr>errorCount := errorCount st + 1, world := w3\<rparr>
      | Inr u \<Rightarrow> st\<lparr>records := records st @ [e],
                    processedCount := processedCount st + 1, world := w3\<rparr>)"
  using assms by (simp add: process_line_def Let_def)

lemma process_line_counts:
  "processedCount (process_line svc hdrs key st raw) + errorCount (process_line svc hdrs key st raw)
     = processedCount st + errorCount st + (if trim raw = [] then 0 else 1)"
  by (simp add: process_line_def Let_def split: prod.splits sum.splits)

lemma process_lines_Nil: "process_lines svc hdrs key st [] = st"
  by (simp add: process_lines_def)

lemma process_lines_Cons:
  "process_lines svc hdrs key st (l # ls) =
     process_lines svc hdrs key (process_line svc hdrs key st l) ls"
  by (simp add: process_lines_def)

lemma process_lines_append:
  "process_lines svc hdrs key st (xs @ ys) =
     process_lines svc hdrs key (process_lines svc hdrs key st xs) ys"
  by (simp add: process_lines_def)

lemma process_lines_counts:
  "processedCount (process_lines svc hdrs key st ls) + errorCount (process_lines svc hdrs key st ls)
     = processedCount st + errorCount st + length (filter (\<lambda>l. trim l \<noteq> []) ls)"
proof (induction ls arbitrary: st)
  case Nil
  show ?case by (simp add: process_lines_Nil)
next
  case (Cons l ls)
  show ?case
    by (simp add: process_lines_Cons Cons.IH process_line_counts)
qed

lemma process_lines_skip_blank:
  "process_lines svc hdrs key st (filter (\<lambda>l. trim l \<noteq> []) ls) = process_lines svc hdrs key st ls"
  by (induction ls arbitrary: st) (simp_all add: process_lines_Nil process_lines_Cons process_line_blank)

lemma errorCount_mono_line:
  "errorCount st \<le> errorCount (process_line svc hdrs key st raw)"
  by (simp add: process_line_def Let_def split: prod.splits sum.splits)

lemma errorCount_mono:
  "errorCount st \<le> errorCount (process_lines svc hdrs key st ls)"
proof (induction ls arbitrary: st)
  case Nil
  show ?case by (simp add: process_lines_Nil)
next
  case (Cons l ls)
  have "errorCount st \<le> errorCount (process_line svc hdrs key st l)"
    by (rule errorCount_mono_line)
  also have "\<dots> \<le> errorCount (process_lines svc hdrs key (process_line svc hdrs key st l) ls)"
    by (rule Cons.IH)
  finally show ?case by (simp add: process_lines_Cons)
qed

lemma publishMessage_ok:
  assumes "\<forall>p w. fst (sns_publish svc p w) = Inr ()"
    and "message_attributes svc attrs = Inr as"
  shows "fst (publishMessage svc t m s attrs wd) = Inr ()"
proof -
  obtain r e where r: "sns_publish svc \<lparr>TopicArn = t, Message = m, Subject = s,
                       MessageAttributes = as\<rparr> (ext wd) = (r, e)"
    by (cases "sns_publish svc \<lparr>TopicArn = t, Message = m, Subject = s,
                       MessageAttributes = as\<rparr> (ext wd)")
  from assms(1) have "fst (sns_publish svc \<lparr>TopicArn = t, Message = m, Subject = s,
                       MessageAttributes = as\<rparr> (ext wd)) = Inr ()" by blast
  with r have "r = Inr ()" by simp
  with r assms(2) show ?thesis by (simp add: publishMessage_def)
qed

lemma dataProcessor_try_completed:
  assumes rd: "read_lines svc event wd = (Inr (bucket, key, header # rows), w1)"
    and pub: "env_truthy topicArn \<longrightarrow> (\<forall>p w. fst (sns_publish svc p w) = Inr ())"
    and st: "st = process_lines svc (map trim (split_str (CHR '','') header)) key
               \<lparr>records = [], processedCount = 0, errorCount = 0, world = w1\<rparr> rows"
  shows "fst (dataProcessor_try svc topicArn event ctx wd) =
     Inr \<lparr>statusCode = 200,
          body = Completed key (processedCount st) (errorCount st) (length rows)
            (success_rate (processedCount st) (length rows))\<rparr>"
proof -
  obtain iso w2 where iso: "toISOString svc (world st) = (iso, w2)"
    by (cases "toISOString svc (world st)")
  define attrs where "attrs = [(''event_type'', JStr ''processing_completed''),
            (''file_name'', JStr key),
            (''records_count'', JStr (String_nat (processedCount st)))]"
  define pm where "pm = publishMessage svc (field_to_string topicArn)
      (ProcessingCompleted key bucket (processedCount st) (errorCount st) (length rows) iso
         (requestId ctx)) ''Data Processing Completed'' attrs w2"
  obtain p w3 where p: "(if env_truthy topicArn then pm else (Inr (), w2)) = (p, w3)"
    by (cases "if env_truthy topicArn then pm else (Inr (), w2)")
  have "p = Inr ()"
  proof (cases "env_truthy topicArn")
    case False
    with p show ?thesis by simp
  next
    case True
    with pub have ok: "\<forall>p w. fst (sns_publish svc p w) = Inr ()" by simp
    have "fst pm = Inr ()"
      unfolding pm_def by (rule publishMessage_ok [OF ok]) (simp add: attrs_def)
    with p True show ?thesis by simp
  qed
  with p have p': "(if env_truthy topicArn then pm else (Inr (), w2)) = (Inr (), w3)" by simp
  have "dataProcessor_try svc topicArn event ctx wd =
      (Inr \<lparr>statusCode = 200,
          body = Completed key (processedCount st) (errorCount st) (length rows)
            (success_rate (processedCount st) (length rows))\<rparr>, w3)"
    using iso p'
    unfolding dataProcessor_try_def notify_and_return_def rd Let_def pm_def attrs_def st
    by (simp only: prod.case sum.case list.case length_Cons diff_Suc_1)
  then show ?thesis by simp
qed

lemma dataProcessor_handler_Inr:
  "fst (dataProcessor_try svc topicArn event ctx wd) = Inr res \<Longrightarrow>
   fst (dataProcessor_handler svc topicArn event ctx wd) = res"
  by (cases "dataProcessor_try svc topicArn event ctx wd")
     (simp add: dataProcessor_handler_def)

section \<open>The batch path: validation, enrichment and fault isolation\<close>

text \<open>
  C5. A data row (a line that is not blank) in which both the \<open>id\<close> field and the
  \<open>nome\<close> field are missing or empty is rejected: the failure count goes up by one,
  nothing else of the loop state changes, so the Store Gateway is not called for the row,
  and the loop goes on with the next row. (The code rejects the row already when one of
  the two is missing, see \<open>process_line_rejected\<close>.)
\<close>

theorem missing_identity_rejected:
  assumes "trim raw \<noteq> []"
    and "\<not> field_truthy (row_of_line hdrs (trim raw) ''id'')"
    and "\<not> field_truthy (row_of_line hdrs (trim raw) ''nome'')"
  shows "process_line svc hdrs key st raw = st\<lparr>errorCount := errorCount st + 1\<rparr>
       \<and> put_calls (world (process_line svc hdrs key st raw)) = put_calls (world st)
       \<and> process_lines svc hdrs key st (raw # rest) =
           process_lines svc hdrs key (st\<lparr>errorCount := errorCount st + 1\<rparr>) rest"
proof -
  have step: "process_line svc hdrs key st raw = st\<lparr>errorCount := errorCount st + 1\<rparr>"
    using assms by (simp add: process_line_rejected)
  then show ?thesis by (simp add: process_lines_Cons)
qed

theorem missing_identity_rejected_witness:
  "trim '' ,,9.50'' \<noteq> []
   \<and> row_of_line [''id'', ''nome'', ''preco''] (trim '' ,,9.50'') ''id'' = Some []
   \<and> row_of_line [''id'', ''nome'', ''preco''] (trim '' ,,9.50'') ''nome'' = Some []
   \<and> process_line (sim_services [] (\<lambda>i. True) True []) [''id'', ''nome'', ''preco''] ''produtos.csv''
         sim_state '' ,,9.50'' = sim_state\<lparr>errorCount := 1\<rparr>
   \<and> put_calls (world (process_line (sim_services [] (\<lambda>i. True) True [])
         [''id'', ''nome'', ''preco''] ''produtos.csv'' sim_state '' ,,9.50'')) = []
   \<and> process_lines (sim_services [] (\<lambda>i. True) True []) [''id'', ''nome'', ''preco''] ''produtos.csv''
         sim_state ['' ,,9.50'', ''7,Caderno,12''] =
       process_lines (sim_services [] (\<lambda>i. True) True []) [''id'', ''nome'', ''preco''] ''produtos.csv''
         (sim_state\<lparr>errorCount := 1\<rparr>) [''7,Caderno,12'']"
proof -
  have h1: "trim '' ,,9.50'' \<noteq> []" by code_simp
  have r1: "row_of_line [''id'', ''nome'', ''preco''] (trim '' ,,9.50'') ''id'' = Some []"
    by code_simp
  have r2: "row_of_line [''id'', ''nome'', ''preco''] (trim '' ,,9.50'') ''nome'' = Some []"
    by code_simp
  have h2: "\<not> field_truthy (row_of_line [''id'', ''nome'', ''preco''] (trim '' ,,9.50'') ''id'')"
    by (simp add: r1 field_truthy_def)
  have h3: "\<not> field_truthy (row_of_line [''id'', ''nome'', ''preco''] (trim '' ,,9.50'') ''nome'')"
    by (simp add: r2 field_truthy_def)
  have w: "put_calls (world sim_state) = []" "errorCount sim_state + 1 = 1"
    by (simp_all add: sim_state_def sim_world_def)
  show ?thesis
    using missing_identity_rejected [OF h1 h2 h3, of "sim_services [] (\<lambda>i. True) True []"
        "''produtos.csv''" sim_state "[''7,Caderno,12'']"] h1 r1 r2
    unfolding w by blast
qed

section \<open>What the loop hands to the Store Gateway\<close>

lemma toISOString_calls:
  "put_calls (snd (toISOString svc wd)) = put_calls wd"
  "put_results (snd (toISOString svc wd)) = put_results wd"
  "publish_calls (snd (toISOString svc wd)) = publish_calls wd"
  by (simp_all add: toISOString_def split: prod.splits)

lemma now_calls:
  "put_calls (snd (now svc wd)) = put_calls wd"
  "put_results (snd (now svc wd)) = put_results wd"
  "publish_calls (snd (now svc wd)) = publish_calls wd"
  by (simp_all add: now_def split: prod.splits)

lemma enrich_fields:
  "item_id (fst (enrich svc key row wd)) = field_to_string (row ''id'')"
  "nome (fst (enrich svc key row wd)) = field_to_string (row ''nome'')"
  "preco (fst (enrich svc key row wd)) = num_or (parseFloat (row ''preco'')) (Fin 0)"
  "estoque (fst (enrich svc key row wd)) = num_or (parseInt (row ''estoque'')) (Fin 0)"
  "source_file (fst (enrich svc key row wd)) = key"
  by (simp_all add: enrich_def Let_def split: prod.splits)

lemma enrich_put_calls:
  "put_calls (snd (enrich svc key row wd)) = put_calls wd"
  "put_results (snd (enrich svc key row wd)) = put_results wd"
  "publish_calls (snd (enrich svc key row wd)) = publish_calls wd"
  by (simp_all add: enrich_def now_def toISOString_def Let_def split: prod.splits)

lemma putItem_put_calls:
  "put_calls (snd (putItem svc item wd)) = put_calls wd @ [item]"
  "put_results (snd (putItem svc item wd)) = put_results wd @ [fst (putItem svc item wd)]"
  "publish_calls (snd (putItem svc item wd)) = publish_calls wd"
  by (simp_all add: putItem_def Let_def split: prod.splits)

lemma putItem_answer:
  "fst (putItem svc item wd) = fst (dynamodb_put svc item (ext wd))"
  by (simp add: putItem_def Let_def split: prod.splits)

lemma row_attempts_Cons:
  "row_attempts svc hdrs key st (raw # rest) =
     row_attempts svc hdrs key st [raw] @
     row_attempts svc hdrs key (process_line svc hdrs key st raw) rest"
  by simp

text \<open>
  One turn of the loop: the line is blank, or it is rejected by the validation, or it is
  enriched and put, and the answer of the put decides how it is counted.
\<close>

lemma process_line_turn:
  obtains (blank) "trim raw = []"
      "row_attempts svc hdrs key st [raw] = []"
      "process_line svc hdrs key st raw = st"
  | (rejected) "trim raw \<noteq> []" "\<not> usable_identity hdrs (trim raw)"
      "row_attempts svc hdrs key st [raw] = []"
      "process_line svc hdrs key st raw = st\<lparr>errorCount := errorCount st + 1\<rparr>"
  | (persisted) e w3 where "trim raw \<noteq> []" "usable_identity hdrs (trim raw)"
      "row_attempts svc hdrs key st [raw] = [(e, Inr ())]"
      "process_line svc hdrs key st raw =
         st\<lparr>records := records st @ [e], processedCount := processedCount st + 1, world := w3\<rparr>"
      "put_calls w3 = put_calls (world st) @ [FileItem e]"
      "put_results w3 = put_results (world st) @ [Inr ()]"
      "publish_calls w3 = publish_calls (world st)"
  | (failed) e err w3 where "trim raw \<noteq> []" "usable_identity hdrs (trim raw)"
      "row_attempts svc hdrs key st [raw] = [(e, Inl err)]"
      "process_line svc hdrs key st raw = st\<lparr>errorCount := errorCount st + 1, world := w3\<rparr>"
      "put_calls w3 = put_calls (world st) @ [FileItem e]"
      "put_results w3 = put_results (world st) @ [Inl err]"
      "publish_calls w3 = publish_calls (world st)"
proof (cases "trim raw = []")
  case True
  then show ?thesis
    by (intro blank) (simp_all add: process_line_blank)
next
  case nb: False
  show ?thesis
  proof (cases "usable_identity hdrs (trim raw)")
    case False
    then have "\<not> (field_truthy (row_of_line hdrs (trim raw) ''id'') \<and>
                  field_truthy (row_of_line hdrs (trim raw) ''nome''))"
      by (simp add: usable_identity_def)
    from process_line_rejected [OF nb this] nb False show ?thesis
      by (intro rejected) simp_all
  next
    case True
    then have idv: "field_truthy (row_of_line hdrs (trim raw) ''id'')"
      and nm: "field_truthy (row_of_line hdrs (trim raw) ''nome'')"
      by (simp_all add: usable_identity_def)
    let ?en = "enrich svc key (row_of_line hdrs (trim raw)) (world st)"
    let ?pt = "putItem svc (FileItem (fst ?en)) (snd ?en)"
    have step: "process_line svc hdrs key st raw =
       (case fst ?pt of
          Inl err \<Rightarrow> st\<lparr>errorCount := errorCount st + 1, world := snd ?pt\<rparr>
        | Inr u \<Rightarrow> st\<lparr>records := records st @ [fst ?en],
                      processedCount := processedCount st + 1, world := snd ?pt\<rparr>)"
      by (rule process_line_accepted [OF nb idv nm prod.collapse [symmetric] prod.collapse [symmetric]])
    have att: "row_attempts svc hdrs key st [raw] = [(fst ?en, fst ?pt)]"
      using nb True by simp
    have c1: "put_calls (snd ?pt) = put_calls (world st) @ [FileItem (fst ?en)]"
      by (simp add: putItem_put_calls enrich_put_calls)
    have c2: "put_results (snd ?pt) = put_results (world st) @ [fst ?pt]"
      by (simp add: putItem_put_calls enrich_put_calls)
    have c3: "publish_calls (snd ?pt) = publish_calls (world st)"
      by (simp add: putItem_put_calls enrich_put_calls)
    show ?thesis
    proof (cases "fst ?pt")
      case (Inl err)
      show ?thesis
        using nb True att step c1 c2 c3 unfolding Inl
        by (intro failed [of "fst ?en" err "snd ?pt"]) simp_all
    next
      case (Inr u)
      show ?thesis
        using nb True att step c1 c2 c3 unfolding Inr
        by (intro persisted [of "fst ?en" "snd ?pt"]) simp_all
    qed
  qed
qed

lemma process_line_log:
  "put_calls (world (process_line svc hdrs key st raw)) =
     put_calls (world st) @ map (\<lambda>a. FileItem (fst a)) (row_attempts svc hdrs key st [raw])"
  "put_results (world (process_line svc hdrs key st raw)) =
     put_results (world st) @ map snd (row_attempts svc hdrs key st [raw])"
  "publish_calls (world (process_line svc hdrs key st raw)) = publish_calls (world st)"
  "records (process_line svc hdrs key st raw) =
     records st @ map fst (filter (\<lambda>a. \<not> isl (snd a)) (row_attempts svc hdrs key st [raw]))"
  "processedCount (process_line svc hdrs key st raw) =
     processedCount st + length (filter (\<lambda>a. \<not> isl (snd a)) (row_attempts svc hdrs key st [raw]))"
  "errorCount (process_line svc hdrs key st raw) =
     errorCount st
       + length (filter (\<lambda>t. t \<noteq> [] \<and> \<not> usable_identity hdrs t) [trim raw])
       + length (filter (\<lambda>a. isl (snd a)) (row_attempts svc hdrs key st [raw]))"
  by (cases rule: process_line_turn [of raw svc hdrs key st]; simp)+

lemma process_lines_log:
  "put_calls (world (process_lines svc hdrs key st rows)) =
     put_calls (world st) @ map (\<lambda>a. FileItem (fst a)) (row_attempts svc hdrs key st rows)"
  "put_results (world (process_lines svc hdrs key st rows)) =
     put_results (world st) @ map snd (row_attempts svc hdrs key st rows)"
  "publish_calls (world (process_lines svc hdrs key st rows)) = publish_calls (world st)"
  "records (process_lines svc hdrs key st rows) =
     records st @ map fst (filter (\<lambda>a. \<not> isl (snd a)) (row_attempts svc hdrs key st rows))"
  "processedCount (process_lines svc hdrs key st rows) =
     processedCount st + length (filter (\<lambda>a. \<not> isl (snd a)) (row_attempts svc hdrs key st rows))"
  "errorCount (process_lines svc hdrs key st rows) =
     errorCount st
       + length (filter (\<lambda>t. t \<noteq> [] \<and> \<not> usable_identity hdrs t) (map trim rows))
       + length (filter (\<lambda>a. isl (snd a)) (row_attempts svc hdrs key st rows))"
proof (induction rows arbitrary: st)
  case Nil
  {
    case 1 show ?case by (simp add: process_lines_Nil)
  next
    case 2 show ?case by (simp add: process_lines_Nil)
  next
    case 3 show ?case by (simp add: process_lines_Nil)
  next
    case 4 show ?case by (simp add: process_lines_Nil)
  next
    case 5 show ?case by (simp add: process_lines_Nil)
  next
    case 6 show ?case by (simp add: process_lines_Nil)
  }
next
  case (Cons raw rows)
  note att = row_attempts_Cons [of svc hdrs key st raw rows]
  {
    case 1 show ?case
      unfolding process_lines_Cons Cons.IH(1) att by (simp add: process_line_log(1))
  next
    case 2 show ?case
      unfolding process_lines_Cons Cons.IH(2) att by (simp add: process_line_log(2))
  next
    case 3 show ?case
      unfolding process_lines_Cons Cons.IH(3) by (simp add: process_line_log(3))
  next
    case 4 show ?case
      unfolding process_lines_Cons Cons.IH(4) att by (simp add: process_line_log(4))
  next
    case 5 show ?case
      unfolding process_lines_Cons Cons.IH(5) att by (simp add: process_line_log(5))
  next
    case 6 show ?case
      unfolding process_lines_Cons Cons.IH(6) att by (simp add: process_line_log(6))
  }
qed

text \<open>
  The records handed to the Store Gateway are those of the lines that are not blank and
  pass the validation, one for each and in their order, and each logged answer is what
  the Store Gateway answered for that record.
\<close>

lemma row_attempts_single_fields:
  "map (\<lambda>a. item_id (fst a)) (row_attempts svc hdrs key st [raw]) =
     map (\<lambda>t. field_to_string (row_of_line hdrs t ''id''))
       (filter (\<lambda>t. t \<noteq> [] \<and> usable_identity hdrs t) [trim raw])"
  "map (\<lambda>a. nome (fst a)) (row_attempts svc hdrs key st [raw]) =
     map (\<lambda>t. field_to_string (row_of_line hdrs t ''nome''))
       (filter (\<lambda>t. t \<noteq> [] \<and> usable_identity hdrs t) [trim raw])"
  "map (\<lambda>a. preco (fst a)) (row_attempts svc hdrs key st [raw]) =
     map (\<lambda>t. num_or (parseFloat (row_of_line hdrs t ''preco'')) (Fin 0))
       (filter (\<lambda>t. t \<noteq> [] \<and> usable_identity hdrs t) [trim raw])"
  "map (\<lambda>a. estoque (fst a)) (row_attempts svc hdrs key st [raw]) =
     map (\<lambda>t. num_or (parseInt (row_of_line hdrs t ''estoque'')) (Fin 0))
       (filter (\<lambda>t. t \<noteq> [] \<and> usable_identity hdrs t) [trim raw])"
  "\<forall>a \<in> set (row_attempts svc hdrs key st [raw]).
     \<exists>w. fst (dynamodb_put svc (FileItem (fst a)) w) = snd a"
  by (auto simp add: enrich_fields putItem_answer)

lemma row_attempts_map:
  assumes single: "\<And>st raw. map f (row_attempts svc hdrs key st [raw]) = map g (filter P [trim raw])"
  shows "map f (row_attempts svc hdrs key st rows) = map g (filter P (map trim rows))"
proof (induction rows arbitrary: st)
  case Nil
  show ?case by simp
next
  case (Cons raw rows)
  have "map f (row_attempts svc hdrs key st (raw # rows)) =
        map f (row_attempts svc hdrs key st [raw]) @
        map f (row_attempts svc hdrs key (process_line svc hdrs key st raw) rows)"
    by (simp only: row_attempts_Cons [of svc hdrs key st raw rows] map_append)
  also have "\<dots> = map g (filter P [trim raw]) @ map g (filter P (map trim rows))"
    by (simp only: single Cons.IH)
  also have "\<dots> = map g (filter P (map trim (raw # rows)))"
    by simp
  finally show ?case .
qed

lemma row_attempts_fields:
  "map (\<lambda>a. item_id (fst a)) (row_attempts svc hdrs key st rows) =
     map (\<lambda>t. field_to_string (row_of_line hdrs t ''id''))
       (filter (\<lambda>t. t \<noteq> [] \<and> usable_identity hdrs t) (map trim rows))"
  "map (\<lambda>a. nome (fst a)) (row_attempts svc hdrs key st rows) =
     map (\<lambda>t. field_to_string (row_of_line hdrs t ''nome''))
       (filter (\<lambda>t. t \<noteq> [] \<and> usable_identity hdrs t) (map trim rows))"
  "map (\<lambda>a. preco (fst a)) (row_attempts svc hdrs key st rows) =
     map (\<lambda>t. num_or (parseFloat (row_of_line hdrs t ''preco'')) (Fin 0))
       (filter (\<lambda>t. t \<noteq> [] \<and> usable_identity hdrs t) (map trim rows))"
  "map (\<lambda>a. estoque (fst a)) (row_attempts svc hdrs key st rows) =
     map (\<lambda>t. num_or (parseInt (row_of_line hdrs t ''estoque'')) (Fin 0))
       (filter (\<lambda>t. t \<noteq> [] \<and> usable_identity hdrs t) (map trim rows))"
  by (rule row_attempts_map, rule row_attempts_single_fields)+

lemma row_attempts_answers:
  "\<forall>a \<in> set (row_attempts svc hdrs key st rows).
     \<exists>w. fst (dynamodb_put svc (FileItem (fst a)) w) = snd a"
proof (induction rows arbitrary: st)
  case Nil
  show ?case by simp
next
  case (Cons raw rows)
  show ?case
    unfolding row_attempts_Cons [of svc hdrs key st raw rows] set_append
    using Cons.IH row_attempts_single_fields(5) [of svc hdrs key st raw] by blast
qed

lemma row_attempts_length:
  "length (row_attempts svc hdrs key st rows) =
     length (filter (\<lambda>t. t \<noteq> [] \<and> usable_identity hdrs t) (map trim rows))"
  using arg_cong [OF row_attempts_fields(1) [of svc hdrs key st rows], of length] by simp

section \<open>Properties of the batch handler's notification and result\<close>

lemma publishMessage_put_calls:
  "put_calls (snd (publishMessage svc t m s attrs wd)) = put_calls wd"
  "put_results (snd (publishMessage svc t m s attrs wd)) = put_results wd"
  by (simp_all add: publishMessage_def Let_def split: sum.splits prod.splits)

lemma publishMessage_keeps_calls:
  "set (publish_calls wd) \<subseteq> set (publish_calls (snd (publishMessage svc t m s attrs wd)))"
  by (auto simp add: publishMessage_def Let_def split: sum.splits prod.splits)

lemma publishMessage_published:
  assumes "message_attributes svc attrs = Inr as"
  shows "publish_calls (snd (publishMessage svc t m s attrs wd)) =
           publish_calls wd @ [\<lparr>TopicArn = t, Message = m, Subject = s, MessageAttributes = as\<rparr>]"
    and "fst (publishMessage svc t m s attrs wd) =
           fst (sns_publish svc \<lparr>TopicArn = t, Message = m, Subject = s, MessageAttributes = as\<rparr>
                  (ext wd))"
  using assms by (simp_all add: publishMessage_def Let_def split: prod.splits)

lemma publishMessage_throws:
  assumes "\<forall>p w. fst (sns_publish svc p w) = Inl err"
    and "message_attributes svc attrs = Inr as"
  shows "fst (publishMessage svc t m s attrs wd) = Inl err"
  using assms(1) by (simp add: publishMessage_published(2) [OF assms(2)])

lemma notify_and_return_cases:
  assumes stamp: "toISOString svc (world st) = (stamp, w2)"
    and p: "(if env_truthy topicArn then
               publishMessage svc (field_to_string topicArn)
                 (ProcessingCompleted key bucket (processedCount st) (errorCount st) n stamp
                    (requestId ctx))
                 ''Data Processing Completed''
                 [(''event_type'', JStr ''processing_completed''),
                  (''file_name'', JStr key),
                  (''records_count'', JStr (String_nat (processedCount st)))]
                 w2
             else (Inr (), w2)) = (p, w3)"
  shows "notify_and_return svc topicArn ctx bucket key n st =
     (case p of
        Inl e \<Rightarrow> (Inl e, w3)
      | Inr u \<Rightarrow>
          (Inr \<lparr>statusCode = 200,
                body = Completed key (processedCount st) (errorCount st) n
                         (success_rate (processedCount st) n)\<rparr>, w3))"
  using stamp p unfolding notify_and_return_def Let_def
  by (simp only: prod.case)

text \<open>
  Steps 6 and 7 in full: the state after them keeps the puts of the loop; with a topic
  the completion message, carrying the counters and the total, has been handed to the
  Notifier; and the outcome is the success result, unless the publish threw, which is
  then the exception that leaves the \<open>try\<close>.
\<close>

lemma notify_and_return_outcome:
  "put_calls (snd (notify_and_return svc topicArn ctx bucket key n st)) = put_calls (world st)"
  "put_results (snd (notify_and_return svc topicArn ctx bucket key n st)) = put_results (world st)"
  "set (publish_calls (world st)) \<subseteq>
     set (publish_calls (snd (notify_and_return svc topicArn ctx bucket key n st)))"
  "env_truthy topicArn \<Longrightarrow>
     \<exists>prm \<in> set (publish_calls (snd (notify_and_return svc topicArn ctx bucket key n st))).
       \<exists>stamp. Message prm =
         ProcessingCompleted key bucket (processedCount st) (errorCount st) n stamp (requestId ctx)"
  "fst (notify_and_return svc topicArn ctx bucket key n st) =
       Inr \<lparr>statusCode = 200,
            body = Completed key (processedCount st) (errorCount st) n
                     (success_rate (processedCount st) n)\<rparr>
     \<or> env_truthy topicArn \<and>
       (\<exists>err prm w. fst (sns_publish svc prm w) = Inl err \<and>
          fst (notify_and_return svc topicArn ctx bucket key n st) = Inl err)"
proof -
  obtain stamp w2 where stamp: "toISOString svc (world st) = (stamp, w2)"
    by (cases "toISOString svc (world st)")
  let ?msg = "ProcessingCompleted key bucket (processedCount st) (errorCount st) n stamp
                (requestId ctx)"
  let ?attrs = "[(''event_type'', JStr ''processing_completed''),
                 (''file_name'', JStr key),
                 (''records_count'', JStr (String_nat (processedCount st)))]"
  let ?as = "[(''event_type'', ''processing_completed''),
              (''file_name'', key),
              (''records_count'', String_nat (processedCount st))]"
  let ?prm = "\<lparr>TopicArn = field_to_string topicArn, Message = ?msg,
               Subject = ''Data Processing Completed'', MessageAttributes = ?as\<rparr>"
  let ?pm = "publishMessage svc (field_to_string topicArn) ?msg ''Data Processing Completed''
               ?attrs w2"
  let ?r = "if env_truthy topicArn then ?pm else (Inr (), w2)"
  let ?N = "notify_and_return svc topicArn ctx bucket key n st"
  have attrs: "message_attributes svc ?attrs = Inr ?as" by simp
  have w2: "put_calls w2 = put_calls (world st)" "put_results w2 = put_results (world st)"
      "publish_calls w2 = publish_calls (world st)"
    using toISOString_calls [of svc "world st"] stamp by simp_all
  have N: "?N = (case fst ?r of
        Inl e \<Rightarrow> (Inl e, snd ?r)
      | Inr u \<Rightarrow>
          (Inr \<lparr>statusCode = 200,
                body = Completed key (processedCount st) (errorCount st) n
                         (success_rate (processedCount st) n)\<rparr>, snd ?r))"
    by (rule notify_and_return_cases [OF stamp prod.collapse [symmetric]])
  have sndN: "snd ?N = snd ?r"
    unfolding N by (cases "fst ?r") simp_all
  show "put_calls (snd ?N) = put_calls (world st)"
    unfolding sndN using w2 by (simp add: publishMessage_put_calls)
  show "put_results (snd ?N) = put_results (world st)"
    unfolding sndN using w2 by (simp add: publishMessage_put_calls)
  show "set (publish_calls (world st)) \<subseteq> set (publish_calls (snd ?N))"
    unfolding sndN using w2 publishMessage_keeps_calls [of w2] by auto
  show "\<exists>prm \<in> set (publish_calls (snd ?N)). \<exists>stamp. Message prm =
         ProcessingCompleted key bucket (processedCount st) (errorCount st) n stamp (requestId ctx)"
    if t: "env_truthy topicArn"
  proof -
    have "publish_calls (snd ?N) = publish_calls w2 @ [?prm]"
      unfolding sndN using t by (simp add: publishMessage_published(1) [OF attrs])
    then have "?prm \<in> set (publish_calls (snd ?N))" by simp
    moreover have "Message ?prm = ?msg" by simp
    ultimately show ?thesis by blast
  qed
  show "fst ?N =
       Inr \<lparr>statusCode = 200,
            body = Completed key (processedCount st) (errorCount st) n
                     (success_rate (processedCount st) n)\<rparr>
     \<or> env_truthy topicArn \<and>
       (\<exists>err prm w. fst (sns_publish svc prm w) = Inl err \<and> fst ?N = Inl err)"
  proof (cases "fst ?r")
    case (Inr u)
    then show ?thesis unfolding N by simp
  next
    case (Inl err)
    then have t: "env_truthy topicArn" by (cases "env_truthy topicArn") simp_all
    with Inl have "fst ?pm = Inl err" by simp
    then have "fst (sns_publish svc ?prm (ext w2)) = Inl err"
      by (simp only: publishMessage_published(2) [OF attrs])
    moreover have "fst ?N = Inl err" unfolding N using Inl by simp
    ultimately show ?thesis using t by blast
  qed
qed

lemma notify_and_return_throws:
  assumes t: "env_truthy topicArn"
    and bad: "\<forall>p w. fst (sns_publish svc p w) = Inl err"
  shows "fst (notify_and_return svc topicArn ctx bucket key n st) = Inl err"
proof -
  obtain stamp w2 where stamp: "toISOString svc (world st) = (stamp, w2)"
    by (cases "toISOString svc (world st)")
  let ?pm = "publishMessage svc (field_to_string topicArn)
                 (ProcessingCompleted key bucket (processedCount st) (errorCount st) n stamp
                    (requestId ctx))
                 ''Data Processing Completed''
                 [(''event_type'', JStr ''processing_completed''),
                  (''file_name'', JStr key),
                  (''records_count'', JStr (String_nat (processedCount st)))]
                 w2"
  have f: "fst ?pm = Inl err"
    by (rule publishMessage_throws [OF bad]) simp
  have p: "(if env_truthy topicArn then ?pm else (Inr (), w2)) = (Inl err, snd ?pm)"
    using t f by (simp add: prod_eq_iff)
  show ?thesis
    by (simp add: notify_and_return_cases [OF stamp p])
qed

lemma dataProcessor_try_lines:
  assumes rd: "read_lines svc event wd = (Inr (bucket, key, header # rows), w1)"
  shows "dataProcessor_try svc topicArn event ctx wd =
     notify_and_return svc topicArn ctx bucket key (length rows)
       (process_lines svc (map trim (split_str (CHR '','') header)) key
          \<lparr>records = [], processedCount = 0, errorCount = 0, world = w1\<rparr> rows)"
  unfolding dataProcessor_try_def rd
  by (simp only: prod.case sum.case list.case length_Cons diff_Suc_1)

lemma dataProcessor_handler_Inl:
  "fst (dataProcessor_try svc topicArn event ctx wd) = Inl err \<Longrightarrow>
   fst (dataProcessor_handler svc topicArn event ctx wd) = \<lparr>statusCode = 500, body = Fatal err\<rparr>"
  by (cases "dataProcessor_try svc topicArn event ctx wd")
     (simp add: dataProcessor_handler_def split: prod.splits)

lemma dataProcessor_handler_put_calls:
  "put_calls (snd (dataProcessor_handler svc topicArn event ctx wd)) =
   put_calls (snd (dataProcessor_try svc topicArn event ctx wd))"
  "put_results (snd (dataProcessor_handler svc topicArn event ctx wd)) =
   put_results (snd (dataProcessor_try svc topicArn event ctx wd))"
  "set (publish_calls (snd (dataProcessor_try svc topicArn event ctx wd))) \<subseteq>
   set (publish_calls (snd (dataProcessor_handler svc topicArn event ctx wd)))"
proof -
  obtain r w1 where Pair: "dataProcessor_try svc topicArn event ctx wd = (r, w1)"
    by (cases "dataProcessor_try svc topicArn event ctx wd")
  obtain stamp w2 where stamp: "toISOString svc w1 = (stamp, w2)"
    by (cases "toISOString svc w1")
  have w2: "put_calls w2 = put_calls w1" "put_results w2 = put_results w1"
      "publish_calls w2 = publish_calls w1"
    using toISOString_calls [of svc w1] stamp by simp_all
  let ?pm = "\<lambda>err. publishMessage svc (field_to_string topicArn)
            (ProcessingFailed err stamp) ''Data Processing Failed'' [] w2"
  have pm: "put_calls (snd (?pm err)) = put_calls w1" "put_results (snd (?pm err)) = put_results w1"
      "set (publish_calls w1) \<subseteq> set (publish_calls (snd (?pm err)))" for err
    using w2 publishMessage_keeps_calls [of w2] by (simp_all add: publishMessage_put_calls)
  have H: "snd (dataProcessor_handler svc topicArn event ctx wd) =
      (case r of Inr res \<Rightarrow> w1
       | Inl err \<Rightarrow> if env_truthy topicArn then snd (?pm err) else w1)"
    using Pair stamp by (simp add: dataProcessor_handler_def split: sum.splits prod.splits)
  show "put_calls (snd (dataProcessor_handler svc topicArn event ctx wd)) =
        put_calls (snd (dataProcessor_try svc topicArn event ctx wd))"
    unfolding H Pair using pm(1) by (cases r) simp_all
  show "put_results (snd (dataProcessor_handler svc topicArn event ctx wd)) =
        put_results (snd (dataProcessor_try svc topicArn event ctx wd))"
    unfolding H Pair using pm(2) by (cases r) simp_all
  show "set (publish_calls (snd (dataProcessor_try svc topicArn event ctx wd))) \<subseteq>
        set (publish_calls (snd (dataProcessor_handler svc topicArn event ctx wd)))"
    unfolding H Pair using pm(3) by (cases r) simp_all
qed

text \<open>
  The handler on a source that was read, in terms of the state \<open>stF\<close> in which the row
  loop ends.
\<close>

lemma batch_outcome:
  assumes rd: "read_lines svc event wd = (Inr (bucket, key, header # rows), w1)"
    and stF: "stF = process_lines svc (map trim (split_str (CHR '','') header)) key
               \<lparr>records = [], processedCount = 0, errorCount = 0, world = w1\<rparr> rows"
  shows "put_calls (snd (dataProcessor_handler svc topicArn event ctx wd)) = put_calls (world stF)"
    and "put_results (snd (dataProcessor_handler svc topicArn event ctx wd)) = put_results (world stF)"
    and "env_truthy topicArn \<Longrightarrow>
       \<exists>prm \<in> set (publish_calls (snd (dataProcessor_handler svc topicArn event ctx wd))).
         \<exists>stamp. Message prm =
           ProcessingCompleted key bucket (processedCount stF) (errorCount stF) (length rows) stamp
             (requestId ctx)"
    and "fst (dataProcessor_handler svc topicArn event ctx wd) =
         \<lparr>statusCode = 200,
          body = Completed key (processedCount stF) (errorCount stF) (length rows)
                   (success_rate (processedCount stF) (length rows))\<rparr>
       \<or> env_truthy topicArn \<and>
         (\<exists>err prm w. fst (sns_publish svc prm w) = Inl err \<and>
            fst (dataProcessor_handler svc topicArn event ctx wd) =
              \<lparr>statusCode = 500, body = Fatal err\<rparr>)"
proof -
  note tr = dataProcessor_try_lines [OF rd, of topicArn ctx, folded stF]
  show "put_calls (snd (dataProcessor_handler svc topicArn event ctx wd)) = put_calls (world stF)"
    by (simp only: dataProcessor_handler_put_calls tr notify_and_return_outcome)
  show "put_results (snd (dataProcessor_handler svc topicArn event ctx wd)) = put_results (world stF)"
    by (simp only: dataProcessor_handler_put_calls tr notify_and_return_outcome)
  show "\<exists>prm \<in> set (publish_calls (snd (dataProcessor_handler svc topicArn event ctx wd))).
         \<exists>stamp. Message prm =
           ProcessingCompleted key bucket (processedCount stF) (errorCount stF) (length rows) stamp
             (requestId ctx)"
    if t: "env_truthy topicArn"
    using notify_and_return_outcome(4) [OF t, of svc ctx bucket key "length rows" stF]
      dataProcessor_handler_put_calls(3) [of svc topicArn event ctx wd]
    unfolding tr by blast
  from notify_and_return_outcome(5) [of svc topicArn ctx bucket key "length rows" stF]
  show "fst (dataProcessor_handler svc topicArn event ctx wd) =
         \<lparr>statusCode = 200,
          body = Completed key (processedCount stF) (errorCount stF) (length rows)
                   (success_rate (processedCount stF) (length rows))\<rparr>
       \<or> env_truthy topicArn \<and>
         (\<exists>err prm w. fst (sns_publish svc prm w) = Inl err \<and>
            fst (dataProcessor_handler svc topicArn event ctx wd) =
              \<lparr>statusCode = 500, body = Fatal err\<rparr>)"
  proof
    assume "fst (notify_and_return svc topicArn ctx bucket key (length rows) stF) =
       Inr \<lparr>statusCode = 200,
            body = Completed key (processedCount stF) (errorCount stF) (length rows)
                     (success_rate (processedCount stF) (length rows))\<rparr>"
    then have "fst (dataProcessor_handler svc topicArn event ctx wd) =
         \<lparr>statusCode = 200,
          body = Completed key (processedCount stF) (errorCount stF) (length rows)
                   (success_rate (processedCount stF) (length rows))\<rparr>"
      unfolding tr [symmetric] by (rule dataProcessor_handler_Inr)
    then show ?thesis ..
  next
    assume "env_truthy topicArn \<and>
       (\<exists>err prm w. fst (sns_publish svc prm w) = Inl err \<and>
          fst (notify_and_return svc topicArn ctx bucket key (length rows) stF) = Inl err)"
    then obtain err prm w where t: "env_truthy topicArn"
      and thr: "fst (sns_publish svc prm w) = Inl err"
      and N: "fst (notify_and_return svc topicArn ctx bucket key (length rows) stF) = Inl err"
      by blast
    from N have "fst (dataProcessor_handler svc topicArn event ctx wd) =
        \<lparr>statusCode = 500, body = Fatal err\<rparr>"
      unfolding tr [symmetric] by (rule dataProcessor_handler_Inl)
    with t thr show ?thesis by blast
  qed
qed

lemma sim_putItem:
  "fst (putItem (sim_services csv put_ok publish_ok table) item wd) =
     (if put_ok item then Inr () else Inl (ServiceError ''put failed''))"
  by (simp add: putItem_def sim_services_def)

lemma sim_publish:
  "fst (sns_publish (sim_services csv put_ok publish_ok table) p w) =
     (if publish_ok then Inr () else Inl (ServiceError ''publish failed''))"
  by (simp add: sim_services_def)

section \<open>The handlers in the simulated world\<close>

lemma sim_read_lines:
  "read_lines (sim_services csv put_ok publish_ok table) sim_event wd =
     (Inr (''data-bucket'', ''produtos.csv'', split_str (CHR 0x0A) (trim csv)), wd)"
  by (simp add: read_lines_def sim_event_def sim_services_def plus_to_space_def getObject_def)

lemma sim_enrich:
  "fst (enrich (sim_services csv put_ok publish_ok table) key row wd) =
     \<lparr>item_id = field_to_string (row ''id''),
      timestamp = 1700000000000 + int (ext wd),
      nome = field_to_string (row ''nome''),
      categoria = (if field_truthy (row ''categoria'') then field_to_string (row ''categoria'')
                   else ''Sem categoria''),
      preco = num_or (parseFloat (row ''preco'')) (Fin 0),
      estoque = num_or (parseInt (row ''estoque'')) (Fin 0),
      source_file = key,
      processed_at = ''2023-11-14T22:13:20.'' @ String_nat (Suc (ext wd)) @ ''Z'',
      processor_version = ''1.0.0''\<rparr>"
  by (simp add: enrich_def now_def toISOString_def sim_services_def Let_def)

lemma sim_attempt_results:
  "map snd (row_attempts (sim_services csv (put_ok_except bad) publish_ok table) hdrs key st rows) =
     map (\<lambda>t. if field_to_string (row_of_line hdrs t ''id'') = bad
               then Inl (ServiceError ''put failed'') else Inr ())
       (filter (\<lambda>t. t \<noteq> [] \<and> usable_identity hdrs t) (map trim rows))"
  by (rule row_attempts_map) (simp add: sim_putItem put_ok_except_def enrich_fields)

lemma sim_attempt_all_ok:
  "map snd (row_attempts (sim_services csv (\<lambda>i. True) publish_ok table) hdrs key st rows) =
     map (\<lambda>t. Inr ())
       (filter (\<lambda>t. t \<noteq> [] \<and> usable_identity hdrs t) (map trim rows))"
  by (rule row_attempts_map) (simp add: sim_putItem)

lemma count_answers:
  "length (filter (\<lambda>a. \<not> isl (snd a)) xs) = length (filter (\<lambda>r. \<not> isl r) (map snd xs))"
  "length (filter (\<lambda>a. isl (snd a)) xs) = length (filter isl (map snd xs))"
  by (induction xs) simp_all

lemma stored_ids_of_attempts:
  "map stored_id (map (\<lambda>a. FileItem (fst a)) xs) = map JStr (map (\<lambda>a. item_id (fst a)) xs)"
  by (simp add: stored_id_def)

text \<open>
  C7. The claim does not hold of the code, by the defect of C1. The put failure itself is
  isolated: the row's \<open>catch\<close> counts the row as failed and the loop goes on
  (\<open>process_line_turn\<close>, \<open>process_lines_log\<close>). But the success result is returned only
  after the completion notification, which is awaited unguarded: when the publish throws
  too, the handler ends with the 500 result although every row was attempted. The code
  on a file of three rows with a topic configured, a put that throws on the second row
  and a Notifier that throws: all three rows are handed to the Store Gateway, the second
  put throws, and the result is 500. With a Notifier that works the same file gives the
  success result, two rows processed and one failed.
\<close>

theorem put_failure_result_lost:
  "fst (dataProcessor_handler (sim_services csv_put_failure (put_ok_except ''2'') False [])
          sim_topic sim_event sim_context sim_world) =
     \<lparr>statusCode = 500, body = Fatal (ServiceError ''publish failed'')\<rparr>
   \<and> map stored_id (put_calls (snd (dataProcessor_handler
          (sim_services csv_put_failure (put_ok_except ''2'') False [])
          sim_topic sim_event sim_context sim_world))) = [JStr ''1'', JStr ''2'', JStr ''3'']
   \<and> put_results (snd (dataProcessor_handler
          (sim_services csv_put_failure (put_ok_except ''2'') False [])
          sim_topic sim_event sim_context sim_world)) =
       [Inr (), Inl (ServiceError ''put failed''), Inr ()]
   \<and> fst (dataProcessor_handler (sim_services csv_put_failure (put_ok_except ''2'') True [])
          sim_topic sim_event sim_context sim_world) =
     \<lparr>statusCode = 200, body = Completed ''produtos.csv'' 2 1 3 (Some (200 / 3))\<rparr>"
proof -
  let ?S = "\<lambda>ok. sim_services csv_put_failure (put_ok_except ''2'') ok []"
  let ?hs = "[''id'', ''nome'', ''estoque'']"
  let ?rows = "[''1,Caneta,10'', ''2,Lapis,20'', ''3,Borracha,30'']"
  let ?st0 = "\<lparr>records = [], processedCount = 0, errorCount = 0, world = sim_world\<rparr>"
  have lines: "split_str (CHR 0x0A) (trim csv_put_failure) = ''id,nome,estoque'' # ?rows"
    by (simp add: csv_put_failure_def trim_def is_ws_def)
  have rd: "read_lines (?S ok) sim_event sim_world =
             (Inr (''data-bucket'', ''produtos.csv'', ''id,nome,estoque'' # ?rows), sim_world)" for ok
    by (simp only: sim_read_lines lines)
  have hs: "map trim (split_str (CHR '','') ''id,nome,estoque'') = ?hs"
    by (simp add: trim_def is_ws_def)
  have t: "env_truthy sim_topic"
    by (simp add: env_truthy_def sim_topic_def)
  have acc: "filter (\<lambda>t. t \<noteq> [] \<and> usable_identity ?hs t) (map trim ?rows) = ?rows"
    by (simp add: usable_identity_def row_of_line_def row_object_def nth_opt_def trim_def
          is_ws_def field_truthy_def)
  have rej: "filter (\<lambda>t. t \<noteq> [] \<and> \<not> usable_identity ?hs t) (map trim ?rows) = []"
    by (simp add: usable_identity_def row_of_line_def row_object_def nth_opt_def trim_def
          is_ws_def field_truthy_def)
  have ids: "map (\<lambda>t. field_to_string (row_of_line ?hs t ''id'')) ?rows = [''1'', ''2'', ''3'']"
    by (simp add: row_of_line_def row_object_def nth_opt_def trim_def is_ws_def field_to_string_def)
  have res: "map snd (row_attempts (?S ok) ?hs ''produtos.csv'' ?st0 ?rows) =
               [Inr (), Inl (ServiceError ''put failed''), Inr ()]" for ok
    unfolding sim_attempt_results acc
    by (simp add: row_of_line_def row_object_def nth_opt_def trim_def is_ws_def field_to_string_def)
  have empty: "put_calls sim_world = []" "put_results sim_world = []"
    by (simp_all add: sim_world_def)
  have bad: "\<forall>p w. fst (sns_publish (?S False) p w) = Inl (ServiceError ''publish failed'')"
    by (simp add: sim_publish)
  have good: "\<forall>p w. fst (sns_publish (?S True) p w) = Inr ()"
    by (simp add: sim_publish)
  have "fst (dataProcessor_try (?S False) sim_topic sim_event sim_context sim_world) =
          Inl (ServiceError ''publish failed'')"
    by (simp only: dataProcessor_try_lines [OF rd] notify_and_return_throws [OF t bad])
  then have r500: "fst (dataProcessor_handler (?S False) sim_topic sim_event sim_context sim_world) =
     \<lparr>statusCode = 500, body = Fatal (ServiceError ''publish failed'')\<rparr>"
    by (rule dataProcessor_handler_Inl)
  have calls: "map stored_id (put_calls (snd (dataProcessor_handler (?S False) sim_topic sim_event
                 sim_context sim_world))) = [JStr ''1'', JStr ''2'', JStr ''3'']"
    unfolding batch_outcome(1) [OF rd refl] hs process_lines_log(1)
    by (simp only: world.simps loop_state.simps empty append_Nil stored_ids_of_attempts
          row_attempts_fields(1) acc ids, simp)
  have results: "put_results (snd (dataProcessor_handler (?S False) sim_topic sim_event
                 sim_context sim_world)) = [Inr (), Inl (ServiceError ''put failed''), Inr ()]"
    unfolding batch_outcome(2) [OF rd refl] hs process_lines_log(2)
    by (simp add: empty res del: row_attempts.simps)
  have p: "processedCount (process_lines (?S True) ?hs ''produtos.csv'' ?st0 ?rows) = 2"
    unfolding process_lines_log(5) count_answers res by simp
  have f: "errorCount (process_lines (?S True) ?hs ''produtos.csv'' ?st0 ?rows) = 1"
    unfolding process_lines_log(6) count_answers res rej by simp
  from batch_outcome(4) [OF rd refl, of True sim_topic sim_context, unfolded hs p f]
  have r200: "fst (dataProcessor_handler (?S True) sim_topic sim_event sim_context sim_world) =
     \<lparr>statusCode = 200, body = Completed ''produtos.csv'' 2 1 3 (Some (200 / 3))\<rparr>"
    using good by (auto simp add: success_rate_def)
  show ?thesis
    by (intro conjI) (rule r500 calls results r200)+
qed

section \<open>Rows with a bad numeric field\<close>





section \<open>Trimming, splitting and the lines of a CSV text\<close>

lemma trim_trimEnd: "trim s = trimEnd (trimStart s)"
  by (simp add: trim_def trimEnd_def trimStart_def)

lemma dropWhile_keeps_nonblank:
  "(\<exists>c \<in> set (dropWhile is_ws s). \<not> is_ws c) \<longleftrightarrow> (\<exists>c \<in> set s. \<not> is_ws c)"
  by (induction s) auto

lemma trim_nonblank_iff: "trim s \<noteq> [] \<longleftrightarrow> (\<exists>c \<in> set s. \<not> is_ws c)"
  by (simp add: trim_def dropWhile_keeps_nonblank)

lemma trimStart_nonblank: "\<exists>c \<in> set s. \<not> is_ws c \<Longrightarrow> \<exists>c \<in> set (trimStart s). \<not> is_ws c"
  unfolding trimStart_def
  by (metis dropWhile_eq_Nil_conv hd_dropWhile hd_in_set)

lemma trimEnd_nonblank: "\<exists>c \<in> set s. \<not> is_ws c \<Longrightarrow> \<exists>c \<in> set (trimEnd s). \<not> is_ws c"
proof -
  assume "\<exists>c \<in> set s. \<not> is_ws c"
  then have "\<exists>c \<in> set (rev s). \<not> is_ws c" by simp
  then have "\<exists>c \<in> set (dropWhile is_ws (rev s)). \<not> is_ws c"
    by (metis dropWhile_eq_Nil_conv hd_dropWhile hd_in_set)
  then show ?thesis by (simp add: trimEnd_def)
qed

lemma set_trimStart: "set (trimStart s) \<subseteq> set s"
  by (auto simp add: trimStart_def dest: set_dropWhileD)

lemma set_trimEnd: "set (trimEnd s) \<subseteq> set s"
  by (auto simp add: trimEnd_def dest: set_dropWhileD)

lemma trimStart_append: "\<exists>c \<in> set a. \<not> is_ws c \<Longrightarrow> trimStart (a @ b) = trimStart a @ b"
  by (auto simp add: trimStart_def)

lemma trimEnd_append: "\<exists>c \<in> set b. \<not> is_ws c \<Longrightarrow> trimEnd (a @ b) = a @ trimEnd b"
  by (auto simp add: trimEnd_def)

lemma trimEnd_ws_tail: "\<forall>c \<in> set t. is_ws c \<Longrightarrow> trimEnd (a @ t) = trimEnd a"
proof -
  assume "\<forall>c \<in> set t. is_ws c"
  then have "dropWhile is_ws (rev t @ rev a) = dropWhile is_ws (rev a)"
    by (intro dropWhile_append2) simp
  then show ?thesis by (simp add: trimEnd_def)
qed

lemma split_str_no_sep: "sep \<notin> set s \<Longrightarrow> split_str sep s = [s]"
  by (induction s) auto

lemma split_str_append_sep:
  "sep \<notin> set s \<Longrightarrow> split_str sep (s @ sep # t) = s # split_str sep t"
  by (induction s) auto

lemma unlines_Cons:
  "unlines (l # ls) = l @ (if ls = [] then [] else CHR 0x0A # unlines ls)"
  by (cases ls) simp_all

lemma unlines_snoc:
  "unlines (ls @ [l]) = (if ls = [] then l else unlines ls @ CHR 0x0A # l)"
  by (induction ls rule: unlines.induct) simp_all

lemma split_str_unlines:
  "ls \<noteq> [] \<Longrightarrow> \<forall>l \<in> set ls. CHR 0x0A \<notin> set l \<Longrightarrow> split_str (CHR 0x0A) (unlines ls) = ls"
proof (induction ls rule: unlines.induct)
  case 1
  then show ?case by simp
next
  case (2 l)
  then show ?case by (simp add: split_str_no_sep)
next
  case (3 l l' ls)
  then show ?case by (simp add: split_str_append_sep)
qed

lemma trim_csv_text:
  assumes hb: "\<exists>c \<in> set h. \<not> is_ws c"
    and rb: "\<forall>l \<in> set rows. \<exists>c \<in> set l. \<not> is_ws c"
    and ws: "\<forall>c \<in> set tail. is_ws c"
  shows "trim (unlines (h # rows) @ tail) =
         unlines (butlast (trimStart h # rows) @ [trimEnd (last (trimStart h # rows))])"
proof -
  let ?R = "if rows = [] then [] else CHR 0x0A # unlines rows"
  let ?ls = "trimStart h # rows"
  have "trimStart (unlines (h # rows) @ tail) = trimStart (h @ (?R @ tail))"
    by (simp only: unlines_Cons append_assoc)
  also have "\<dots> = trimStart h @ (?R @ tail)"
    by (rule trimStart_append [OF hb])
  also have "\<dots> = unlines ?ls @ tail"
    by (simp only: unlines_Cons append_assoc)
  finally have "trim (unlines (h # rows) @ tail) = trimEnd (unlines ?ls @ tail)"
    by (simp only: trim_trimEnd)
  also have "\<dots> = trimEnd (unlines ?ls)"
    by (rule trimEnd_ws_tail [OF ws])
  finally have start: "trim (unlines (h # rows) @ tail) = trimEnd (unlines ?ls)" .
  have lastb: "\<exists>c \<in> set (last ?ls). \<not> is_ws c"
  proof (cases "rows = []")
    case True
    then show ?thesis using trimStart_nonblank [OF hb] by simp
  next
    case False
    then have "last ?ls \<in> set rows" by simp
    with rb show ?thesis by blast
  qed
  have split: "?ls = butlast ?ls @ [last ?ls]" by simp
  have "trimEnd (unlines (butlast ?ls @ [last ?ls])) =
        unlines (butlast ?ls @ [trimEnd (last ?ls)])"
  proof (cases "butlast ?ls = []")
    case True
    then show ?thesis by simp
  next
    case False
    have "trimEnd (unlines (butlast ?ls @ [last ?ls])) =
          trimEnd ((unlines (butlast ?ls) @ [CHR 0x0A]) @ last ?ls)"
      using False by (simp only: unlines_snoc if_False append_assoc append_Cons append_Nil)
    also have "\<dots> = (unlines (butlast ?ls) @ [CHR 0x0A]) @ trimEnd (last ?ls)"
      by (rule trimEnd_append [OF lastb])
    also have "\<dots> = unlines (butlast ?ls @ [trimEnd (last ?ls)])"
      using False by (simp only: unlines_snoc if_False append_assoc append_Cons append_Nil)
    finally show ?thesis .
  qed
  with split have "trimEnd (unlines ?ls) = unlines (butlast ?ls @ [trimEnd (last ?ls)])"
    by simp
  with start show ?thesis by simp
qed

lemma read_lines_text:
  assumes rec: "Records event = r # rs"
    and key: "decodeURIComponent svc (plus_to_space (object_key r)) = Inr key"
    and obj: "fst (s3_getObject svc (bucket_name r) key (ext wd)) = Inr text"
  shows "read_lines svc event wd =
     (Inr (bucket_name r, key, split_str (CHR 0x0A) (trim text)),
      wd\<lparr>ext := snd (s3_getObject svc (bucket_name r) key (ext wd))\<rparr>)"
proof -
  have "getObject svc (bucket_name r) key wd =
        (Inr text, wd\<lparr>ext := snd (s3_getObject svc (bucket_name r) key (ext wd))\<rparr>)"
    using obj by (cases "s3_getObject svc (bucket_name r) key (ext wd)") (simp add: getObject_def)
  then show ?thesis
    by (simp add: read_lines_def rec key Let_def)
qed

lemma trim_ws_tail: "\<forall>c \<in> set t. is_ws c \<Longrightarrow> trim (s @ t) = trim s"
proof (cases "\<exists>c \<in> set s. \<not> is_ws c")
  case True
  assume ws: "\<forall>c \<in> set t. is_ws c"
  have "trim (s @ t) = trimEnd (trimStart s @ t)"
    by (simp only: trim_trimEnd trimStart_append [OF True])
  also have "\<dots> = trimEnd (trimStart s)" by (rule trimEnd_ws_tail [OF ws])
  finally show ?thesis by (simp only: trim_trimEnd)
next
  case False
  assume ws: "\<forall>c \<in> set t. is_ws c"
  with False have "\<not> (\<exists>c \<in> set (s @ t). \<not> is_ws c)" by auto
  then have "trim (s @ t) = []" by (simp only: trim_nonblank_iff [symmetric] not_not)
  moreover from False have "trim s = []" by (simp only: trim_nonblank_iff [symmetric] not_not)
  ultimately show ?thesis by simp
qed

lemma trimEnd_split: "\<exists>t. s = trimEnd s @ t \<and> (\<forall>c \<in> set t. is_ws c)"
proof -
  have "s = rev (dropWhile is_ws (rev s)) @ rev (takeWhile is_ws (rev s))"
    by (metis rev_append rev_rev_ident takeWhile_dropWhile_id)
  moreover have "\<forall>c \<in> set (rev (takeWhile is_ws (rev s))). is_ws c"
    by (auto dest: set_takeWhileD)
  ultimately show ?thesis unfolding trimEnd_def by blast
qed

lemma trim_of_trimEnd: "trim (trimEnd s) = trim s"
proof -
  obtain t where t: "s = trimEnd s @ t" "\<forall>c \<in> set t. is_ws c"
    using trimEnd_split by blast
  have "trim s = trim (trimEnd s @ t)" using t(1) by simp
  also have "\<dots> = trim (trimEnd s)" by (rule trim_ws_tail [OF t(2)])
  finally show ?thesis by simp
qed

lemma trim_of_trimStart: "trim (trimStart s) = trim s"
  by (simp add: trim_def trimStart_def)

lemma split_str_nonempty: "split_str sep s \<noteq> []"
  by (induction s) (auto split: list.splits)

lemma split_str_snoc:
  "c \<noteq> sep \<Longrightarrow>
   split_str sep (s @ [c]) = butlast (split_str sep s) @ [last (split_str sep s) @ [c]]"
proof (induction s)
  case Nil
  then show ?case by simp
next
  case (Cons d s)
  obtain x xs where X: "split_str sep s = x # xs"
    using split_str_nonempty [of sep s] by (cases "split_str sep s") auto
  show ?case
    using Cons X by (cases xs) (auto simp add: split_str_nonempty)
qed

text \<open>
  White space around a header line does not change the headers the handler reads off
  it, since each header is trimmed.
\<close>

lemma split_trimStart:
  assumes "\<not> is_ws sep"
  shows "map trim (split_str sep (trimStart s)) = map trim (split_str sep s)"
proof (induction s)
  case Nil
  show ?case by (simp add: trimStart_def)
next
  case (Cons c s)
  show ?case
  proof (cases "is_ws c")
    case False
    then show ?thesis by (simp add: trimStart_def)
  next
    case True
    with assms have ne: "c \<noteq> sep" by auto
    obtain x xs where X: "split_str sep s = x # xs"
      using split_str_nonempty [of sep s] by (cases "split_str sep s") auto
    have "trim (c # x) = trim x" using True by (simp add: trim_def)
    then have "map trim (split_str sep (c # s)) = map trim (split_str sep s)"
      using ne by (simp add: X)
    moreover have "trimStart (c # s) = trimStart s"
      using True by (simp add: trimStart_def)
    ultimately show ?thesis using Cons.IH by simp
  qed
qed

lemma split_trimEnd:
  assumes "\<not> is_ws sep"
  shows "map trim (split_str sep (trimEnd s)) = map trim (split_str sep s)"
proof (induction s rule: rev_induct)
  case Nil
  show ?case by (simp add: trimEnd_def)
next
  case (snoc c s)
  show ?case
  proof (cases "is_ws c")
    case False
    then show ?thesis by (simp add: trimEnd_def)
  next
    case True
    with assms have ne: "c \<noteq> sep" by auto
    let ?X = "split_str sep s"
    have X: "?X = butlast ?X @ [last ?X]"
      using split_str_nonempty [of sep s] by simp
    have "trim (last ?X @ [c]) = trim (last ?X)"
      by (rule trim_ws_tail) (simp add: True)
    then have "map trim (split_str sep (s @ [c])) = map trim (butlast ?X @ [last ?X])"
      by (simp add: split_str_snoc [OF ne])
    then have a: "map trim (split_str sep (s @ [c])) = map trim ?X"
      using X by simp
    have "trimEnd (s @ [c]) = trimEnd s"
      by (rule trimEnd_ws_tail) (simp add: True)
    with a snoc.IH show ?thesis by simp
  qed
qed

lemma comma_not_ws: "\<not> is_ws (CHR '','')"
  by (simp add: is_ws_def)

text \<open>
  The lines of a well-formed CSV text as the handler sees them: the header and the rows
  of the text, up to white space that trimming removes.
\<close>

lemma csv_lines:
  assumes hb: "\<exists>c \<in> set h. \<not> is_ws c"
    and rb: "\<forall>l \<in> set rows. \<exists>c \<in> set l. \<not> is_ws c"
    and ws: "\<forall>c \<in> set tail. is_ws c"
    and nl: "\<forall>l \<in> set (h # rows). CHR 0x0A \<notin> set l"
  shows "\<exists>h' rows'. split_str (CHR 0x0A) (trim (unlines (h # rows) @ tail)) = h' # rows'
           \<and> map trim rows' = map trim rows
           \<and> map trim (split_str (CHR '','') h') = map trim (split_str (CHR '','') h)"
proof -
  let ?ls = "trimStart h # rows"
  let ?out = "butlast ?ls @ [trimEnd (last ?ls)]"
  have mem: "last ?ls \<in> set ?ls" by simp
  have nl_ls: "\<forall>l \<in> set ?ls. CHR 0x0A \<notin> set l"
    using nl set_trimStart [of h] by auto
  have nl_out: "\<forall>l \<in> set ?out. CHR 0x0A \<notin> set l"
  proof
    fix l assume "l \<in> set ?out"
    then consider "l \<in> set (butlast ?ls)" | "l = trimEnd (last ?ls)" by auto
    then show "CHR 0x0A \<notin> set l"
    proof cases
      case 1
      then have "l \<in> set ?ls" by (rule in_set_butlastD)
      with nl_ls show ?thesis by blast
    next
      case 2
      from nl_ls mem have "CHR 0x0A \<notin> set (last ?ls)" by blast
      with 2 set_trimEnd [of "last ?ls"] show ?thesis by blast
    qed
  qed
  have ne: "?out \<noteq> []" by simp
  have lines: "split_str (CHR 0x0A) (trim (unlines (h # rows) @ tail)) = ?out"
    by (simp only: trim_csv_text [OF hb rb ws] split_str_unlines [OF ne nl_out])
  have hd1: "map trim (split_str (CHR '','') (trimStart h)) = map trim (split_str (CHR '','') h)"
    by (rule split_trimStart [OF comma_not_ws])
  show ?thesis
  proof (cases "rows = []")
    case True
    then have out: "?out = trimEnd (trimStart h) # []" by simp
    have "map trim (split_str (CHR '','') (trimEnd (trimStart h))) =
          map trim (split_str (CHR '','') h)"
      by (simp only: split_trimEnd [OF comma_not_ws] hd1)
    then show ?thesis
      using True unfolding lines out by blast
  next
    case False
    then have out: "?out = trimStart h # (butlast rows @ [trimEnd (last rows)])" by simp
    have "map trim (butlast rows @ [trimEnd (last rows)]) = map trim (butlast rows @ [last rows])"
      by (simp add: trim_of_trimEnd)
    then have "map trim (butlast rows @ [trimEnd (last rows)]) = map trim rows"
      using False by simp
    then show ?thesis
      using hd1 unfolding lines out by blast
  qed
qed

lemma process_line_trim_eq:
  "trim a = trim b \<Longrightarrow> process_line svc hdrs key st a = process_line svc hdrs key st b"
  by (simp add: process_line_def)

lemma process_lines_trim_eq:
  "map trim xs = map trim ys \<Longrightarrow>
   process_lines svc hdrs key st xs = process_lines svc hdrs key st ys"
proof (induction xs arbitrary: ys st)
  case Nil
  then show ?case by simp
next
  case (Cons x xs)
  then obtain y ys' where ys: "ys = y # ys'" "trim x = trim y" "map trim xs = map trim ys'"
    by (cases ys) auto
  show ?case
    unfolding ys(1) process_lines_Cons process_line_trim_eq [OF ys(2)]
    by (rule Cons.IH [OF ys(3)])
qed

lemma row_attempts_trim_eq:
  "map trim xs = map trim ys \<Longrightarrow>
   row_attempts svc hdrs key st xs = row_attempts svc hdrs key st ys"
proof (induction xs arbitrary: ys st)
  case Nil
  then show ?case by simp
next
  case (Cons x xs)
  then obtain y ys' where ys: "ys = y # ys'" "trim x = trim y" "map trim xs = map trim ys'"
    by (cases ys) auto
  have pl: "process_line svc hdrs key st x = process_line svc hdrs key st y"
    by (rule process_line_trim_eq [OF ys(2)])
  show ?case
    unfolding ys(1) by (simp add: ys(2) pl Cons.IH [OF ys(3)])
qed

lemma answers_list_all2:
  "\<forall>a \<in> set xs. \<exists>w. fst (dynamodb_put svc (FileItem (fst a)) w) = snd a \<Longrightarrow>
   list_all2 (\<lambda>e r. \<exists>w. fst (dynamodb_put svc (FileItem e) w) = r) (map fst xs) (map snd xs)"
  by (simp add: list_all2_map1 list_all2_map2 list_all2_same)

lemma count_split:
  "length (filter P ts) + length (filter (\<lambda>t. \<not> P t) ts) = length ts"
  by (induction ts) simp_all

lemma count_answers_split:
  "length (filter (\<lambda>r. \<not> isl r) rs) + length (filter isl rs) = length rs"
  by (induction rs) simp_all

text \<open>
  C4. The object read from the bucket is a well-formed CSV text: a header line that is
  not blank and \<open>N\<close> data rows, none blank, joined by line feeds, possibly followed
  by white space such as a final line feed. Then the handler attempts each of the \<open>N\<close>
  rows exactly once. The rows that pass the validation are handed to the Store Gateway,
  one put for each and in their order, a record with the \<open>id\<close> and the \<open>nome\<close> of
  the row (\<open>items\<close>, and \<open>results\<close> for what the Store Gateway answered); no other
  put is made. The count \<open>p\<close> of persisted rows is the number of puts that returned,
  the count \<open>f\<close> of rejected or failed rows is the number of rows that did not pass
  the validation plus the number of puts that threw, and \<open>p + f = N\<close>. These counts
  and \<open>N\<close> as \<open>total_records\<close> are what the handler reports: in the completion
  message handed to the Notifier when a topic is configured, and in the success result,
  which is returned unless the publish of that message throws (the defect of C1).
\<close>

theorem all_rows_attempted:
  assumes rec: "Records event = r # rs"
    and key: "decodeURIComponent svc (plus_to_space (object_key r)) = Inr key"
    and obj: "fst (s3_getObject svc (bucket_name r) key (ext wd)) =
                Inr (unlines (header # rows) @ tail)"
    and hb: "trim header \<noteq> []"
    and rb: "\<forall>l \<in> set rows. trim l \<noteq> []"
    and nl: "\<forall>l \<in> set (header # rows). CHR 0x0A \<notin> set l"
    and ws: "\<forall>c \<in> set tail. is_ws c"
    and hs: "hdrs = map trim (split_str (CHR '','') header)"
    and out: "out = dataProcessor_handler svc topicArn event ctx wd"
  shows "\<exists>items results p f.
      put_calls (snd out) = put_calls wd @ map FileItem items
    \<and> put_results (snd out) = put_results wd @ results
    \<and> list_all2 (\<lambda>e r. \<exists>w. fst (dynamodb_put svc (FileItem e) w) = r) items results
    \<and> map item_id items =
        map (\<lambda>t. field_to_string (row_of_line hdrs t ''id''))
          (filter (usable_identity hdrs) (map trim rows))
    \<and> map nome items =
        map (\<lambda>t. field_to_string (row_of_line hdrs t ''nome''))
          (filter (usable_identity hdrs) (map trim rows))
    \<and> p = length (filter (\<lambda>r. \<not> isl r) results)
    \<and> f = length (filter (\<lambda>t. \<not> usable_identity hdrs t) (map trim rows))
          + length (filter isl results)
    \<and> p + f = length rows
    \<and> (env_truthy topicArn \<longrightarrow>
         (\<exists>prm \<in> set (publish_calls (snd out)). \<exists>stamp.
            Message prm =
              ProcessingCompleted key (bucket_name r) p f (length rows) stamp (requestId ctx)))
    \<and> (fst out =
          \<lparr>statusCode = 200,
           body = Completed key p f (length rows) (success_rate p (length rows))\<rparr>
        \<or> env_truthy topicArn \<and>
          (\<exists>err prm w. fst (sns_publish svc prm w) = Inl err \<and>
             fst out = \<lparr>statusCode = 500, body = Fatal err\<rparr>))"
proof -
  from hb have hb': "\<exists>c \<in> set header. \<not> is_ws c"
    by (simp only: trim_nonblank_iff)
  from rb have rb': "\<forall>l \<in> set rows. \<exists>c \<in> set l. \<not> is_ws c"
    by (simp only: trim_nonblank_iff)
  from csv_lines [OF hb' rb' ws nl]
  obtain h' rows' where
      lines: "split_str (CHR 0x0A) (trim (unlines (header # rows) @ tail)) = h' # rows'"
    and tr: "map trim rows' = map trim rows"
    and hd: "map trim (split_str (CHR '','') h') = hdrs"
    unfolding hs by blast
  let ?w1 = "wd\<lparr>ext := snd (s3_getObject svc (bucket_name r) key (ext wd))\<rparr>"
  let ?st0 = "\<lparr>records = [], processedCount = 0, errorCount = 0, world = ?w1\<rparr>"
  have rd: "read_lines svc event wd = (Inr (bucket_name r, key, h' # rows'), ?w1)"
    using read_lines_text [OF rec key obj] by (simp only: lines)
  define stF where "stF = process_lines svc hdrs key ?st0 rows"
  define A where "A = row_attempts svc hdrs key ?st0 rows"
  have stF': "stF = process_lines svc (map trim (split_str (CHR '','') h')) key ?st0 rows'"
    unfolding stF_def hd by (rule process_lines_trim_eq [OF tr [symmetric]])
  have len: "length rows' = length rows"
    using arg_cong [OF tr, of length] by simp
  note bo = batch_outcome [OF rd stF', of topicArn ctx, folded out, unfolded len]
  have nonblank: "filter (\<lambda>t. t \<noteq> [] \<and> P t) (map trim rows) = filter P (map trim rows)" for P
    using rb by (intro filter_cong) auto
  have c1: "put_calls (snd out) = put_calls wd @ map FileItem (map fst A)"
    unfolding bo(1) stF_def process_lines_log(1) A_def by simp
  have c2: "put_results (snd out) = put_results wd @ map snd A"
    unfolding bo(2) stF_def process_lines_log(2) A_def by simp
  have c3: "list_all2 (\<lambda>e r. \<exists>w. fst (dynamodb_put svc (FileItem e) w) = r) (map fst A) (map snd A)"
    unfolding A_def by (rule answers_list_all2 [OF row_attempts_answers])
  have c4: "map item_id (map fst A) =
        map (\<lambda>t. field_to_string (row_of_line hdrs t ''id''))
          (filter (usable_identity hdrs) (map trim rows))"
    using row_attempts_fields(1) [of svc hdrs key ?st0 rows]
    unfolding A_def nonblank by (simp add: comp_def)
  have c5: "map nome (map fst A) =
        map (\<lambda>t. field_to_string (row_of_line hdrs t ''nome''))
          (filter (usable_identity hdrs) (map trim rows))"
    using row_attempts_fields(2) [of svc hdrs key ?st0 rows]
    unfolding A_def nonblank by (simp add: comp_def)
  have c6: "processedCount stF = length (filter (\<lambda>r. \<not> isl r) (map snd A))"
    unfolding stF_def process_lines_log(5) count_answers A_def by simp
  have c7: "errorCount stF = length (filter (\<lambda>t. \<not> usable_identity hdrs t) (map trim rows))
          + length (filter isl (map snd A))"
    unfolding stF_def process_lines_log(6) count_answers A_def nonblank by simp
  have lenA: "length (map snd A) = length (filter (usable_identity hdrs) (map trim rows))"
    using row_attempts_length [of svc hdrs key ?st0 rows] unfolding A_def nonblank by simp
  have c8: "processedCount stF + errorCount stF = length rows"
    using count_answers_split [of "map snd A"] count_split [of "usable_identity hdrs" "map trim rows"]
    unfolding c6 c7 lenA by simp
  have c9: "env_truthy topicArn \<longrightarrow>
         (\<exists>prm \<in> set (publish_calls (snd out)). \<exists>stamp.
            Message prm =
              ProcessingCompleted key (bucket_name r) (processedCount stF) (errorCount stF)
                (length rows) stamp (requestId ctx))"
    using bo(3) by blast
  note c10 = bo(4)
  have "put_calls (snd out) = put_calls wd @ map FileItem (map fst A)
    \<and> put_results (snd out) = put_results wd @ map snd A
    \<and> list_all2 (\<lambda>e r. \<exists>w. fst (dynamodb_put svc (FileItem e) w) = r) (map fst A) (map snd A)
    \<and> map item_id (map fst A) =
        map (\<lambda>t. field_to_string (row_of_line hdrs t ''id''))
          (filter (usable_identity hdrs) (map trim rows))
    \<and> map nome (map fst A) =
        map (\<lambda>t. field_to_string (row_of_line hdrs t ''nome''))
          (filter (usable_identity hdrs) (map trim rows))
    \<and> processedCount stF = length (filter (\<lambda>r. \<not> isl r) (map snd A))
    \<and> errorCount stF = length (filter (\<lambda>t. \<not> usable_identity hdrs t) (map trim rows))
          + length (filter isl (map snd A))
    \<and> processedCount stF + errorCount stF = length rows
    \<and> (env_truthy topicArn \<longrightarrow>
         (\<exists>prm \<in> set (publish_calls (snd out)). \<exists>stamp.
            Message prm =
              ProcessingCompleted key (bucket_name r) (processedCount stF) (errorCount stF)
                (length rows) stamp (requestId ctx)))
    \<and> (fst out =
          \<lparr>statusCode = 200,
           body = Completed key (processedCount stF) (errorCount stF) (length rows)
                    (success_rate (processedCount stF) (length rows))\<rparr>
        \<or> env_truthy topicArn \<and>
          (\<exists>err prm w. fst (sns_publish svc prm w) = Inl err \<and>
             fst out = \<lparr>statusCode = 500, body = Fatal err\<rparr>))"
    using c1 c2 c3 c4 c5 c6 c7 c8 c9 c10 by (intro conjI)
  then show ?thesis
    by (intro exI [of _ "map fst A"] exI [of _ "map snd A"] exI [of _ "processedCount stF"]
          exI [of _ "errorCount stF"])
qed

theorem all_rows_attempted_witness:
  "Records sim_event = \<lparr>bucket_name = ''data-bucket'', object_key = ''produtos.csv''\<rparr> # []
   \<and> decodeURIComponent (sim_services (csv_three_rows @ [CHR 0x0A]) (put_ok_except ''2'') True [])
        (plus_to_space ''produtos.csv'') = Inr ''produtos.csv''
   \<and> fst (s3_getObject (sim_services (csv_three_rows @ [CHR 0x0A]) (put_ok_except ''2'') True [])
        ''data-bucket'' ''produtos.csv'' (ext sim_world)) =
       Inr (unlines (''id,nome,preco'' # [''1,Caneta,2.50'', ''2,Lapis,1.20'', ''3,Borracha,0.80''])
              @ [CHR 0x0A])
   \<and> trim ''id,nome,preco'' \<noteq> []
   \<and> trim ''1,Caneta,2.50'' \<noteq> [] \<and> trim ''2,Lapis,1.20'' \<noteq> [] \<and> trim ''3,Borracha,0.80'' \<noteq> []
   \<and> is_ws (CHR 0x0A)
   \<and> env_truthy sim_topic
   \<and> (\<exists>items results p f.
        put_calls (snd (dataProcessor_handler
            (sim_services (csv_three_rows @ [CHR 0x0A]) (put_ok_except ''2'') True [])
            sim_topic sim_event sim_context sim_world)) = put_calls sim_world @ map FileItem items
      \<and> put_results (snd (dataProcessor_handler
            (sim_services (csv_three_rows @ [CHR 0x0A]) (put_ok_except ''2'') True [])
            sim_topic sim_event sim_context sim_world)) = put_results sim_world @ results
      \<and> map item_id items = [''1'', ''2'', ''3'']
      \<and> map nome items = [''Caneta'', ''Lapis'', ''Borracha'']
      \<and> p = length (filter (\<lambda>r. \<not> isl r) results)
      \<and> f = 0 + length (filter isl results)
      \<and> p + f = 3
      \<and> (\<exists>prm \<in> set (publish_calls (snd (dataProcessor_handler
            (sim_services (csv_three_rows @ [CHR 0x0A]) (put_ok_except ''2'') True [])
            sim_topic sim_event sim_context sim_world))). \<exists>stamp.
            Message prm =
              ProcessingCompleted ''produtos.csv'' ''data-bucket'' p f 3 stamp (JStr ''req-1''))
      \<and> fst (dataProcessor_handler
            (sim_services (csv_three_rows @ [CHR 0x0A]) (put_ok_except ''2'') True [])
            sim_topic sim_event sim_context sim_world) =
          \<lparr>statusCode = 200, body = Completed ''produtos.csv'' p f 3 (success_rate p 3)\<rparr>)"
proof -
  let ?S = "sim_services (csv_three_rows @ [CHR 0x0A]) (put_ok_except ''2'') True []"
  let ?r = "\<lparr>bucket_name = ''data-bucket'', object_key = ''produtos.csv''\<rparr>"
  let ?rows = "[''1,Caneta,2.50'', ''2,Lapis,1.20'', ''3,Borracha,0.80'']"
  let ?hs = "[''id'', ''nome'', ''preco'']"
  let ?out = "dataProcessor_handler ?S sim_topic sim_event sim_context sim_world"
  have rec: "Records sim_event = ?r # []"
    by (simp add: sim_event_def)
  have key: "decodeURIComponent ?S (plus_to_space ''produtos.csv'') = Inr ''produtos.csv''"
    by (simp add: sim_services_def plus_to_space_def)
  have key': "decodeURIComponent ?S (plus_to_space (object_key ?r)) = Inr ''produtos.csv''"
    using key by simp
  have obj: "fst (s3_getObject ?S ''data-bucket'' ''produtos.csv'' (ext sim_world)) =
       Inr (unlines (''id,nome,preco'' # ?rows) @ [CHR 0x0A])"
    by (simp add: sim_services_def csv_three_rows_def)
  have obj': "fst (s3_getObject ?S (bucket_name ?r) ''produtos.csv'' (ext sim_world)) =
       Inr (unlines (''id,nome,preco'' # ?rows) @ [CHR 0x0A])"
    using obj by simp
  have hb: "trim ''id,nome,preco'' \<noteq> []" by (simp add: trim_def is_ws_def)
  have b1: "trim ''1,Caneta,2.50'' \<noteq> []" by (simp add: trim_def is_ws_def)
  have b2: "trim ''2,Lapis,1.20'' \<noteq> []" by (simp add: trim_def is_ws_def)
  have b3: "trim ''3,Borracha,0.80'' \<noteq> []" by (simp add: trim_def is_ws_def)
  have rb: "\<forall>l \<in> set ?rows. trim l \<noteq> []"
    using b1 b2 b3 by simp
  have nl: "\<forall>l \<in> set (''id,nome,preco'' # ?rows). CHR 0x0A \<notin> set l"
    by simp
  have w: "is_ws (CHR 0x0A)" by (simp add: is_ws_def)
  have ws: "\<forall>c \<in> set [CHR 0x0A]. is_ws c" using w by simp
  have t: "env_truthy sim_topic"
    by (simp add: env_truthy_def sim_topic_def)
  have hs: "?hs = map trim (split_str (CHR '','') ''id,nome,preco'')"
    by (simp add: trim_def is_ws_def)
  have acc: "filter (usable_identity ?hs) (map trim ?rows) = ?rows"
    by (simp add: usable_identity_def row_of_line_def row_object_def nth_opt_def trim_def
          is_ws_def field_truthy_def)
  have rej: "filter (\<lambda>t. \<not> usable_identity ?hs t) (map trim ?rows) = []"
    by (simp add: usable_identity_def row_of_line_def row_object_def nth_opt_def trim_def
          is_ws_def field_truthy_def)
  have ids: "map (\<lambda>t. field_to_string (row_of_line ?hs t ''id'')) ?rows = [''1'', ''2'', ''3'']"
    by (simp add: row_of_line_def row_object_def nth_opt_def trim_def is_ws_def field_to_string_def)
  have nomes: "map (\<lambda>t. field_to_string (row_of_line ?hs t ''nome'')) ?rows =
                 [''Caneta'', ''Lapis'', ''Borracha'']"
    by (simp add: row_of_line_def row_object_def nth_opt_def trim_def is_ws_def field_to_string_def)
  have len: "length ?rows = 3" by simp
  have good: "\<And>prm w err. fst (sns_publish ?S prm w) \<noteq> Inl err"
    by (simp add: sim_publish)
  from all_rows_attempted [OF rec key' obj' hb rb nl ws hs refl, of sim_topic sim_context]
  obtain items results p f where
      c1: "put_calls (snd ?out) = put_calls sim_world @ map FileItem items"
    and c2: "put_results (snd ?out) = put_results sim_world @ results"
    and c4: "map item_id items =
        map (\<lambda>t. field_to_string (row_of_line ?hs t ''id''))
          (filter (usable_identity ?hs) (map trim ?rows))"
    and c5: "map nome items =
        map (\<lambda>t. field_to_string (row_of_line ?hs t ''nome''))
          (filter (usable_identity ?hs) (map trim ?rows))"
    and c6: "p = length (filter (\<lambda>r. \<not> isl r) results)"
    and c7: "f = length (filter (\<lambda>t. \<not> usable_identity ?hs t) (map trim ?rows))
          + length (filter isl results)"
    and c8: "p + f = length ?rows"
    and c9: "env_truthy sim_topic \<longrightarrow>
         (\<exists>prm \<in> set (publish_calls (snd ?out)). \<exists>stamp.
            Message prm =
              ProcessingCompleted ''produtos.csv'' (bucket_name ?r) p f (length ?rows) stamp
                (requestId sim_context))"
    and c10: "fst ?out =
          \<lparr>statusCode = 200,
           body = Completed ''produtos.csv'' p f (length ?rows) (success_rate p (length ?rows))\<rparr>
        \<or> env_truthy sim_topic \<and>
          (\<exists>err prm w. fst (sns_publish ?S prm w) = Inl err \<and>
             fst ?out = \<lparr>statusCode = 500, body = Fatal err\<rparr>)"
    by blast
  have d4: "map item_id items = [''1'', ''2'', ''3'']"
    using c4 unfolding acc ids .
  have d5: "map nome items = [''Caneta'', ''Lapis'', ''Borracha'']"
    using c5 unfolding acc nomes .
  have d7: "f = 0 + length (filter isl results)"
    using c7 unfolding rej by simp
  have d8: "p + f = 3" using c8 unfolding len .
  have d9: "\<exists>prm \<in> set (publish_calls (snd ?out)). \<exists>stamp.
            Message prm =
              ProcessingCompleted ''produtos.csv'' ''data-bucket'' p f 3 stamp (JStr ''req-1'')"
    using c9 t unfolding len by (simp add: sim_context_def)
  have d10: "fst ?out =
          \<lparr>statusCode = 200, body = Completed ''produtos.csv'' p f 3 (success_rate p 3)\<rparr>"
    using c10 good unfolding len by blast
  have "put_calls (snd ?out) = put_calls sim_world @ map FileItem items
      \<and> put_results (snd ?out) = put_results sim_world @ results
      \<and> map item_id items = [''1'', ''2'', ''3'']
      \<and> map nome items = [''Caneta'', ''Lapis'', ''Borracha'']
      \<and> p = length (filter (\<lambda>r. \<not> isl r) results)
      \<and> f = 0 + length (filter isl results)
      \<and> p + f = 3
      \<and> (\<exists>prm \<in> set (publish_calls (snd ?out)). \<exists>stamp.
            Message prm =
              ProcessingCompleted ''produtos.csv'' ''data-bucket'' p f 3 stamp (JStr ''req-1''))
      \<and> fst ?out =
          \<lparr>statusCode = 200, body = Completed ''produtos.csv'' p f 3 (success_rate p 3)\<rparr>"
    by (intro conjI) (rule c1 c2 d4 d5 c6 d7 d8 d9 d10)+
  then have body: "\<exists>items results p f.
        put_calls (snd ?out) = put_calls sim_world @ map FileItem items
      \<and> put_results (snd ?out) = put_results sim_world @ results
      \<and> map item_id items = [''1'', ''2'', ''3'']
      \<and> map nome items = [''Caneta'', ''Lapis'', ''Borracha'']
      \<and> p = length (filter (\<lambda>r. \<not> isl r) results)
      \<and> f = 0 + length (filter isl results)
      \<and> p + f = 3
      \<and> (\<exists>prm \<in> set (publish_calls (snd ?out)). \<exists>stamp.
            Message prm =
              ProcessingCompleted ''produtos.csv'' ''data-bucket'' p f 3 stamp (JStr ''req-1''))
      \<and> fst ?out =
          \<lparr>statusCode = 200, body = Completed ''produtos.csv'' p f 3 (success_rate p 3)\<rparr>"
    by (intro exI [of _ items] exI [of _ results] exI [of _ p] exI [of _ f])
  show ?thesis
    by (intro conjI) (rule rec key obj hb b1 b2 b3 w t body)+
qed

section \<open>The API path\<close>

lemma createRecord_handler_post:
  "httpMethod event = JStr ''POST'' \<Longrightarrow>
   createRecord_handler svc topicArn event ctx wd =
     (case createRecord_try svc topicArn event ctx wd of
        (Inr resp, w1) \<Rightarrow> (resp, w1)
      | (Inl error, w1) \<Rightarrow>
          (\<lparr>statusCode = 500,
            body = Failure ''Internal Server Error'' (MessageOf error),
            headers = cors_headers\<rparr>, w1))"
  by (simp add: createRecord_handler_def)

text \<open>
  C8. A POST request whose body parses as an object (a key-value structure) that has no
  usable \<open>nome\<close>, absent or falsy, is answered with status 400 and the error kind
  \<open>Validation Error\<close>; the state is returned as it was, so neither the Store Gateway
  nor any other service has been called.
\<close>

theorem missing_nome_rejected:
  assumes post: "httpMethod event = JStr ''POST''"
    and parsed: "parse_body svc (event_body event) = Some (JObj kvs)"
    and nonome: "\<not> truthy (case map_of kvs ''nome'' of None \<Rightarrow> JUndefined | Some v \<Rightarrow> v)"
  shows "createRecord_handler svc topicArn event ctx wd =
     (\<lparr>statusCode = 400,
       body = Failure ''Validation Error'' (Text msg_nome_required),
       headers = cors_headers\<rparr>, wd)"
  using nonome
  by (simp add: createRecord_handler_post [OF post] createRecord_try_def post parsed)

text \<open>
  C10. A POST request whose body is absent, \<open>undefined\<close> or \<open>null\<close>, passes the
  JSON-parse guard untouched, since it is not a string; reading its \<open>nome\<close> then throws
  a \<open>TypeError\<close>, the outer \<open>catch\<close> takes it, and the answer is status 500, not
  400. No service has been called.
\<close>

theorem absent_body_500:
  assumes post: "httpMethod event = JStr ''POST''"
    and absent: "event_body event = JUndefined \<or> event_body event = JNull"
  shows "parse_body svc (event_body event) = Some (event_body event)
     \<and> get_prop (event_body event) ''nome'' = Inl TypeError
     \<and> createRecord_handler svc topicArn event ctx wd =
         (\<lparr>statusCode = 500,
           body = Failure ''Internal Server Error'' (MessageOf TypeError),
           headers = cors_headers\<rparr>, wd)"
  using absent
  by (auto simp add: createRecord_handler_post [OF post] createRecord_try_def post parse_body_def)

lemma build_item_fields:
  assumes idv: "get_prop b ''id'' = Inr idv"
    and built: "build_item svc event ctx b wd = (Inr item, w1)"
  shows "api_id item = (if truthy idv then idv else JStr (fst (uuidv4 svc (ext wd))))"
    and "\<exists>pv pf. get_prop b ''preco'' = Inr pv \<and> parseFloat_val svc pv = Inr pf
            \<and> api_preco item = num_or pf (Fin 0)"
    and "\<exists>ev pint. get_prop b ''estoque'' = Inr ev \<and> parseInt_val svc ev = Inr pint
            \<and> api_estoque item = num_or pint (Fin 0)"
    and "put_calls w1 = put_calls wd"
  using built idv
  by (auto simp add: build_item_def Let_def now_def toISOString_def
           split: sum.splits prod.splits if_splits)

lemma createRecord_try_built:
  assumes post: "httpMethod event = JStr ''POST''"
    and parsed: "parse_body svc (event_body event) = Some b"
    and nomev: "get_prop b ''nome'' = Inr nomev"
    and usable: "truthy nomev"
    and built: "build_item svc event ctx b wd = (Inr item, w1)"
    and put: "putItem svc (ApiItem item) w1 = (Inr (), w2)"
    and pub: "(if env_truthy topicArn then
                 publishMessage svc (field_to_string topicArn)
                   (RecordCreated (api_id item) nomev (created_at item))
                   ''New Record Created via API''
                   [(''event_type'', JStr ''api_creation''), (''record_id'', api_id item)] w2
               else (Inr (), w2)) = (p, w3)"
  shows "createRecord_try svc topicArn event ctx wd =
     (case p of
        Inl e \<Rightarrow> (Inl e, w3)
      | Inr u \<Rightarrow>
          (Inr \<lparr>statusCode = 201,
                body = Created ''Registro criado com sucesso'' (api_id item) (api_timestamp item) item,
                headers = cors_headers\<rparr>, w3))"
proof -
  have "createRecord_try svc topicArn event ctx wd =
     (let (p, w3) =
            (if env_truthy topicArn then
               publishMessage svc (field_to_string topicArn)
                 (RecordCreated (api_id item) nomev (created_at item))
                 ''New Record Created via API''
                 [(''event_type'', JStr ''api_creation''), (''record_id'', api_id item)] w2
             else (Inr (), w2))
      in case p of
           Inl e \<Rightarrow> (Inl e, w3)
         | Inr u' \<Rightarrow>
             (Inr \<lparr>statusCode = 201,
                   body = Created ''Registro criado com sucesso'' (api_id item)
                            (api_timestamp item) item,
                   headers = cors_headers\<rparr>, w3))"
    using usable by (simp add: createRecord_try_def post parsed nomev built put)
  then show ?thesis
    by (simp only: pub Let_def prod.case)
qed

theorem missing_nome_rejected_witness:
  "httpMethod (post_event (JStr json_no_nome)) = JStr ''POST''
   \<and> parse_body (sim_services [] (\<lambda>i. True) True sim_json_table)
         (event_body (post_event (JStr json_no_nome))) =
       Some (JObj [(''categoria'', JStr ''Papelaria'')])
   \<and> map_of [(''categoria'', JStr ''Papelaria'')] ''nome'' = None
   \<and> createRecord_handler (sim_services [] (\<lambda>i. True) True sim_json_table) sim_topic
         (post_event (JStr json_no_nome)) sim_context sim_world =
       (\<lparr>statusCode = 400,
         body = Failure ''Validation Error'' (Text msg_nome_required),
         headers = cors_headers\<rparr>, sim_world)"
proof -
  let ?S = "sim_services [] (\<lambda>i. True) True sim_json_table"
  have post: "httpMethod (post_event (JStr json_no_nome)) = JStr ''POST''"
    by (simp add: post_event_def)
  have parsed: "parse_body ?S (event_body (post_event (JStr json_no_nome))) =
       Some (JObj [(''categoria'', JStr ''Papelaria'')])"
    by (simp add: parse_body_def post_event_def sim_services_def sim_json_table_def
          json_widget_def json_no_nome_def)
  have none: "map_of [(''categoria'', JStr ''Papelaria'')] ''nome'' = None"
    by simp
  have nonome: "\<not> truthy (case map_of [(''categoria'', JStr ''Papelaria'')] ''nome'' of
                          None \<Rightarrow> JUndefined | Some v \<Rightarrow> v)"
    by simp
  show ?thesis
    using missing_nome_rejected [OF post parsed nonome, of sim_topic sim_context sim_world]
      post parsed none
    by (intro conjI)
qed

theorem absent_body_500_witness:
  "httpMethod (post_event JNull) = JStr ''POST''
   \<and> event_body (post_event JNull) = JNull
   \<and> createRecord_handler (sim_services [] (\<lambda>i. True) True sim_json_table) sim_topic
         (post_event JNull) sim_context sim_world =
       (\<lparr>statusCode = 500,
         body = Failure ''Internal Server Error'' (MessageOf TypeError),
         headers = cors_headers\<rparr>, sim_world)"
proof -
  have post: "httpMethod (post_event JNull) = JStr ''POST''"
    by (simp add: post_event_def)
  have nul: "event_body (post_event JNull) = JNull"
    by (simp add: post_event_def)
  have absent: "event_body (post_event JNull) = JUndefined \<or> event_body (post_event JNull) = JNull"
    using nul by (rule disjI2)
  note inst = absent_body_500 [OF post absent,
      of "sim_services [] (\<lambda>i. True) True sim_json_table" sim_topic sim_context sim_world]
  show ?thesis
    using post nul inst [THEN conjunct2, THEN conjunct2]
    by (intro conjI)
qed

text \<open>
  The identity of the item: \<open>body.id\<close> when that is truthy, else the string that the
  one call of \<open>uuidv4\<close> returns. The handler hands it on as it is; whether it is
  non-empty and new is the generator's matter.
\<close>

lemma synthesized_id:
  assumes "get_prop b ''id'' = Inr idv" and "\<not> truthy idv"
    and "build_item svc event ctx b wd = (Inr item, w1)"
  shows "api_id item = JStr (fst (uuidv4 svc (ext wd)))"
  using build_item_fields(1) [OF assms(1,3)] assms(2) by simp

lemma createRecord_outcome:
  assumes post: "httpMethod event = JStr ''POST''"
    and parsed: "parse_body svc (event_body event) = Some b"
    and nomev: "get_prop b ''nome'' = Inr nomev"
    and usable: "truthy nomev"
    and built: "build_item svc event ctx b wd = (Inr item, w1)"
    and put: "fst (putItem svc (ApiItem item) w1) = Inr ()"
    and attrs: "value_to_string svc (api_id item) = Inr s"
    and pub: "fst (sns_publish svc
                \<lparr>TopicArn = field_to_string topicArn,
                 Message = RecordCreated (api_id item) nomev (created_at item),
                 Subject = ''New Record Created via API'',
                 MessageAttributes = [(''event_type'', ''api_creation''), (''record_id'', s)]\<rparr>
                (ext (snd (putItem svc (ApiItem item) w1)))) = p"
  shows "fst (createRecord_handler svc topicArn event ctx wd) =
           (if env_truthy topicArn \<and> isl p
            then \<lparr>statusCode = 500,
                  body = Failure ''Internal Server Error'' (MessageOf (projl p)),
                  headers = cors_headers\<rparr>
            else \<lparr>statusCode = 201,
                  body = Created ''Registro criado com sucesso'' (api_id item)
                           (api_timestamp item) item,
                  headers = cors_headers\<rparr>)"
    and "put_calls (snd (createRecord_handler svc topicArn event ctx wd)) =
           put_calls w1 @ [ApiItem item]"
    and "put_results (snd (createRecord_handler svc topicArn event ctx wd)) =
           put_results w1 @ [Inr ()]"
proof -
  let ?w2 = "snd (putItem svc (ApiItem item) w1)"
  let ?attrs = "[(''event_type'', JStr ''api_creation''), (''record_id'', api_id item)]"
  let ?pm = "publishMessage svc (field_to_string topicArn)
                   (RecordCreated (api_id item) nomev (created_at item))
                   ''New Record Created via API'' ?attrs ?w2"
  let ?r = "if env_truthy topicArn then ?pm else (Inr (), ?w2)"
  have put': "putItem svc (ApiItem item) w1 = (Inr (), ?w2)"
    by (subst put [symmetric]) (rule prod.collapse [symmetric])
  have ma: "message_attributes svc ?attrs = Inr [(''event_type'', ''api_creation''), (''record_id'', s)]"
    by (simp add: attrs)
  have fpm: "fst ?pm = p"
    by (simp only: publishMessage_published(2) [OF ma] pub)
  note tr = createRecord_try_built [OF post parsed nomev usable built put' prod.collapse [symmetric],
      of topicArn]
  have logs: "put_calls (snd ?r) = put_calls w1 @ [ApiItem item]"
      "put_results (snd ?r) = put_results w1 @ [Inr ()]"
    using putItem_put_calls(1,2) [of svc "ApiItem item" w1] put
    by (simp_all add: publishMessage_put_calls)
  show "fst (createRecord_handler svc topicArn event ctx wd) =
           (if env_truthy topicArn \<and> isl p
            then \<lparr>statusCode = 500,
                  body = Failure ''Internal Server Error'' (MessageOf (projl p)),
                  headers = cors_headers\<rparr>
            else \<lparr>statusCode = 201,
                  body = Created ''Registro criado com sucesso'' (api_id item)
                           (api_timestamp item) item,
                  headers = cors_headers\<rparr>)"
    unfolding createRecord_handler_post [OF post] tr
    using fpm by (cases "env_truthy topicArn"; cases p) simp_all
  show "put_calls (snd (createRecord_handler svc topicArn event ctx wd)) =
           put_calls w1 @ [ApiItem item]"
    unfolding createRecord_handler_post [OF post] tr
    using logs(1) by (cases "fst ?r") simp_all
  show "put_results (snd (createRecord_handler svc topicArn event ctx wd)) =
           put_results w1 @ [Inr ()]"
    unfolding createRecord_handler_post [OF post] tr
    using logs(2) by (cases "fst ?r") simp_all
qed

lemma parseInt_40: "parseInt_str ''40'' = Fin 40"
proof -
  have "parseInt_str ''40'' = to_double (of_nat (digits_val ''40''))"
    by (rule parseInt_str_digit_run) (simp_all add: is_digit_def)
  moreover have "digits_val ''40'' = 40"
    by (simp add: digits_val_def digit_val_def)
  moreover have "to_double (of_nat 40) = Fin (of_nat 40)"
    by (rule to_double_exact_nat(1)) simp
  ultimately show ?thesis by simp
qed

text \<open>
  C9. The claim does not hold of the code, by the defect of C1. A request with a usable
  \<open>nome\<close> and no \<open>id\<close> is not rejected: its identity is the string \<open>uuidv4()\<close>
  returns (\<open>synthesized_id\<close>) and the item is put. But the 201 response is returned
  only after the notification, which is awaited unguarded: when the publish throws, the
  request is answered 500 although the record has been persisted under the new identity.
  The code on one request, with a topic configured: with a Notifier that works the
  answer is 201 and carries the identity; with a Notifier that throws the same item is
  put, the put returns, and the answer is 500.
\<close>

theorem synthesized_id_not_returned:
  "fst (uuidv4 (sim_services [] (\<lambda>i. True) False json_caderno_table) (ext sim_world)) = ''uuid-0''
   \<and> fst (createRecord_handler (sim_services [] (\<lambda>i. True) True json_caderno_table) sim_topic
          (post_event (JStr json_caderno)) sim_context sim_world) =
       \<lparr>statusCode = 201,
        body = Created ''Registro criado com sucesso'' (JStr ''uuid-0'') 1700000000001
                 \<lparr>api_id = JStr ''uuid-0'', api_timestamp = 1700000000001,
                  api_nome = JStr ''Caderno'', api_categoria = JStr ''API'',
                  api_preco = Fin 0, api_estoque = Fin 40, api_source = ''API'',
                  created_at = ''2023-11-14T22:13:20.2Z'',
                  created_by = JStr ''10.0.0.7'', request_id = JStr ''req-1''\<rparr>,
        headers = cors_headers\<rparr>
   \<and> fst (createRecord_handler (sim_services [] (\<lambda>i. True) False json_caderno_table) sim_topic
          (post_event (JStr json_caderno)) sim_context sim_world) =
       \<lparr>statusCode = 500,
        body = Failure ''Internal Server Error'' (MessageOf (ServiceError ''publish failed'')),
        headers = cors_headers\<rparr>
   \<and> put_calls (snd (createRecord_handler (sim_services [] (\<lambda>i. True) False json_caderno_table)
          sim_topic (post_event (JStr json_caderno)) sim_context sim_world)) =
       [ApiItem \<lparr>api_id = JStr ''uuid-0'', api_timestamp = 1700000000001,
                 api_nome = JStr ''Caderno'', api_categoria = JStr ''API'',
                 api_preco = Fin 0, api_estoque = Fin 40, api_source = ''API'',
                 created_at = ''2023-11-14T22:13:20.2Z'',
                 created_by = JStr ''10.0.0.7'', request_id = JStr ''req-1''\<rparr>]
   \<and> put_results (snd (createRecord_handler (sim_services [] (\<lambda>i. True) False json_caderno_table)
          sim_topic (post_event (JStr json_caderno)) sim_context sim_world)) = [Inr ()]"
proof -
  let ?S = "\<lambda>ok. sim_services [] (\<lambda>i. True) ok json_caderno_table"
  let ?b = "JObj [(''nome'', JStr ''Caderno''), (''estoque'', JStr ''40'')]"
  let ?ev = "post_event (JStr json_caderno)"
  let ?item = "\<lparr>api_id = JStr ''uuid-0'', api_timestamp = 1700000000001,
                 api_nome = JStr ''Caderno'', api_categoria = JStr ''API'',
                 api_preco = Fin 0, api_estoque = Fin 40, api_source = ''API'',
                 created_at = ''2023-11-14T22:13:20.2Z'',
                 created_by = JStr ''10.0.0.7'', request_id = JStr ''req-1''\<rparr>"
  let ?w1 = "\<lparr>ext = 3, put_calls = [], put_results = [], publish_calls = []\<rparr>"
  have u: "fst (uuidv4 (?S False) (ext sim_world)) = ''uuid-0''"
    by (simp add: sim_services_def sim_world_def String_nat.simps)
  have t: "env_truthy sim_topic"
    by (simp add: env_truthy_def sim_topic_def)
  have post: "httpMethod ?ev = JStr ''POST''"
    by (simp add: post_event_def)
  have parsed: "parse_body (?S ok) (event_body ?ev) = Some ?b" for ok
    by (simp add: parse_body_def post_event_def sim_services_def json_caderno_table_def)
  have nomev: "get_prop ?b ''nome'' = Inr (JStr ''Caderno'')" by simp
  have usable: "truthy (JStr ''Caderno'')" by simp
  have pf: "parseFloat_val (?S ok) JUndefined = Inr NaN" for ok
    by (rule absent_value_NaN)
  have pint: "parseInt_val (?S ok) (JStr ''40'') = Inr (Fin 40)" for ok
    by (simp add: parseInt_val_def parseInt_40)
  have clock: "date_now (?S ok) = (\<lambda>w. (1700000000000 + int w, Suc w))"
      "date_iso (?S ok) = (\<lambda>w. (''2023-11-14T22:13:20.'' @ String_nat w @ ''Z'', Suc w))"
      "uuidv4 (?S ok) = (\<lambda>w. (''uuid-'' @ String_nat w, Suc w))" for ok
    by (simp_all add: sim_services_def)
  have built: "build_item (?S ok) ?ev sim_context ?b sim_world = (Inr ?item, ?w1)" for ok
    unfolding build_item_def
    by (simp add: pf pint clock Let_def now_def toISOString_def sim_world_def
          sim_context_def post_event_def js_or_def num_or_def String_nat.simps)
  have put: "fst (putItem (?S ok) (ApiItem ?item) ?w1) = Inr ()" for ok
    by (simp add: sim_putItem)
  have attrs: "value_to_string (?S ok) (api_id ?item) = Inr ''uuid-0''" for ok by simp
  have empty: "put_calls ?w1 = []" "put_results ?w1 = []" by simp_all
  note good = createRecord_outcome [OF post parsed nomev usable built put attrs refl,
      of True sim_topic]
  note bad = createRecord_outcome [OF post parsed nomev usable built put attrs refl,
      of False sim_topic]
  have r201: "fst (createRecord_handler (?S True) sim_topic ?ev sim_context sim_world) =
       \<lparr>statusCode = 201,
        body = Created ''Registro criado com sucesso'' (JStr ''uuid-0'') 1700000000001 ?item,
        headers = cors_headers\<rparr>"
    unfolding good(1) by (simp add: sim_publish)
  have r500: "fst (createRecord_handler (?S False) sim_topic ?ev sim_context sim_world) =
       \<lparr>statusCode = 500,
        body = Failure ''Internal Server Error'' (MessageOf (ServiceError ''publish failed'')),
        headers = cors_headers\<rparr>"
    unfolding bad(1) using t by (simp add: sim_publish)
  have calls: "put_calls (snd (createRecord_handler (?S False) sim_topic ?ev sim_context sim_world)) =
       [ApiItem ?item]"
    unfolding bad(2) empty by simp
  have results: "put_results (snd (createRecord_handler (?S False) sim_topic ?ev sim_context
                   sim_world)) = [Inr ()]"
    unfolding bad(3) empty by simp
  show ?thesis
    by (intro conjI) (rule u r201 r500 calls results)+
qed

section \<open>Notification failures\<close>

lemma batch_publish_failure:
  assumes rd: "read_lines svc event wd = (Inr (bucket, key, header # rows), w1)"
    and t: "env_truthy topicArn"
    and bad: "\<forall>p w. fst (sns_publish svc p w) = Inl err"
  shows "fst (dataProcessor_handler svc topicArn event ctx wd) =
           \<lparr>statusCode = 500, body = Fatal err\<rparr>"
    and "put_calls (snd (dataProcessor_handler svc topicArn event ctx wd)) =
           put_calls (world (process_lines svc (map trim (split_str (CHR '','') header)) key
             \<lparr>records = [], processedCount = 0, errorCount = 0, world = w1\<rparr> rows))"
proof -
  have "fst (dataProcessor_try svc topicArn event ctx wd) = Inl err"
    by (simp only: dataProcessor_try_lines [OF rd] notify_and_return_throws [OF t bad])
  then show "fst (dataProcessor_handler svc topicArn event ctx wd) =
           \<lparr>statusCode = 500, body = Fatal err\<rparr>"
    by (rule dataProcessor_handler_Inl)
  show "put_calls (snd (dataProcessor_handler svc topicArn event ctx wd)) =
           put_calls (world (process_lines svc (map trim (split_str (CHR '','') header)) key
             \<lparr>records = [], processedCount = 0, errorCount = 0, world = w1\<rparr> rows))"
    by (rule batch_outcome(1) [OF rd refl])
qed

lemma batch_put_calls:
  assumes rd: "read_lines svc event wd = (Inr (bucket, key, header # rows), w1)"
  shows "put_calls (snd (dataProcessor_handler svc topicArn event ctx wd)) =
           put_calls (world (process_lines svc (map trim (split_str (CHR '','') header)) key
             \<lparr>records = [], processedCount = 0, errorCount = 0, world = w1\<rparr> rows))"
  by (rule batch_outcome(1) [OF rd refl])

lemma batch_completed:
  assumes rd: "read_lines svc event wd = (Inr (bucket, key, header # rows), w1)"
    and pub: "env_truthy topicArn \<longrightarrow> (\<forall>p w. fst (sns_publish svc p w) = Inr ())"
    and st: "process_lines svc (map trim (split_str (CHR '','') header)) key
               \<lparr>records = [], processedCount = 0, errorCount = 0, world = w1\<rparr> rows = st"
  shows "fst (dataProcessor_handler svc topicArn event ctx wd) =
     \<lparr>statusCode = 200,
      body = Completed key (processedCount st) (errorCount st) (length rows)
               (success_rate (processedCount st) (length rows))\<rparr>"
  by (rule dataProcessor_handler_Inr) (rule dataProcessor_try_completed [OF rd pub st [symmetric]])

lemma api_publish_failure:
  assumes post: "httpMethod event = JStr ''POST''"
    and parsed: "parse_body svc (event_body event) = Some b"
    and nomev: "get_prop b ''nome'' = Inr nomev"
    and usable: "truthy nomev"
    and built: "build_item svc event ctx b wd = (Inr item, w1)"
    and put: "fst (putItem svc (ApiItem item) w1) = Inr ()"
    and t: "env_truthy topicArn"
    and attrs: "value_to_string svc (api_id item) = Inr s"
    and bad: "\<forall>p w. fst (sns_publish svc p w) = Inl err"
  shows "fst (createRecord_handler svc topicArn event ctx wd) =
           \<lparr>statusCode = 500,
            body = Failure ''Internal Server Error'' (MessageOf err),
            headers = cors_headers\<rparr>"
    and "put_calls (snd (createRecord_handler svc topicArn event ctx wd)) =
           put_calls w1 @ [ApiItem item]"
proof -
  let ?w2 = "snd (putItem svc (ApiItem item) w1)"
  let ?pm = "publishMessage svc (field_to_string topicArn)
                   (RecordCreated (api_id item) nomev (created_at item))
                   ''New Record Created via API''
                   [(''event_type'', JStr ''api_creation''), (''record_id'', api_id item)] ?w2"
  let ?r = "if env_truthy topicArn then ?pm else (Inr (), ?w2)"
  have put': "putItem svc (ApiItem item) w1 = (Inr (), ?w2)"
    by (subst put [symmetric]) (rule prod.collapse [symmetric])
  have "fst ?pm = Inl err"
    by (rule publishMessage_throws [OF bad]) (simp add: attrs)
  with t have f: "fst ?r = Inl err" by simp
  have r: "?r = (Inl err, snd ?r)"
    by (subst f [symmetric]) (rule prod.collapse [symmetric])
  have tr: "createRecord_try svc topicArn event ctx wd = (Inl err, snd ?r)"
    using createRecord_try_built [OF post parsed nomev usable built put' r] by simp
  show "fst (createRecord_handler svc topicArn event ctx wd) =
           \<lparr>statusCode = 500,
            body = Failure ''Internal Server Error'' (MessageOf err),
            headers = cors_headers\<rparr>"
    by (simp add: createRecord_handler_post [OF post] tr)
  have "put_calls (snd ?r) = put_calls w1 @ [ApiItem item]"
    by (simp add: publishMessage_put_calls putItem_put_calls)
  then show "put_calls (snd (createRecord_handler svc topicArn event ctx wd)) =
           put_calls w1 @ [ApiItem item]"
    by (simp add: createRecord_handler_post [OF post] tr)
qed

text \<open>
  C1. The claim does not hold of the code: a publish that throws on the success path is
  not caught where it happens. In the batch handler it reaches the outer \<open>catch\<close> and
  turns the result into the 500 result although every row was processed and persisted;
  in the API handler it turns the 201 response of a persisted record into a 500
  response. (Only the failure notification inside the outer \<open>catch\<close> of the batch
  handler is guarded by a \<open>try\<close> of its own.) The code at a failing input: one file of
  one good row, and one request with a usable \<open>nome\<close>, with a topic configured and
  a Notifier that throws; the same file with a Notifier that works gives 200.
\<close>

theorem notification_failure_propagates:
  "fst (dataProcessor_handler
          (sim_services (unlines [''id,nome,preco'', ''1,Caneta,2.50'']) (\<lambda>i. True) False [])
          sim_topic sim_event sim_context sim_world) =
     \<lparr>statusCode = 500, body = Fatal (ServiceError ''publish failed'')\<rparr>
   \<and> length (put_calls (snd (dataProcessor_handler
          (sim_services (unlines [''id,nome,preco'', ''1,Caneta,2.50'']) (\<lambda>i. True) False [])
          sim_topic sim_event sim_context sim_world))) = 1
   \<and> fst (dataProcessor_handler
          (sim_services (unlines [''id,nome,preco'', ''1,Caneta,2.50'']) (\<lambda>i. True) True [])
          sim_topic sim_event sim_context sim_world) =
     \<lparr>statusCode = 200, body = Completed ''produtos.csv'' 1 0 1 (Some 100)\<rparr>
   \<and> fst (createRecord_handler (sim_services [] (\<lambda>i. True) False sim_json_table) sim_topic
          (post_event (JStr json_widget)) sim_context sim_world) =
     \<lparr>statusCode = 500,
      body = Failure ''Internal Server Error'' (MessageOf (ServiceError ''publish failed'')),
      headers = cors_headers\<rparr>
   \<and> put_calls (snd (createRecord_handler (sim_services [] (\<lambda>i. True) False sim_json_table)
          sim_topic (post_event (JStr json_widget)) sim_context sim_world)) =
     [ApiItem \<lparr>api_id = JStr ''uuid-0'', api_timestamp = 1700000000001,
               api_nome = JStr ''Widget'', api_categoria = JStr ''API'',
               api_preco = Fin 0, api_estoque = Fin 0, api_source = ''API'',
               created_at = ''2023-11-14T22:13:20.2Z'',
               created_by = JStr ''10.0.0.7'', request_id = JStr ''req-1''\<rparr>]"
proof -
  let ?csv = "unlines [''id,nome,preco'', ''1,Caneta,2.50'']"
  let ?st0 = "\<lparr>records = [], processedCount = 0, errorCount = 0, world = sim_world\<rparr>"
  have t: "env_truthy sim_topic"
    by (simp add: env_truthy_def sim_topic_def)
  have rd: "read_lines (sim_services ?csv (\<lambda>i. True) ok []) sim_event sim_world =
     (Inr (''data-bucket'', ''produtos.csv'', ''id,nome,preco'' # [''1,Caneta,2.50'']), sim_world)"
    for ok
    by (simp add: read_lines_def sim_event_def sim_services_def plus_to_space_def getObject_def
          sim_world_def trim_def is_ws_def)
  have bad: "\<forall>p w. fst (sns_publish (sim_services csv (\<lambda>i. True) False table) p w) =
                 Inl (ServiceError ''publish failed'')" for csv table
    by (simp add: sim_publish)
  have good: "env_truthy sim_topic \<longrightarrow>
      (\<forall>p w. fst (sns_publish (sim_services ?csv (\<lambda>i. True) True []) p w) = Inr ())"
    by (simp add: sim_publish)
  have hs: "map trim (split_str (CHR '','') ''id,nome,preco'') = [''id'', ''nome'', ''preco'']"
    by (simp add: trim_def is_ws_def)
  have cnt: "processedCount (process_lines (sim_services csv (\<lambda>i. True) ok [])
               [''id'', ''nome'', ''preco''] ''produtos.csv'' ?st0 [''1,Caneta,2.50'']) = 1
        \<and> errorCount (process_lines (sim_services csv (\<lambda>i. True) ok [])
               [''id'', ''nome'', ''preco''] ''produtos.csv'' ?st0 [''1,Caneta,2.50'']) = 0
        \<and> length (put_calls (world (process_lines (sim_services csv (\<lambda>i. True) ok [])
               [''id'', ''nome'', ''preco''] ''produtos.csv'' ?st0 [''1,Caneta,2.50'']))) = 1"
    for ok csv
  proof -
    have nb: "trim ''1,Caneta,2.50'' \<noteq> []" by (simp add: trim_def is_ws_def)
    have r1: "row_of_line [''id'', ''nome'', ''preco''] (trim ''1,Caneta,2.50'') ''id'' = Some ''1''"
      by (simp add: row_of_line_def row_object_def nth_opt_def trim_def is_ws_def)
    have r2: "row_of_line [''id'', ''nome'', ''preco''] (trim ''1,Caneta,2.50'') ''nome'' = Some ''Caneta''"
      by (simp add: row_of_line_def row_object_def nth_opt_def trim_def is_ws_def)
    let ?S = "sim_services csv (\<lambda>i. True) ok []"
    let ?en = "enrich ?S ''produtos.csv''
                 (row_of_line [''id'', ''nome'', ''preco''] (trim ''1,Caneta,2.50'')) (world ?st0)"
    let ?pt = "putItem ?S (FileItem (fst ?en)) (snd ?en)"
    have put: "?pt = (Inr (), snd ?pt)"
      by (simp add: prod_eq_iff sim_putItem)
    have step: "process_line ?S [''id'', ''nome'', ''preco''] ''produtos.csv'' ?st0 ''1,Caneta,2.50'' =
        ?st0\<lparr>records := records ?st0 @ [fst ?en],
              processedCount := processedCount ?st0 + 1, world := snd ?pt\<rparr>"
    proof -
      have idv: "field_truthy (row_of_line [''id'', ''nome'', ''preco''] (trim ''1,Caneta,2.50'') ''id'')"
        by (simp add: r1 field_truthy_def)
      have nm: "field_truthy (row_of_line [''id'', ''nome'', ''preco''] (trim ''1,Caneta,2.50'') ''nome'')"
        by (simp add: r2 field_truthy_def)
      show ?thesis
        using process_line_accepted [OF nb idv nm prod.collapse [symmetric] put] by simp
    qed
    show ?thesis
      unfolding process_lines_Cons process_lines_Nil step
      by (simp add: putItem_put_calls enrich_put_calls sim_world_def)
  qed
  have b500: "fst (dataProcessor_handler (sim_services ?csv (\<lambda>i. True) False [])
            sim_topic sim_event sim_context sim_world) =
     \<lparr>statusCode = 500, body = Fatal (ServiceError ''publish failed'')\<rparr>"
    by (rule batch_publish_failure(1) [OF rd t bad])
  have bput: "length (put_calls (snd (dataProcessor_handler (sim_services ?csv (\<lambda>i. True) False [])
            sim_topic sim_event sim_context sim_world))) = 1"
    by (simp only: batch_put_calls [OF rd] hs cnt)
  have b200: "fst (dataProcessor_handler (sim_services ?csv (\<lambda>i. True) True [])
            sim_topic sim_event sim_context sim_world) =
     \<lparr>statusCode = 200, body = Completed ''produtos.csv'' 1 0 1 (Some 100)\<rparr>"
    using batch_completed [OF rd good refl, of sim_context, unfolded hs]
    by (simp add: cnt success_rate_def)
  let ?A = "sim_services [] (\<lambda>i. True) False sim_json_table"
  let ?b = "JObj [(''nome'', JStr ''Widget'')]"
  let ?item = "\<lparr>api_id = JStr ''uuid-0'', api_timestamp = 1700000000001,
               api_nome = JStr ''Widget'', api_categoria = JStr ''API'',
               api_preco = Fin 0, api_estoque = Fin 0, api_source = ''API'',
               created_at = ''2023-11-14T22:13:20.2Z'',
               created_by = JStr ''10.0.0.7'', request_id = JStr ''req-1''\<rparr>"
  have post: "httpMethod (post_event (JStr json_widget)) = JStr ''POST''"
    by (simp add: post_event_def)
  have parsed: "parse_body ?A (event_body (post_event (JStr json_widget))) = Some ?b"
    by (simp add: parse_body_def post_event_def sim_services_def sim_json_table_def
          json_widget_def json_no_nome_def)
  have nomev: "get_prop ?b ''nome'' = Inr (JStr ''Widget'')" by simp
  have usable: "truthy (JStr ''Widget'')" by simp
  have built: "build_item ?A (post_event (JStr json_widget)) sim_context ?b sim_world =
       (Inr ?item, \<lparr>ext = 3, put_calls = [], put_results = [], publish_calls = []\<rparr>)"
    by code_simp
  have put: "fst (putItem ?A (ApiItem ?item) \<lparr>ext = 3, put_calls = [], put_results = [], publish_calls = []\<rparr>) = Inr ()"
    by (simp add: sim_putItem)
  have attrs: "value_to_string ?A (api_id ?item) = Inr ''uuid-0''" by simp
  note api = api_publish_failure [OF post parsed nomev usable built put t attrs bad]
  have a500: "fst (createRecord_handler ?A sim_topic (post_event (JStr json_widget)) sim_context
                     sim_world) =
     \<lparr>statusCode = 500,
      body = Failure ''Internal Server Error'' (MessageOf (ServiceError ''publish failed'')),
      headers = cors_headers\<rparr>"
    by (rule api(1))
  have aput: "put_calls (snd (createRecord_handler ?A sim_topic (post_event (JStr json_widget))
                     sim_context sim_world)) = [ApiItem ?item]"
    using api(2) by simp
  show ?thesis
    by (intro conjI) (rule b500 bput b200 a500 aput)+
qed

section \<open>Blank lines and numeric fields\<close>

lemma process_line_persisted:
  assumes nb: "trim raw \<noteq> []"
    and idv: "field_truthy (row_of_line hdrs (trim raw) ''id'')"
    and nm: "field_truthy (row_of_line hdrs (trim raw) ''nome'')"
    and put: "fst (putItem svc (FileItem (fst (enrich svc key (row_of_line hdrs (trim raw)) (world st))))
                     (snd (enrich svc key (row_of_line hdrs (trim raw)) (world st)))) = Inr ()"
  shows "processedCount (process_line svc hdrs key st raw) = processedCount st + 1"
    and "errorCount (process_line svc hdrs key st raw) = errorCount st"
    and "put_calls (world (process_line svc hdrs key st raw)) =
           put_calls (world st) @ [FileItem (fst (enrich svc key (row_of_line hdrs (trim raw)) (world st)))]"
proof -
  let ?en = "enrich svc key (row_of_line hdrs (trim raw)) (world st)"
  let ?pt = "putItem svc (FileItem (fst ?en)) (snd ?en)"
  have put': "?pt = (Inr (), snd ?pt)"
    by (subst put [symmetric]) (rule prod.collapse [symmetric])
  have step: "process_line svc hdrs key st raw =
        st\<lparr>records := records st @ [fst ?en],
           processedCount := processedCount st + 1, world := snd ?pt\<rparr>"
    using process_line_accepted [OF nb idv nm prod.collapse [symmetric] put'] by simp
  show "processedCount (process_line svc hdrs key st raw) = processedCount st + 1"
    and "errorCount (process_line svc hdrs key st raw) = errorCount st"
    and "put_calls (world (process_line svc hdrs key st raw)) = put_calls (world st) @ [FileItem (fst ?en)]"
    unfolding step by (simp_all add: putItem_put_calls enrich_put_calls)
qed

lemma process_line_put_calls:
  assumes nb: "trim raw \<noteq> []"
    and idv: "field_truthy (row_of_line hdrs (trim raw) ''id'')"
    and nm: "field_truthy (row_of_line hdrs (trim raw) ''nome'')"
  shows "put_calls (world (process_line svc hdrs key st raw)) =
           put_calls (world st) @ [FileItem (fst (enrich svc key (row_of_line hdrs (trim raw)) (world st)))]"
proof -
  let ?en = "enrich svc key (row_of_line hdrs (trim raw)) (world st)"
  let ?pt = "putItem svc (FileItem (fst ?en)) (snd ?en)"
  have step: "process_line svc hdrs key st raw =
     (case fst ?pt of
        Inl err \<Rightarrow> st\<lparr>errorCount := errorCount st + 1, world := snd ?pt\<rparr>
      | Inr u \<Rightarrow> st\<lparr>records := records st @ [fst ?en],
                    processedCount := processedCount st + 1, world := snd ?pt\<rparr>)"
    by (rule process_line_accepted [OF nb idv nm prod.collapse [symmetric] prod.collapse [symmetric]])
  show ?thesis
    unfolding step by (cases "fst ?pt") (simp_all add: putItem_put_calls enrich_put_calls)
qed

text \<open>
  C2. A blank line is skipped by the loop and changes neither counter
  (\<open>process_line_blank\<close>, \<open>process_lines_skip_blank\<close>), but the claim does not hold
  of the reported total: \<open>total_records\<close> is \<open>lines.length - 1\<close>, and a blank line
  between the header and the data, or between two rows, is one of these lines. The code
  on a file with a header, a blank line and one good row: one row processed, none
  failed, and a reported total of two, so that the reported success rate is 50.
\<close>

theorem blank_line_in_total:
  "fst (dataProcessor_handler
          (sim_services csv_blank_line (\<lambda>i. True) True [])
          sim_topic sim_event sim_context sim_world) =
     \<lparr>statusCode = 200, body = Completed ''produtos.csv'' 1 0 2 (Some 50)\<rparr>"
proof -
  let ?S = "sim_services csv_blank_line (\<lambda>i. True) True []"
  let ?st0 = "\<lparr>records = [], processedCount = 0, errorCount = 0, world = sim_world\<rparr>"
  have rd: "read_lines ?S sim_event sim_world =
     (Inr (''data-bucket'', ''produtos.csv'', ''id,nome'' # ['''', ''1,Caneta'']), sim_world)"
    by (simp add: read_lines_def sim_event_def sim_services_def plus_to_space_def getObject_def
          sim_world_def trim_def is_ws_def csv_blank_line_def)
  have good: "env_truthy sim_topic \<longrightarrow> (\<forall>p w. fst (sns_publish ?S p w) = Inr ())"
    by (simp add: sim_publish)
  have hs: "map trim (split_str (CHR '','') ''id,nome'') = [''id'', ''nome'']"
    by (simp add: trim_def is_ws_def)
  have blank: "trim '''' = []" by (simp add: trim_def)
  have nb: "trim ''1,Caneta'' \<noteq> []" by (simp add: trim_def is_ws_def)
  have idv: "field_truthy (row_of_line [''id'', ''nome''] (trim ''1,Caneta'') ''id'')"
    by (simp add: row_of_line_def row_object_def nth_opt_def trim_def is_ws_def field_truthy_def)
  have nm: "field_truthy (row_of_line [''id'', ''nome''] (trim ''1,Caneta'') ''nome'')"
    by (simp add: row_of_line_def row_object_def nth_opt_def trim_def is_ws_def field_truthy_def)
  have put: "fst (putItem ?S (FileItem e) w) = Inr ()" for e w
    by (simp add: sim_putItem)
  have cnt: "processedCount (process_lines ?S [''id'', ''nome''] ''produtos.csv'' ?st0
               ['''', ''1,Caneta'']) = 1"
       "errorCount (process_lines ?S [''id'', ''nome''] ''produtos.csv'' ?st0
               ['''', ''1,Caneta'']) = 0"
    unfolding process_lines_Cons process_lines_Nil process_line_blank [OF blank]
    by (simp_all add: process_line_persisted(1,2) [OF nb idv nm put])
  show ?thesis
    using batch_completed [OF rd good refl, of sim_context, unfolded hs]
    by (simp add: cnt success_rate_def)
qed

lemma createRecord_put_calls_built:
  assumes post: "httpMethod event = JStr ''POST''"
    and parsed: "parse_body svc (event_body event) = Some b"
    and nomev: "get_prop b ''nome'' = Inr nomev"
    and usable: "truthy nomev"
    and built: "build_item svc event ctx b wd = (Inr item, w1)"
  shows "put_calls (snd (createRecord_handler svc topicArn event ctx wd)) =
           put_calls w1 @ [ApiItem item]"
proof -
  obtain pr w2 where pt: "putItem svc (ApiItem item) w1 = (pr, w2)"
    by (cases "putItem svc (ApiItem item) w1")
  have calls: "put_calls w2 = put_calls w1 @ [ApiItem item]"
    using putItem_put_calls [of svc "ApiItem item" w1] pt by simp
  show ?thesis
  proof (cases pr)
    case (Inl e)
    have "createRecord_try svc topicArn event ctx wd = (Inl e, w2)"
      using usable by (simp add: createRecord_try_def post parsed nomev built pt Inl)
    then show ?thesis
      using calls by (simp add: createRecord_handler_post [OF post])
  next
    case (Inr u)
    then have put: "putItem svc (ApiItem item) w1 = (Inr (), w2)"
      using pt by simp
    obtain p w3 where r: "(if env_truthy topicArn then
                 publishMessage svc (field_to_string topicArn)
                   (RecordCreated (api_id item) nomev (created_at item))
                   ''New Record Created via API''
                   [(''event_type'', JStr ''api_creation''), (''record_id'', api_id item)] w2
               else (Inr (), w2)) = (p, w3)"
      by (cases "if env_truthy topicArn then
                 publishMessage svc (field_to_string topicArn)
                   (RecordCreated (api_id item) nomev (created_at item))
                   ''New Record Created via API''
                   [(''event_type'', JStr ''api_creation''), (''record_id'', api_id item)] w2
               else (Inr (), w2)")
    have rc: "put_calls w3 = put_calls w1 @ [ApiItem item]"
    proof (cases "env_truthy topicArn")
      case True
      with r have "w3 = snd (publishMessage svc (field_to_string topicArn)
                   (RecordCreated (api_id item) nomev (created_at item))
                   ''New Record Created via API''
                   [(''event_type'', JStr ''api_creation''), (''record_id'', api_id item)] w2)"
        by simp
      then show ?thesis using calls by (simp add: publishMessage_put_calls)
    next
      case False
      with r calls show ?thesis by simp
    qed
    note tr = createRecord_try_built [OF post parsed nomev usable built put r]
    show ?thesis
      using rc by (cases p) (simp_all add: createRecord_handler_post [OF post] tr)
  qed
qed

lemma batch_numeric_defaults:
  assumes nb: "trim raw \<noteq> []"
    and idv: "field_truthy (row_of_line hdrs (trim raw) ''id'')"
    and nm: "field_truthy (row_of_line hdrs (trim raw) ''nome'')"
  shows "\<exists>e. put_calls (world (process_line svc hdrs key st raw)) = put_calls (world st) @ [FileItem e]
        \<and> (row_of_line hdrs (trim raw) ''preco'' = None
             \<or> parseFloat (row_of_line hdrs (trim raw) ''preco'') = NaN \<longrightarrow> preco e = Fin 0)
        \<and> (row_of_line hdrs (trim raw) ''estoque'' = None
             \<or> parseInt (row_of_line hdrs (trim raw) ''estoque'') = NaN \<longrightarrow> estoque e = Fin 0)
        \<and> (num_truthy (parseFloat (row_of_line hdrs (trim raw) ''preco'')) \<longrightarrow>
             preco e = parseFloat (row_of_line hdrs (trim raw) ''preco''))
        \<and> (num_truthy (parseInt (row_of_line hdrs (trim raw) ''estoque'')) \<longrightarrow>
             estoque e = parseInt (row_of_line hdrs (trim raw) ''estoque''))
        \<and> preco e \<noteq> NaN
        \<and> estoque e \<noteq> NaN
        \<and> (estoque e = PosInf \<or> estoque e = NegInf \<or> (\<exists>n::int. estoque e = Fin (of_int n)))"
proof -
  let ?row = "row_of_line hdrs (trim raw)"
  let ?e = "fst (enrich svc key ?row (world st))"
  have calls: "put_calls (world (process_line svc hdrs key st raw)) =
                 put_calls (world st) @ [FileItem ?e]"
    by (rule process_line_put_calls [OF nb idv nm])
  have p0: "?row ''preco'' = None \<or> parseFloat (?row ''preco'') = NaN \<longrightarrow> preco ?e = Fin 0"
    using absent_field_NaN(1) by (auto simp add: enrich_fields num_or_zero(2))
  have s0: "?row ''estoque'' = None \<or> parseInt (?row ''estoque'') = NaN \<longrightarrow> estoque ?e = Fin 0"
    using absent_field_NaN(2) by (auto simp add: enrich_fields num_or_zero(2))
  have p1: "num_truthy (parseFloat (?row ''preco'')) \<longrightarrow> preco ?e = parseFloat (?row ''preco'')"
    by (simp add: enrich_fields num_or_def)
  have s1: "num_truthy (parseInt (?row ''estoque'')) \<longrightarrow> estoque ?e = parseInt (?row ''estoque'')"
    by (simp add: enrich_fields num_or_def)
  have p2: "preco ?e \<noteq> NaN"
    by (simp add: enrich_fields num_or_zero(1))
  have s2: "estoque ?e \<noteq> NaN"
    by (simp add: enrich_fields num_or_zero(1))
  have s3: "estoque ?e = PosInf \<or> estoque ?e = NegInf \<or> (\<exists>n::int. estoque ?e = Fin (of_int n))"
    unfolding enrich_fields parseInt_def by (rule stock_integer(2))
  from calls p0 s0 p1 s1 p2 s2 s3 show ?thesis by blast
qed

lemma api_numeric_defaults:
  assumes post: "httpMethod event = JStr ''POST''"
    and parsed: "parse_body svc (event_body event) = Some b"
    and nomev: "get_prop b ''nome'' = Inr nomev" and usable: "truthy nomev"
    and idv: "get_prop b ''id'' = Inr idv"
    and pv: "get_prop b ''preco'' = Inr pv"
    and ev: "get_prop b ''estoque'' = Inr ev"
    and built: "build_item svc event ctx b wd = (Inr item, w1)"
  shows "put_calls (snd (createRecord_handler svc topicArn event ctx wd)) = put_calls wd @ [ApiItem item]
      \<and> (pv = JUndefined \<or> parseFloat_val svc pv = Inr NaN \<longrightarrow> api_preco item = Fin 0)
      \<and> (ev = JUndefined \<or> parseInt_val svc ev = Inr NaN \<longrightarrow> api_estoque item = Fin 0)
      \<and> (\<forall>pf. parseFloat_val svc pv = Inr pf \<and> num_truthy pf \<longrightarrow> api_preco item = pf)
      \<and> (\<forall>pint. parseInt_val svc ev = Inr pint \<and> num_truthy pint \<longrightarrow> api_estoque item = pint)
      \<and> api_preco item \<noteq> NaN
      \<and> api_estoque item \<noteq> NaN
      \<and> (api_estoque item = PosInf \<or> api_estoque item = NegInf
           \<or> (\<exists>n::int. api_estoque item = Fin (of_int n)))"
proof -
  from build_item_fields(2) [OF idv built] pv
  obtain pf where pf: "parseFloat_val svc pv = Inr pf" "api_preco item = num_or pf (Fin 0)"
    by auto
  from build_item_fields(3) [OF idv built] ev
  obtain pint where pint: "parseInt_val svc ev = Inr pint" "api_estoque item = num_or pint (Fin 0)"
    by auto
  have c0: "put_calls (snd (createRecord_handler svc topicArn event ctx wd)) = put_calls wd @ [ApiItem item]"
    using createRecord_put_calls_built [OF post parsed nomev usable built]
      build_item_fields(4) [OF idv built] by simp
  have c1: "pv = JUndefined \<or> parseFloat_val svc pv = Inr NaN \<longrightarrow> api_preco item = Fin 0"
    using pf absent_value_NaN(1) [of svc] by (auto simp add: num_or_zero(2))
  have c2: "ev = JUndefined \<or> parseInt_val svc ev = Inr NaN \<longrightarrow> api_estoque item = Fin 0"
    using pint absent_value_NaN(2) [of svc] by (auto simp add: num_or_zero(2))
  have c3: "\<forall>pf. parseFloat_val svc pv = Inr pf \<and> num_truthy pf \<longrightarrow> api_preco item = pf"
    using pf by (simp add: num_or_def)
  have c4: "\<forall>pint. parseInt_val svc ev = Inr pint \<and> num_truthy pint \<longrightarrow> api_estoque item = pint"
    using pint by (simp add: num_or_def)
  have c5: "api_preco item \<noteq> NaN"
    using pf by (simp add: num_or_zero(1))
  obtain s where s: "value_to_string svc ev = Inr s" "pint = parseInt_str s"
    using pint(1) by (auto simp add: parseInt_val_def split: sum.splits)
  have c6: "api_estoque item \<noteq> NaN"
    using pint(2) by (simp add: num_or_zero(1))
  have c7: "api_estoque item = PosInf \<or> api_estoque item = NegInf
           \<or> (\<exists>n::int. api_estoque item = Fin (of_int n))"
    unfolding pint(2) s(2) by (rule stock_integer(2))
  from c0 c1 c2 c3 c4 c5 c6 c7 show ?thesis by (intro conjI)
qed

text \<open>
  C3, as amended. Every record handed to the Store Gateway by either path has a price
  and a stock that are numbers, never \<open>NaN\<close>; the stock is an integer, or an infinity
  when the digits of the field go beyond the range of a double
  (\<open>parseInt_str_overflow\<close>). The price is 0 when the raw field is absent or does not
  parse, and the stock likewise; a field that parses to a number other than zero is
  stored as parsed, whatever its sign: neither path checks a sign. Batch path: an
  accepted row puts exactly one record. API path: a request whose item is built puts
  exactly that item.
\<close>

theorem numeric_defaults:
  "(trim raw \<noteq> []
      \<and> field_truthy (row_of_line hdrs (trim raw) ''id'')
      \<and> field_truthy (row_of_line hdrs (trim raw) ''nome'') \<longrightarrow>
    (\<exists>e. put_calls (world (process_line svc hdrs key st raw)) = put_calls (world st) @ [FileItem e]
        \<and> (row_of_line hdrs (trim raw) ''preco'' = None
             \<or> parseFloat (row_of_line hdrs (trim raw) ''preco'') = NaN \<longrightarrow> preco e = Fin 0)
        \<and> (row_of_line hdrs (trim raw) ''estoque'' = None
             \<or> parseInt (row_of_line hdrs (trim raw) ''estoque'') = NaN \<longrightarrow> estoque e = Fin 0)
        \<and> (num_truthy (parseFloat (row_of_line hdrs (trim raw) ''preco'')) \<longrightarrow>
             preco e = parseFloat (row_of_line hdrs (trim raw) ''preco''))
        \<and> (num_truthy (parseInt (row_of_line hdrs (trim raw) ''estoque'')) \<longrightarrow>
             estoque e = parseInt (row_of_line hdrs (trim raw) ''estoque''))
        \<and> preco e \<noteq> NaN
        \<and> estoque e \<noteq> NaN
        \<and> (estoque e = PosInf \<or> estoque e = NegInf \<or> (\<exists>n::int. estoque e = Fin (of_int n)))))
   \<and> (httpMethod event = JStr ''POST''
      \<and> parse_body svc (event_body event) = Some b
      \<and> get_prop b ''nome'' = Inr nomev \<and> truthy nomev
      \<and> get_prop b ''id'' = Inr idv
      \<and> get_prop b ''preco'' = Inr pv
      \<and> get_prop b ''estoque'' = Inr ev
      \<and> build_item svc event ctx b wd = (Inr item, w1) \<longrightarrow>
    put_calls (snd (createRecord_handler svc topicArn event ctx wd)) = put_calls wd @ [ApiItem item]
      \<and> (pv = JUndefined \<or> parseFloat_val svc pv = Inr NaN \<longrightarrow> api_preco item = Fin 0)
      \<and> (ev = JUndefined \<or> parseInt_val svc ev = Inr NaN \<longrightarrow> api_estoque item = Fin 0)
      \<and> (\<forall>pf. parseFloat_val svc pv = Inr pf \<and> num_truthy pf \<longrightarrow> api_preco item = pf)
      \<and> (\<forall>pint. parseInt_val svc ev = Inr pint \<and> num_truthy pint \<longrightarrow> api_estoque item = pint)
      \<and> api_preco item \<noteq> NaN
      \<and> api_estoque item \<noteq> NaN
      \<and> (api_estoque item = PosInf \<or> api_estoque item = NegInf
           \<or> (\<exists>n::int. api_estoque item = Fin (of_int n))))"
proof (rule conjI; rule impI)
  assume "trim raw \<noteq> []
      \<and> field_truthy (row_of_line hdrs (trim raw) ''id'')
      \<and> field_truthy (row_of_line hdrs (trim raw) ''nome'')"
  then have nb: "trim raw \<noteq> []"
    and idv: "field_truthy (row_of_line hdrs (trim raw) ''id'')"
    and nm: "field_truthy (row_of_line hdrs (trim raw) ''nome'')"
    by simp_all
  show "\<exists>e. put_calls (world (process_line svc hdrs key st raw)) = put_calls (world st) @ [FileItem e]
        \<and> (row_of_line hdrs (trim raw) ''preco'' = None
             \<or> parseFloat (row_of_line hdrs (trim raw) ''preco'') = NaN \<longrightarrow> preco e = Fin 0)
        \<and> (row_of_line hdrs (trim raw) ''estoque'' = None
             \<or> parseInt (row_of_line hdrs (trim raw) ''estoque'') = NaN \<longrightarrow> estoque e = Fin 0)
        \<and> (num_truthy (parseFloat (row_of_line hdrs (trim raw) ''preco'')) \<longrightarrow>
             preco e = parseFloat (row_of_line hdrs (trim raw) ''preco''))
        \<and> (num_truthy (parseInt (row_of_line hdrs (trim raw) ''estoque'')) \<longrightarrow>
             estoque e = parseInt (row_of_line hdrs (trim raw) ''estoque''))
        \<and> preco e \<noteq> NaN
        \<and> estoque e \<noteq> NaN
        \<and> (estoque e = PosInf \<or> estoque e = NegInf \<or> (\<exists>n::int. estoque e = Fin (of_int n)))"
    by (rule batch_numeric_defaults [OF nb idv nm])
next
  assume "httpMethod event = JStr ''POST''
      \<and> parse_body svc (event_body event) = Some b
      \<and> get_prop b ''nome'' = Inr nomev \<and> truthy nomev
      \<and> get_prop b ''id'' = Inr idv
      \<and> get_prop b ''preco'' = Inr pv
      \<and> get_prop b ''estoque'' = Inr ev
      \<and> build_item svc event ctx b wd = (Inr item, w1)"
  then have post: "httpMethod event = JStr ''POST''"
    and parsed: "parse_body svc (event_body event) = Some b"
    and nomev: "get_prop b ''nome'' = Inr nomev" and usable: "truthy nomev"
    and idv: "get_prop b ''id'' = Inr idv"
    and pv: "get_prop b ''preco'' = Inr pv"
    and ev: "get_prop b ''estoque'' = Inr ev"
    and built: "build_item svc event ctx b wd = (Inr item, w1)"
    by simp_all
  show "put_calls (snd (createRecord_handler svc topicArn event ctx wd)) = put_calls wd @ [ApiItem item]
      \<and> (pv = JUndefined \<or> parseFloat_val svc pv = Inr NaN \<longrightarrow> api_preco item = Fin 0)
      \<and> (ev = JUndefined \<or> parseInt_val svc ev = Inr NaN \<longrightarrow> api_estoque item = Fin 0)
      \<and> (\<forall>pf. parseFloat_val svc pv = Inr pf \<and> num_truthy pf \<longrightarrow> api_preco item = pf)
      \<and> (\<forall>pint. parseInt_val svc ev = Inr pint \<and> num_truthy pint \<longrightarrow> api_estoque item = pint)
      \<and> api_preco item \<noteq> NaN
      \<and> api_estoque item \<noteq> NaN
      \<and> (api_estoque item = PosInf \<or> api_estoque item = NegInf
           \<or> (\<exists>n::int. api_estoque item = Fin (of_int n)))"
    by (rule api_numeric_defaults [OF post parsed nomev usable idv pv ev built])
qed

text \<open>
  C3 as stated fails: a row with the price \<open>-5\<close> and the stock \<open>-3\<close> is handed to
  the Store Gateway with these negative values.
\<close>

theorem negative_price_stored:
  "put_calls (snd (dataProcessor_handler (sim_services csv_negative (\<lambda>i. True) True [])
                     sim_topic sim_event sim_context sim_world)) =
     [FileItem \<lparr>item_id = ''1'', timestamp = 1700000000000, nome = ''Caneta'',
                categoria = ''Sem categoria'', preco = Fin (- 5), estoque = Fin (- 3),
                source_file = ''produtos.csv'', processed_at = ''2023-11-14T22:13:20.1Z'',
                processor_version = ''1.0.0''\<rparr>]"
proof -
  let ?S = "sim_services csv_negative (\<lambda>i. True) True []"
  let ?hs = "[''id'', ''nome'', ''preco'', ''estoque'']"
  let ?st0 = "\<lparr>records = [], processedCount = 0, errorCount = 0, world = sim_world\<rparr>"
  have rd: "read_lines ?S sim_event sim_world =
     (Inr (''data-bucket'', ''produtos.csv'', ''id,nome,preco,estoque'' # [''1,Caneta,-5,-3'']),
      sim_world)"
    by (simp add: read_lines_def sim_event_def sim_services_def plus_to_space_def getObject_def
          sim_world_def trim_def is_ws_def csv_negative_def)
  have hs: "map trim (split_str (CHR '','') ''id,nome,preco,estoque'') = ?hs"
    by (simp add: trim_def is_ws_def)
  have nb: "trim ''1,Caneta,-5,-3'' \<noteq> []" by (simp add: trim_def is_ws_def)
  have idv: "field_truthy (row_of_line ?hs (trim ''1,Caneta,-5,-3'') ''id'')"
    by (simp add: row_of_line_def row_object_def nth_opt_def trim_def is_ws_def field_truthy_def)
  have nm: "field_truthy (row_of_line ?hs (trim ''1,Caneta,-5,-3'') ''nome'')"
    by (simp add: row_of_line_def row_object_def nth_opt_def trim_def is_ws_def field_truthy_def)
  have en: "fst (enrich ?S ''produtos.csv'' (row_of_line ?hs (trim ''1,Caneta,-5,-3'')) sim_world) =
      \<lparr>item_id = ''1'', timestamp = 1700000000000, nome = ''Caneta'',
       categoria = ''Sem categoria'', preco = Fin (- 5), estoque = Fin (- 3),
       source_file = ''produtos.csv'', processed_at = ''2023-11-14T22:13:20.1Z'',
       processor_version = ''1.0.0''\<rparr>"
  proof -
    have row: "row_of_line ?hs (trim ''1,Caneta,-5,-3'') ''id'' = Some ''1''"
        "row_of_line ?hs (trim ''1,Caneta,-5,-3'') ''nome'' = Some ''Caneta''"
        "row_of_line ?hs (trim ''1,Caneta,-5,-3'') ''preco'' = Some ''-5''"
        "row_of_line ?hs (trim ''1,Caneta,-5,-3'') ''estoque'' = Some ''-3''"
        "row_of_line ?hs (trim ''1,Caneta,-5,-3'') ''categoria'' = None"
      by (simp_all add: row_of_line_def row_object_def nth_opt_def trim_def is_ws_def)
    have "parseFloat_str ''-5'' = to_double (- 5)"
      by (simp add: parseFloat_str_def trimStart_def is_ws_def is_digit_def digits_val_def
            digit_val_def pow10_def Let_def)
    moreover have "to_double (- 5) = Fin (- 5)"
      using to_double_exact_int [of "- 5"] by simp
    ultimately have pf: "parseFloat (Some ''-5'') = Fin (- 5)"
      by (simp add: parseFloat_def field_to_string_def)
    have "parseInt_str ''-3'' = to_double (- 3)"
      by (simp add: parseInt_str_def trimStart_def is_ws_def is_digit_def digits_val_def
            digit_val_def Let_def)
    moreover have "to_double (- 3) = Fin (- 3)"
      using to_double_exact_int [of "- 3"] by simp
    ultimately have pint: "parseInt (Some ''-3'') = Fin (- 3)"
      by (simp add: parseInt_def field_to_string_def)
    show ?thesis
      unfolding sim_enrich row pf pint
      by (simp add: field_to_string_def field_truthy_def num_or_def sim_world_def
            String_nat.simps)
  qed
  have empty: "put_calls sim_world = []" by (simp add: sim_world_def)
  have "put_calls (snd (dataProcessor_handler ?S sim_topic sim_event sim_context sim_world)) =
        put_calls (world (process_lines ?S ?hs ''produtos.csv'' ?st0 [''1,Caneta,-5,-3'']))"
    by (rule batch_put_calls [OF rd, unfolded hs])
  also have "\<dots> = put_calls (world ?st0) @
        [FileItem (fst (enrich ?S ''produtos.csv'' (row_of_line ?hs (trim ''1,Caneta,-5,-3''))
                          (world ?st0)))]"
    unfolding process_lines_Cons process_lines_Nil
    by (rule process_line_put_calls [OF nb idv nm])
  finally show ?thesis
    by (simp add: en empty)
qed

theorem numeric_defaults_witness:
  "trim ''7,Caderno,abc'' \<noteq> []
   \<and> row_of_line [''id'', ''nome'', ''preco''] (trim ''7,Caderno,abc'') ''id'' = Some ''7''
   \<and> row_of_line [''id'', ''nome'', ''preco''] (trim ''7,Caderno,abc'') ''nome'' = Some ''Caderno''
   \<and> row_of_line [''id'', ''nome'', ''preco''] (trim ''7,Caderno,abc'') ''preco'' = Some ''abc''
   \<and> parseFloat (Some ''abc'') = NaN
   \<and> row_of_line [''id'', ''nome'', ''preco''] (trim ''7,Caderno,abc'') ''estoque'' = None
   \<and> (\<exists>e. put_calls (world (process_line (sim_services [] (\<lambda>i. True) True sim_json_table)
                 [''id'', ''nome'', ''preco''] ''produtos.csv'' sim_state ''7,Caderno,abc'')) =
              put_calls (world sim_state) @ [FileItem e]
          \<and> preco e = Fin 0 \<and> estoque e = Fin 0)
   \<and> httpMethod (post_event (JStr json_widget)) = JStr ''POST''
   \<and> parse_body (sim_services [] (\<lambda>i. True) True sim_json_table)
         (event_body (post_event (JStr json_widget))) = Some (JObj [(''nome'', JStr ''Widget'')])
   \<and> get_prop (JObj [(''nome'', JStr ''Widget'')]) ''nome'' = Inr (JStr ''Widget'')
   \<and> get_prop (JObj [(''nome'', JStr ''Widget'')]) ''preco'' = Inr JUndefined
   \<and> get_prop (JObj [(''nome'', JStr ''Widget'')]) ''estoque'' = Inr JUndefined
   \<and> put_calls (snd (createRecord_handler (sim_services [] (\<lambda>i. True) True sim_json_table)
         sim_topic (post_event (JStr json_widget)) sim_context sim_world)) =
       put_calls sim_world @
         [ApiItem \<lparr>api_id = JStr ''uuid-0'', api_timestamp = 1700000000001,
                   api_nome = JStr ''Widget'', api_categoria = JStr ''API'',
                   api_preco = Fin 0, api_estoque = Fin 0, api_source = ''API'',
                   created_at = ''2023-11-14T22:13:20.2Z'',
                   created_by = JStr ''10.0.0.7'', request_id = JStr ''req-1''\<rparr>]"
proof -
  let ?S = "sim_services [] (\<lambda>i. True) True sim_json_table"
  let ?hs = "[''id'', ''nome'', ''preco'']"
  let ?b = "JObj [(''nome'', JStr ''Widget'')]"
  let ?item = "\<lparr>api_id = JStr ''uuid-0'', api_timestamp = 1700000000001,
                   api_nome = JStr ''Widget'', api_categoria = JStr ''API'',
                   api_preco = Fin 0, api_estoque = Fin 0, api_source = ''API'',
                   created_at = ''2023-11-14T22:13:20.2Z'',
                   created_by = JStr ''10.0.0.7'', request_id = JStr ''req-1''\<rparr>"
  have nb: "trim ''7,Caderno,abc'' \<noteq> []" by (simp add: trim_def is_ws_def)
  have r1: "row_of_line ?hs (trim ''7,Caderno,abc'') ''id'' = Some ''7''"
    by (simp add: row_of_line_def row_object_def nth_opt_def trim_def is_ws_def)
  have r2: "row_of_line ?hs (trim ''7,Caderno,abc'') ''nome'' = Some ''Caderno''"
    by (simp add: row_of_line_def row_object_def nth_opt_def trim_def is_ws_def)
  have r3: "row_of_line ?hs (trim ''7,Caderno,abc'') ''preco'' = Some ''abc''"
    by (simp add: row_of_line_def row_object_def nth_opt_def trim_def is_ws_def)
  have r4: "row_of_line ?hs (trim ''7,Caderno,abc'') ''estoque'' = None"
    by (simp add: row_of_line_def row_object_def nth_opt_def trim_def is_ws_def)
  have nan: "parseFloat (Some ''abc'') = NaN"
    by (simp add: parseFloat_def field_to_string_def parseFloat_str_def trimStart_def is_ws_def
          is_digit_def)
  have batch_hyp: "trim ''7,Caderno,abc'' \<noteq> []
      \<and> field_truthy (row_of_line ?hs (trim ''7,Caderno,abc'') ''id'')
      \<and> field_truthy (row_of_line ?hs (trim ''7,Caderno,abc'') ''nome'')"
    by (simp add: nb r1 r2 field_truthy_def)
  have post: "httpMethod (post_event (JStr json_widget)) = JStr ''POST''"
    by (simp add: post_event_def)
  have parsed: "parse_body ?S (event_body (post_event (JStr json_widget))) = Some ?b"
    by (simp add: parse_body_def post_event_def sim_services_def sim_json_table_def
          json_widget_def json_no_nome_def)
  have nomev: "get_prop ?b ''nome'' = Inr (JStr ''Widget'')" by simp
  have idv: "get_prop ?b ''id'' = Inr JUndefined" by simp
  have pv: "get_prop ?b ''preco'' = Inr JUndefined" by simp
  have ev: "get_prop ?b ''estoque'' = Inr JUndefined" by simp
  have built: "build_item ?S (post_event (JStr json_widget)) sim_context ?b sim_world =
       (Inr ?item, \<lparr>ext = 3, put_calls = [], put_results = [], publish_calls = []\<rparr>)"
    by code_simp
  have api_hyp: "httpMethod (post_event (JStr json_widget)) = JStr ''POST''
      \<and> parse_body ?S (event_body (post_event (JStr json_widget))) = Some ?b
      \<and> get_prop ?b ''nome'' = Inr (JStr ''Widget'') \<and> truthy (JStr ''Widget'')
      \<and> get_prop ?b ''id'' = Inr JUndefined
      \<and> get_prop ?b ''preco'' = Inr JUndefined
      \<and> get_prop ?b ''estoque'' = Inr JUndefined
      \<and> build_item ?S (post_event (JStr json_widget)) sim_context ?b sim_world =
          (Inr ?item, \<lparr>ext = 3, put_calls = [], put_results = [], publish_calls = []\<rparr>)"
    using post parsed built by simp
  note inst = numeric_defaults [where raw = "''7,Caderno,abc''" and hdrs = ?hs and svc = ?S
      and key = "''produtos.csv''" and st = sim_state and event = "post_event (JStr json_widget)"
      and b = ?b and nomev = "JStr ''Widget''" and idv = JUndefined and pv = JUndefined
      and ev = JUndefined and ctx = sim_context and wd = sim_world and item = ?item
      and ?w1.0 = "\<lparr>ext = 3, put_calls = [], put_results = [], publish_calls = []\<rparr>" and topicArn = sim_topic]
  from inst [THEN conjunct1, THEN mp, OF batch_hyp]
  have batch: "\<exists>e. put_calls (world (process_line ?S ?hs ''produtos.csv'' sim_state ''7,Caderno,abc'')) =
              put_calls (world sim_state) @ [FileItem e]
          \<and> preco e = Fin 0 \<and> estoque e = Fin 0"
    using r3 r4 nan by auto
  from inst [THEN conjunct2, THEN mp, OF api_hyp]
  have api: "put_calls (snd (createRecord_handler ?S sim_topic (post_event (JStr json_widget))
                sim_context sim_world)) = put_calls sim_world @ [ApiItem ?item]"
    by (rule conjunct1)
  show ?thesis
    by (intro conjI) (rule nb r1 r2 r3 nan r4 batch post parsed nomev pv ev api)+
qed

end
